(* ===== verification/Aura_Prelude.thy ===== *)
theory Aura_Prelude
  imports Main "HOL-Library.AList" "HOL-Library.Sublist"
begin

text \<open>
  The vocabulary shared by every component of the AuraClaw development.

  \<^item> Clock readings and durations (\<open>datetime\<close>, \<open>timedelta\<close>) are integers counting
    microseconds; an operation of the source that reads the clock takes the reading as an
    argument, once per call of \<open>_now()\<close>, so that a property can let time pass between two
    readings.
  \<^item> Identifiers drawn from \<open>uuid4()\<close> are arguments as well.
  \<^item> A Python \<open>dict\<close> is an association list in insertion order: \<open>map_of d k\<close> looks a key
    up, \<open>AList.update k v d\<close> stores in place or appends, \<open>AList.delete k d\<close> is
    \<open>pop\<close>.
  \<^item> An operation that can raise returns \<open>aura_error + 'a\<close>, \<open>Inl\<close> being the exception.
\<close>

named_theorems dict_simps \<open>look-up, update and key-set equations of ordered dictionaries\<close>
named_theorems guard_elims \<open>what a successful guarded operation says about its guards\<close>

section \<open>Types named once\<close>

type_synonym time = int
type_synonym duration = int
type_synonym ('k, 'v) dict = "('k \<times> 'v) list"

definition seconds :: "int \<Rightarrow> duration" where
  "seconds n = n * 1000000"

section \<open>Exceptions\<close>

text \<open>
  The exception classes the modelled code raises, each with its message: the Python built-ins
  and the subclasses of \<open>AuraClawError\<close> of \<open>contracts/errors.py\<close>.
\<close>

datatype aura_error =
    KeyError string
  | ValueError string
  | TypeError string
  | OverflowError string
  | AttributeError string
  | RuntimeError string
  | VersionConflictError string
  | InvalidTransitionError string
  | LeaseConflictError string
  | FencingTokenError string
  | ApprovalValidationError string
  | CollaborationValidationError string
  | RuntimeStepBudgetExceededError string
  | RuntimeOutputTokenBudgetExceededError string
  | NotFoundError string
  | AuthorizationError string
  | IndexError string
  | AssertionError string

type_synonym 'a result = "aura_error + 'a"

text \<open>Sequencing of operations that may raise: the first exception ends the computation.\<close>

definition rbind :: "'e + 'a \<Rightarrow> ('a \<Rightarrow> 'e + 'b) \<Rightarrow> 'e + 'b" where
  "rbind m f = (case m of Inl e \<Rightarrow> Inl e | Inr x \<Rightarrow> f x)"

lemma rbind_simps [simp]:
  "rbind (Inl e) f = Inl e"
  "rbind (Inr x) f = f x"
  by (simp_all add: rbind_def)

lemma rbind_eq_Inr [simp]: "rbind m f = Inr y \<longleftrightarrow> (\<exists>x. m = Inr x \<and> f x = Inr y)"
  by (cases m) auto

lemma rbind_assoc: "rbind (rbind m f) g = rbind m (\<lambda>x. rbind (f x) g)"
  by (cases m) auto

lemma rbind_cong [fundef_cong]:
  "m = m' \<Longrightarrow> (\<And>x. m' = Inr x \<Longrightarrow> f x = f' x) \<Longrightarrow> rbind m f = rbind m' f'"
  by (cases m') auto

text \<open>A guard of the source: \<open>if cond: raise err\<close>.\<close>

definition raise_if :: "bool \<Rightarrow> 'e \<Rightarrow> ('e + 'a) \<Rightarrow> 'e + 'a" where
  "raise_if c e k = (if c then Inl e else k)"

lemma raise_if_Inr [simp]: "raise_if c e k = Inr y \<longleftrightarrow> \<not> c \<and> k = Inr y"
  by (simp add: raise_if_def)

lemma raise_if_simps [simp]: "raise_if True e k = Inl e" "raise_if False e k = k"
  by (simp_all add: raise_if_def)

text \<open>A comprehension whose element expression may raise.\<close>

primrec rmap :: "('a \<Rightarrow> 'e + 'b) \<Rightarrow> 'a list \<Rightarrow> 'e + 'b list" where
  "rmap f [] = Inr []"
| "rmap f (x # xs) = rbind (f x) (\<lambda>y. rbind (rmap f xs) (\<lambda>ys. Inr (y # ys)))"

lemma rmap_Inr_map: "(\<And>x. x \<in> set xs \<Longrightarrow> f x = Inr (g x)) \<Longrightarrow> rmap f xs = Inr (map g xs)"
  by (induction xs) auto

lemma rmap_length: "rmap f xs = Inr ys \<Longrightarrow> length ys = length xs"
  by (induction xs arbitrary: ys) auto

lemma rmap_cong [fundef_cong]:
  "xs = ys \<Longrightarrow> (\<And>x. x \<in> set ys \<Longrightarrow> f x = g x) \<Longrightarrow> rmap f xs = rmap g ys"
  by (induction ys arbitrary: xs) auto

text \<open>A loop whose body may raise, threading its state.\<close>

primrec rfold :: "('a \<Rightarrow> 's \<Rightarrow> 'e + 's) \<Rightarrow> 'a list \<Rightarrow> 's \<Rightarrow> 'e + 's" where
  "rfold f [] s = Inr s"
| "rfold f (x # xs) s = rbind (f x s) (rfold f xs)"

lemma rfold_append: "rfold f (xs @ ys) s = rbind (rfold f xs s) (rfold f ys)"
  by (induction xs arbitrary: s) (auto simp: rbind_assoc intro!: rbind_cong)

lemma rfold_invariant:
  assumes "rfold f xs s = Inr t" and "P s"
    and "\<And>x s s'. x \<in> set xs \<Longrightarrow> P s \<Longrightarrow> f x s = Inr s' \<Longrightarrow> P s'"
  shows "P t"
  using assms by (induction xs arbitrary: s) auto

text \<open>A property of the value a fallible computation returns, when it returns one.\<close>

definition rall :: "('a \<Rightarrow> bool) \<Rightarrow> ('e + 'a) \<Rightarrow> bool" where
  "rall P r = (case r of Inl _ \<Rightarrow> True | Inr x \<Rightarrow> P x)"

lemma rall_simps [simp]:
  "rall P (Inl e)" "rall P (Inr x) = P x"
  "rall P (rbind m f) = (\<forall>x. m = Inr x \<longrightarrow> rall P (f x))"
  "rall P (raise_if c e k) = (\<not> c \<longrightarrow> rall P k)"
  by (auto simp: rall_def raise_if_def split: sum.splits)

lemma rallD: "rall P r \<Longrightarrow> r = Inr x \<Longrightarrow> P x"
  by (simp add: rall_def)

lemma rall_if: "rall P x \<Longrightarrow> rall P y \<Longrightarrow> rall P (if c then x else y)"
  by simp

section \<open>Ordered dictionaries\<close>

abbreviation dkeys :: "('k, 'v) dict \<Rightarrow> 'k list" where
  "dkeys d \<equiv> map fst d"

abbreviation dvalues :: "('k, 'v) dict \<Rightarrow> 'v list" where
  "dvalues d \<equiv> map snd d"

definition dget :: "('k, 'v) dict \<Rightarrow> 'k \<Rightarrow> 'v \<Rightarrow> 'v" where
  \<comment> \<open>\<open>d.get(k, default)\<close>\<close>
  "dget d k dflt = (case map_of d k of None \<Rightarrow> dflt | Some v \<Rightarrow> v)"

definition dmerge :: "('k, 'v) dict \<Rightarrow> ('k, 'v) dict \<Rightarrow> ('k, 'v) dict" where
  \<comment> \<open>\<open>{**a, **b}\<close>, also \<open>a.update(b)\<close>\<close>
  "dmerge a b = fold (\<lambda>(k, v). AList.update k v) b a"

definition setdefault :: "'k \<Rightarrow> 'v \<Rightarrow> ('k, 'v) dict \<Rightarrow> ('k, 'v) dict" where
  "setdefault k v d = (case map_of d k of None \<Rightarrow> AList.update k v d | Some _ \<Rightarrow> d)"

definition fromkeys :: "'a list \<Rightarrow> 'a list" where
  \<comment> \<open>\<open>list(dict.fromkeys(xs))\<close>: first occurrences, in order\<close>
  "fromkeys xs = fold (\<lambda>x acc. if x \<in> set acc then acc else acc @ [x]) xs []"

lemma map_of_update [dict_simps]: "map_of (AList.update k v d) = (map_of d)(k \<mapsto> v)"
  by (rule update_conv')

lemma map_of_delete [dict_simps]: "map_of (AList.delete k d) = (map_of d)(k := None)"
  by (rule delete_conv')

lemma distinct_dkeys_update [dict_simps]:
  "distinct (dkeys d) \<Longrightarrow> distinct (dkeys (AList.update k v d))"
  by (rule distinct_update)

lemma distinct_dkeys_delete [dict_simps]:
  "distinct (dkeys d) \<Longrightarrow> distinct (dkeys (AList.delete k d))"
  by (rule distinct_delete)

lemma dkeys_update: "dkeys (AList.update k v d) = (if k \<in> set (dkeys d) then dkeys d else dkeys d @ [k])"
  by (rule update_keys)

lemma map_of_None_dkeys: "map_of d k = None \<longleftrightarrow> k \<notin> set (dkeys d)"
  by (simp add: map_of_eq_None_iff)

lemma update_absent: "k \<notin> set (dkeys d) \<Longrightarrow> AList.update k v d = d @ [(k, v)]"
  by (induction d) auto

lemma set_update_subset: "set (AList.update k v d) \<subseteq> insert (k, v) (set d)"
  by (induction d) auto

lemma set_delete_subset: "set (AList.delete k d) \<subseteq> set d"
  by (auto simp: AList.delete_eq)

lemma map_of_dmerge: "map_of (dmerge a b) = map_of a ++ map_of (rev b)"
proof (induction b arbitrary: a)
  case Nil
  show ?case by (simp add: dmerge_def)
next
  case (Cons kv b)
  have "dmerge a (kv # b) = dmerge (AList.update (fst kv) (snd kv) a) b"
    by (simp add: dmerge_def case_prod_unfold)
  with Cons show ?case
    by (simp add: dict_simps map_add_upd_left[symmetric] fun_eq_iff map_add_def split: option.splits)
qed

lemma distinct_dkeys_dmerge [dict_simps]:
  "distinct (dkeys a) \<Longrightarrow> distinct (dkeys (dmerge a b))"
  unfolding dmerge_def
  by (induction b arbitrary: a) (auto simp: case_prod_unfold dict_simps)

lemma map_of_setdefault [dict_simps]:
  "map_of (setdefault k v d) = (map_of d)(k \<mapsto> dget d k v)"
  by (auto simp: setdefault_def dget_def dict_simps fun_eq_iff split: option.splits)

lemma distinct_dkeys_setdefault [dict_simps]:
  "distinct (dkeys d) \<Longrightarrow> distinct (dkeys (setdefault k v d))"
  by (auto simp: setdefault_def dict_simps split: option.splits)

lemma fromkeys_fold:
  "distinct acc \<Longrightarrow>
   distinct (fold (\<lambda>x acc. if x \<in> set acc then acc else acc @ [x]) xs acc) \<and>
   set (fold (\<lambda>x acc. if x \<in> set acc then acc else acc @ [x]) xs acc) = set acc \<union> set xs"
  by (induction xs arbitrary: acc) (auto simp: insert_absorb)

lemma distinct_fromkeys [simp]: "distinct (fromkeys xs)"
  unfolding fromkeys_def using fromkeys_fold [of "[]" xs] by simp

lemma set_fromkeys [simp]: "set (fromkeys xs) = set xs"
  unfolding fromkeys_def using fromkeys_fold [of "[]" xs] by simp

lemma fromkeys_distinct: "distinct xs \<Longrightarrow> fromkeys xs = xs"
proof -
  have "distinct (acc @ xs) \<Longrightarrow>
    fold (\<lambda>x acc. if x \<in> set acc then acc else acc @ [x]) xs acc = acc @ xs" for acc
    by (induction xs arbitrary: acc) auto
  from this [of "[]"] show "distinct xs \<Longrightarrow> fromkeys xs = xs"
    by (simp add: fromkeys_def)
qed

section \<open>State machines\<close>

text \<open>
  Every store of the program is a record and a set of atomic operations, each run under the
  store's lock: a transition system. The locale gives what every such system shares: the states
  its operations reach, and that a property kept by every operation holds in all of them.
\<close>

locale store_machine =
  fixes init :: 's
    and step :: "'op \<Rightarrow> 's \<Rightarrow> 's"
    and inv :: "'s \<Rightarrow> bool"
  assumes inv_init: "inv init"
    and inv_step: "inv s \<Longrightarrow> inv (step op s)"
begin

definition run :: "'op list \<Rightarrow> 's \<Rightarrow> 's" where
  "run ops s = fold step ops s"

lemma run_Nil [simp]: "run [] s = s"
  by (simp add: run_def)

lemma run_Cons [simp]: "run (op # ops) s = run ops (step op s)"
  by (simp add: run_def)

lemma run_append: "run (ops @ ops') s = run ops' (run ops s)"
  by (simp add: run_def)

lemma inv_run: "inv s \<Longrightarrow> inv (run ops s)"
  by (induction ops arbitrary: s) (auto intro: inv_step)

lemma inv_reachable: "inv (run ops init)"
  by (rule inv_run [OF inv_init])

text \<open>A relation between a state and its successors that each step establishes holds across runs.\<close>

lemma run_relation:
  assumes refl: "\<And>s. R s s"
    and trans: "\<And>s t u. R s t \<Longrightarrow> R t u \<Longrightarrow> R s u"
    and one: "\<And>s op. inv s \<Longrightarrow> R s (step op s)"
  shows "inv s \<Longrightarrow> R s (run ops s)"
proof (induction ops arbitrary: s)
  case Nil
  show ?case by (simp add: refl)
next
  case (Cons op ops)
  have "R s (step op s)" using one Cons.prems .
  moreover have "R (step op s) (run ops (step op s))"
    using Cons.IH inv_step Cons.prems by blast
  ultimately show ?case using trans by simp
qed

end

end
