(* ===== verification/Py_Value.thy ===== *)
theory Py_Value
  imports Complex_Main Aura_Prelude "HOL-Library.Log_Nat"
begin

text \<open>
  The part of Python's data model the event payloads rest on. A payload is a
  \<open>dict[str, Any]\<close> that travels as JSON, so its values are \<open>None\<close>, booleans, integers,
  floats, strings, lists and string-keyed dictionaries; a tuple put into a payload is a list
  here. Floats are IEEE-754 binary64 values: an exact rational, an infinity or NaN (the sign of
  zero is not kept). The built-ins \<open>==\<close>, \<open>bool\<close>, \<open>str\<close>, \<open>int\<close>, \<open>float\<close>,
  \<open>list\<close>, \<open>dict\<close> and \<open>str.strip\<close> are defined on them with their errors. Strings
  are over 8-bit characters.
\<close>

section \<open>Floats\<close>

datatype pyfloat = Fin rat | PosInf | NegInf | NaN

definition pow2 :: "int \<Rightarrow> rat" where
  "pow2 e = (if 0 \<le> e then 2 ^ nat e else 1 / 2 ^ nat (- e))"

definition round_half_even :: "rat \<Rightarrow> int" where
  "round_half_even q =
     (let f = \<lfloor>q\<rfloor>; d = q - of_int f
      in if d < 1 / 2 then f else if 1 / 2 < d then f + 1 else if even f then f else f + 1)"

definition ilog :: "nat \<Rightarrow> rat \<Rightarrow> int" where
  \<comment> \<open>the floor of the base-\<open>b\<close> logarithm of a positive rational\<close>
  "ilog b q =
     (case quotient_of q of (n, d) \<Rightarrow>
        (let e = int (floorlog b (nat n)) - int (floorlog b (nat d));
             p = (if 0 \<le> e then of_nat b ^ nat e else 1 / of_nat b ^ nat (- e))
         in if p \<le> q then e else e - 1))"

definition round64 :: "rat \<Rightarrow> pyfloat" where
  \<comment> \<open>round to nearest, ties to even, with gradual underflow and overflow to infinity\<close>
  "round64 q =
     (if q = 0 then Fin 0
      else let u = max (ilog 2 \<bar>q\<bar> - 52) (- 1074);
               v = of_int (round_half_even (\<bar>q\<bar> / pow2 u)) * pow2 u
           in if pow2 1024 \<le> v then (if 0 < q then PosInf else NegInf)
              else Fin (if 0 < q then v else - v))"

fun f_add :: "pyfloat \<Rightarrow> pyfloat \<Rightarrow> pyfloat" where
  "f_add (Fin a) (Fin b) = round64 (a + b)"
| "f_add NaN _ = NaN"
| "f_add _ NaN = NaN"
| "f_add PosInf NegInf = NaN"
| "f_add NegInf PosInf = NaN"
| "f_add PosInf _ = PosInf"
| "f_add _ PosInf = PosInf"
| "f_add NegInf _ = NegInf"
| "f_add _ NegInf = NegInf"

fun f_le :: "pyfloat \<Rightarrow> pyfloat \<Rightarrow> bool" where
  "f_le NaN _ = False"
| "f_le _ NaN = False"
| "f_le NegInf _ = True"
| "f_le _ PosInf = True"
| "f_le (Fin a) (Fin b) = (a \<le> b)"
| "f_le _ _ = False"

definition f_eq :: "pyfloat \<Rightarrow> pyfloat \<Rightarrow> bool" where
  "f_eq a b \<longleftrightarrow> f_le a b \<and> f_le b a"

definition f_lt :: "pyfloat \<Rightarrow> pyfloat \<Rightarrow> bool" where
  "f_lt a b \<longleftrightarrow> f_le a b \<and> \<not> f_le b a"

definition f_isfinite :: "pyfloat \<Rightarrow> bool" where
  \<comment> \<open>\<open>math.isfinite\<close>\<close>
  "f_isfinite f = (case f of Fin _ \<Rightarrow> True | _ \<Rightarrow> False)"

fun f_neg :: "pyfloat \<Rightarrow> pyfloat" where
  "f_neg (Fin a) = Fin (- a)"
| "f_neg PosInf = NegInf"
| "f_neg NegInf = PosInf"
| "f_neg NaN = NaN"

fun f_mul :: "pyfloat \<Rightarrow> pyfloat \<Rightarrow> pyfloat" where
  "f_mul (Fin a) (Fin b) = round64 (a * b)"
| "f_mul NaN _ = NaN"
| "f_mul _ NaN = NaN"
| "f_mul (Fin a) PosInf = (if a = 0 then NaN else if 0 < a then PosInf else NegInf)"
| "f_mul (Fin a) NegInf = (if a = 0 then NaN else if 0 < a then NegInf else PosInf)"
| "f_mul PosInf (Fin a) = (if a = 0 then NaN else if 0 < a then PosInf else NegInf)"
| "f_mul NegInf (Fin a) = (if a = 0 then NaN else if 0 < a then NegInf else PosInf)"
| "f_mul PosInf PosInf = PosInf"
| "f_mul NegInf NegInf = PosInf"
| "f_mul PosInf NegInf = NegInf"
| "f_mul NegInf PosInf = NegInf"

definition f_sub :: "pyfloat \<Rightarrow> pyfloat \<Rightarrow> pyfloat" where
  "f_sub a b = f_add a (f_neg b)"

definition f_abs :: "pyfloat \<Rightarrow> pyfloat" where
  "f_abs a = (case a of Fin q \<Rightarrow> Fin \<bar>q\<bar> | NegInf \<Rightarrow> PosInf | _ \<Rightarrow> a)"

text \<open>
  \<open>sum\<close> over floats, as CPython 3.13 (the version of the project's image) computes it: a
  running total with Neumaier's compensation, which is added at the end.
\<close>

definition f_sum_step :: "pyfloat \<times> pyfloat \<Rightarrow> pyfloat \<Rightarrow> pyfloat \<times> pyfloat" where
  "f_sum_step rc x =
     (case rc of (r, c) \<Rightarrow>
        (let t = f_add r x
         in (t, f_add c (if f_le (f_abs x) (f_abs r) then f_add (f_sub r t) x
                         else f_add (f_sub x t) r))))"

definition f_sum :: "pyfloat list \<Rightarrow> pyfloat" where
  "f_sum xs =
     (case xs of [] \<Rightarrow> Fin 0
      | y # ys \<Rightarrow> (case foldl f_sum_step (y, Fin 0) ys of
           (r, c) \<Rightarrow> if c \<noteq> Fin 0 \<and> f_isfinite c then f_add r c else r))"

section \<open>Values\<close>

datatype pyval =
    PNone
  | PBool bool
  | PInt int
  | PFloat pyfloat
  | PStr string
  | PList "pyval list"
  | PDict "(string \<times> pyval) list"

type_synonym payload = "(string, pyval) dict"

definition pget :: "payload \<Rightarrow> string \<Rightarrow> pyval" where
  \<comment> \<open>\<open>payload.get(k)\<close>\<close>
  "pget d k = dget d k PNone"

definition pitem :: "payload \<Rightarrow> string \<Rightarrow> pyval result" where
  \<comment> \<open>\<open>payload[k]\<close>\<close>
  "pitem d k = (case map_of d k of None \<Rightarrow> Inl (KeyError k) | Some v \<Rightarrow> Inr v)"

definition phas :: "payload \<Rightarrow> string \<Rightarrow> bool" where
  \<comment> \<open>\<open>k in payload\<close>\<close>
  "phas d k \<longleftrightarrow> map_of d k \<noteq> None"

definition py_get :: "pyval \<Rightarrow> string \<Rightarrow> pyval \<Rightarrow> pyval result" where
  \<comment> \<open>\<open>v.get(k, default)\<close> on a value that should be a dictionary\<close>
  "py_get v k dflt =
     (case v of PDict d \<Rightarrow> Inr (dget d k dflt) | _ \<Rightarrow> Inl (AttributeError ''get''))"

definition is_dict :: "pyval \<Rightarrow> bool" where
  "is_dict v = (case v of PDict _ \<Rightarrow> True | _ \<Rightarrow> False)"

definition is_str :: "pyval \<Rightarrow> bool" where
  "is_str v = (case v of PStr _ \<Rightarrow> True | _ \<Rightarrow> False)"

definition py_bool :: "pyval \<Rightarrow> bool" where
  \<comment> \<open>truth value\<close>
  "py_bool v =
     (case v of
        PNone \<Rightarrow> False | PBool b \<Rightarrow> b | PInt i \<Rightarrow> i \<noteq> 0 | PFloat f \<Rightarrow> f \<noteq> Fin 0
      | PStr s \<Rightarrow> s \<noteq> [] | PList xs \<Rightarrow> xs \<noteq> [] | PDict d \<Rightarrow> d \<noteq> [])"

definition py_num :: "pyval \<Rightarrow> pyfloat option" where
  \<comment> \<open>the number a value stands for in a comparison; \<open>True\<close> is 1\<close>
  "py_num v =
     (case v of
        PBool b \<Rightarrow> Some (Fin (if b then 1 else 0)) | PInt i \<Rightarrow> Some (Fin (of_int i))
      | PFloat f \<Rightarrow> Some f | _ \<Rightarrow> None)"

text \<open>
  \<open>a == b\<close>: numbers compare across types, dictionaries without regard to order. (A NaN inside
  a container is unequal to itself here; CPython short-cuts on object identity.)
\<close>

lemma size_zip_fst [termination_simp]:
  "(a, b) \<in> set (zip xs ys) \<Longrightarrow> size a < Suc (size_list size xs)"
  by (drule set_zip_leftD, induction xs) auto

fun py_eq :: "pyval \<Rightarrow> pyval \<Rightarrow> bool" where
  "py_eq PNone b = (b = PNone)"
| "py_eq (PStr s) b = (b = PStr s)"
| "py_eq (PList xs) b =
     (case b of PList ys \<Rightarrow> length xs = length ys \<and>
        list_all (\<lambda>(x, y). py_eq x y) (zip xs ys) | _ \<Rightarrow> False)"
| "py_eq (PDict d) b =
     (case b of PDict e \<Rightarrow> length d = length e \<and>
        list_all (\<lambda>(k, v). case map_of e k of None \<Rightarrow> False | Some w \<Rightarrow> py_eq v w) d | _ \<Rightarrow> False)"
| "py_eq a b =
     (case (py_num a, py_num b) of (Some x, Some y) \<Rightarrow> f_eq x y | _ \<Rightarrow> False)"

section \<open>Characters and decimal notation\<close>

definition is_space :: "char \<Rightarrow> bool" where
  "is_space c \<longleftrightarrow> of_char c \<in> ({9, 10, 11, 12, 13, 28, 29, 30, 31, 32, 133, 160} :: nat set)"

definition strip :: "string \<Rightarrow> string" where
  "strip s = rev (dropWhile is_space (rev (dropWhile is_space s)))"

definition digit_char :: "nat \<Rightarrow> char" where
  "digit_char n = char_of (48 + n)"

definition is_digit :: "char \<Rightarrow> bool" where
  "is_digit c \<longleftrightarrow> 48 \<le> (of_char c :: nat) \<and> (of_char c :: nat) \<le> 57"

definition digit_val :: "char \<Rightarrow> nat" where
  "digit_val c = of_char c - 48"

fun show_nat :: "nat \<Rightarrow> string" where
  "show_nat n = (if n < 10 then [digit_char n] else show_nat (n div 10) @ [digit_char (n mod 10)])"

declare show_nat.simps [simp del]

definition show_int :: "int \<Rightarrow> string" where
  "show_int i = (if i < 0 then ''-'' @ show_nat (nat (- i)) else show_nat (nat i))"

definition read_nat :: "string \<Rightarrow> nat" where
  "read_nat s = foldl (\<lambda>n c. 10 * n + digit_val c) 0 s"

lemma digit_val_digit_char [simp]: "n < 10 \<Longrightarrow> digit_val (digit_char n) = n"
  by (simp add: digit_val_def digit_char_def)

lemma is_digit_digit_char [simp]: "n < 10 \<Longrightarrow> is_digit (digit_char n)"
  by (simp add: is_digit_def digit_char_def)

lemma read_show_nat [simp]: "read_nat (show_nat n) = n"
proof (induction n rule: show_nat.induct)
  case (1 n)
  show ?case
  proof (cases "n < 10")
    case True
    then show ?thesis by (simp add: read_nat_def show_nat.simps [of n])
  next
    case False
    with 1 have "read_nat (show_nat (n div 10)) = n div 10" by simp
    with False show ?thesis
      by (simp add: read_nat_def show_nat.simps [of n])
  qed
qed

lemma show_nat_digits: "\<forall>c \<in> set (show_nat n). is_digit c"
proof (induction n rule: show_nat.induct)
  case (1 n)
  then show ?case
    by (cases "n < 10") (auto simp: show_nat.simps [of n])
qed

lemma show_nat_inject [simp]: "show_nat m = show_nat n \<longleftrightarrow> m = n"
  by (metis read_show_nat)

lemma show_nat_neq_minus: "show_nat n \<noteq> CHR ''-'' # s"
  using show_nat_digits [of n] by (auto simp: is_digit_def)

lemma show_int_inject [simp]: "show_int i = show_int j \<longleftrightarrow> i = j"
  by (auto simp: show_int_def show_nat_neq_minus show_nat_neq_minus [THEN not_sym])

section \<open>Conversions\<close>

subsection \<open>\<open>repr\<close> and \<open>str\<close>\<close>

definition pow10 :: "int \<Rightarrow> rat" where
  "pow10 e = (if 0 \<le> e then 10 ^ nat e else 1 / 10 ^ nat (- e))"

text \<open>The shortest decimal with at most 17 significant digits that reads back as the float.\<close>

fun shortest_decimal :: "nat \<Rightarrow> rat \<Rightarrow> int \<Rightarrow> nat \<Rightarrow> int \<times> int" where
  "shortest_decimal fuel q p n =
     (let e = p - int n; m = q / pow10 e; lo = \<lfloor>m\<rfloor>;
          ok = filter (\<lambda>c. round64 (of_int c * pow10 e) = Fin q) [lo, lo + 1]
      in case ok of
           [] \<Rightarrow> (case fuel of 0 \<Rightarrow> (round_half_even m, e) | Suc k \<Rightarrow> shortest_decimal k q p (Suc n))
         | [c] \<Rightarrow> (c, e)
         | _ \<Rightarrow> (round_half_even m, e))"

definition float_repr_pos :: "rat \<Rightarrow> string" where
  "float_repr_pos q =
     (case shortest_decimal 16 q (ilog 10 q + 1) 1 of (c, e) \<Rightarrow>
        (let ds0 = show_nat (nat c);
             ds = rev (dropWhile (\<lambda>x. x = CHR ''0'') (rev ds0));
             pt = int (length ds0) + e;
             len = int (length ds)
         in if - 4 < pt \<and> pt \<le> 0 then ''0.'' @ replicate (nat (- pt)) (CHR ''0'') @ ds
            else if 0 < pt \<and> pt \<le> 16 then
              (if len \<le> pt then ds @ replicate (nat (pt - len)) (CHR ''0'') @ ''.0''
               else take (nat pt) ds @ ''.'' @ drop (nat pt) ds)
            else take 1 ds @ (if len = 1 then [] else ''.'' @ drop 1 ds) @ ''e'' @
              (if pt \<le> 0 then ''-'' else ''+'') @
              (let x = show_nat (nat \<bar>pt - 1\<bar>) in if length x = 1 then ''0'' @ x else x)))"

definition float_repr :: "pyfloat \<Rightarrow> string" where
  "float_repr f =
     (case f of
        NaN \<Rightarrow> ''nan'' | PosInf \<Rightarrow> ''inf'' | NegInf \<Rightarrow> ''-inf''
      | Fin q \<Rightarrow> if q = 0 then ''0.0'' else if q < 0 then ''-'' @ float_repr_pos (- q)
                 else float_repr_pos q)"

definition hex_digit :: "nat \<Rightarrow> char" where
  "hex_digit n = (if n < 10 then char_of (48 + n) else char_of (87 + n))"

definition repr_char :: "char \<Rightarrow> char \<Rightarrow> string" where
  "repr_char quote c =
     (let n = of_char c :: nat
      in if c = quote \<or> n = 92 then [char_of (92 :: nat), c]
         else if n = 10 then [char_of (92 :: nat), CHR ''n'']
         else if n = 13 then [char_of (92 :: nat), CHR ''r'']
         else if n = 9 then [char_of (92 :: nat), CHR ''t'']
         else if n < 32 \<or> (127 \<le> n \<and> n \<le> 160) \<or> n = 173
         then [char_of (92 :: nat), CHR ''x'', hex_digit (n div 16), hex_digit (n mod 16)]
         else [c])"

definition str_repr :: "string \<Rightarrow> string" where
  "str_repr s =
     (let q = (if char_of (39 :: nat) \<in> set s \<and> CHR 0x22 \<notin> set s then CHR 0x22
               else char_of (39 :: nat))
      in [q] @ concat (map (repr_char q) s) @ [q])"

definition comma_join :: "string list \<Rightarrow> string" where
  "comma_join xs = concat (case xs of [] \<Rightarrow> [] | y # ys \<Rightarrow> y # map (\<lambda>z. '', '' @ z) ys)"

fun py_repr :: "pyval \<Rightarrow> string" where
  "py_repr PNone = ''None''"
| "py_repr (PBool b) = (if b then ''True'' else ''False'')"
| "py_repr (PInt i) = show_int i"
| "py_repr (PFloat f) = float_repr f"
| "py_repr (PStr s) = str_repr s"
| "py_repr (PList xs) = ''['' @ comma_join (map py_repr xs) @ '']''"
| "py_repr (PDict d) = ''{'' @ comma_join (map (\<lambda>(k, v). str_repr k @ '': '' @ py_repr v) d) @ ''}''"

definition py_str :: "pyval \<Rightarrow> string" where
  "py_str v = (case v of PStr s \<Rightarrow> s | _ \<Rightarrow> py_repr v)"

lemma py_str_PStr [simp]: "py_str (PStr s) = s"
  by (simp add: py_str_def)

subsection \<open>\<open>int\<close> and \<open>float\<close>\<close>

fun digits_us :: "bool \<Rightarrow> string \<Rightarrow> string option" where
  \<comment> \<open>digits with single underscores between them; the flag says an underscore may follow\<close>
  "digits_us ok [] = (if ok then Some [] else None)"
| "digits_us ok (c # cs) =
     (if is_digit c then map_option ((#) c) (digits_us True cs)
      else if c = CHR ''_'' \<and> ok then (case cs of [] \<Rightarrow> None | _ \<Rightarrow> digits_us False cs)
      else None)"

definition split_sign :: "string \<Rightarrow> bool \<times> string" where
  "split_sign s =
     (case s of [] \<Rightarrow> (False, [])
      | c # cs \<Rightarrow> if c = CHR ''-'' then (True, cs) else if c = CHR ''+'' then (False, cs)
                 else (False, s))"

definition parse_int :: "string \<Rightarrow> int option" where
  "parse_int s =
     (case split_sign (strip s) of (neg, ds) \<Rightarrow>
        (case digits_us False ds of None \<Rightarrow> None
         | Some t \<Rightarrow> Some (if neg then - int (read_nat t) else int (read_nat t))))"

definition trunc_rat :: "rat \<Rightarrow> int" where
  "trunc_rat q = (if 0 \<le> q then \<lfloor>q\<rfloor> else - \<lfloor>- q\<rfloor>)"

definition py_int :: "pyval \<Rightarrow> int result" where
  "py_int v =
     (case v of
        PInt i \<Rightarrow> Inr i
      | PBool b \<Rightarrow> Inr (if b then 1 else 0)
      | PFloat (Fin q) \<Rightarrow> Inr (trunc_rat q)
      | PFloat NaN \<Rightarrow> Inl (ValueError ''cannot convert float NaN to integer'')
      | PFloat _ \<Rightarrow> Inl (OverflowError ''cannot convert float infinity to integer'')
      | PStr s \<Rightarrow> (case parse_int s of Some i \<Rightarrow> Inr i
                   | None \<Rightarrow> Inl (ValueError ''invalid literal for int() with base 10''))
      | _ \<Rightarrow> Inl (TypeError ''int() argument must be a string or a real number''))"

definition lower :: "string \<Rightarrow> string" where
  "lower s = map (\<lambda>c. let n = of_char c :: nat in if 65 \<le> n \<and> n \<le> 90 then char_of (n + 32) else c) s"

definition digits_opt :: "string \<Rightarrow> string option" where
  \<comment> \<open>a possibly empty run of digits\<close>
  "digits_opt s = (if s = [] then Some [] else digits_us False s)"

definition parse_float_abs :: "string \<Rightarrow> pyfloat option" where
  "parse_float_abs s =
     (let t = lower s in
      if t = ''inf'' \<or> t = ''infinity'' then Some PosInf
      else if t = ''nan'' then Some NaN
      else let mant = takeWhile (\<lambda>c. c \<noteq> CHR ''e'') t;
               expo = dropWhile (\<lambda>c. c \<noteq> CHR ''e'') t;
               ip = takeWhile (\<lambda>c. c \<noteq> CHR ''.'') mant;
               fp = drop 1 (dropWhile (\<lambda>c. c \<noteq> CHR ''.'') mant);
               ex = (case expo of [] \<Rightarrow> Some 0
                     | _ # es \<Rightarrow> (case split_sign es of (neg, ds) \<Rightarrow>
                          map_option (\<lambda>d. if neg then - int (read_nat d) else int (read_nat d))
                            (digits_us False ds)))
           in case (digits_opt ip, digits_opt fp, ex) of
                (Some a, Some b, Some e) \<Rightarrow>
                  if a = [] \<and> b = [] then None
                  else Some (round64 (of_nat (read_nat (a @ b)) * pow10 (e - int (length b))))
              | _ \<Rightarrow> None)"

definition parse_float :: "string \<Rightarrow> pyfloat option" where
  "parse_float s =
     (case split_sign (strip s) of (neg, t) \<Rightarrow>
        map_option (\<lambda>f. if neg then f_neg f else f) (parse_float_abs t))"

definition py_float :: "pyval \<Rightarrow> pyfloat result" where
  "py_float v =
     (case v of
        PFloat f \<Rightarrow> Inr f
      | PBool b \<Rightarrow> Inr (Fin (if b then 1 else 0))
      | PInt i \<Rightarrow> (let f = round64 (of_int i) in
                   if f_isfinite f then Inr f
                   else Inl (OverflowError ''int too large to convert to float''))
      | PStr s \<Rightarrow> (case parse_float s of Some f \<Rightarrow> Inr f
                   | None \<Rightarrow> Inl (ValueError ''could not convert string to float''))
      | _ \<Rightarrow> Inl (TypeError ''float() argument must be a string or a real number''))"

subsection \<open>\<open>list\<close> and \<open>dict\<close>\<close>

definition py_list :: "pyval \<Rightarrow> pyval list result" where
  \<comment> \<open>\<open>list(v)\<close>, \<open>tuple(v)\<close>, iteration\<close>
  "py_list v =
     (case v of
        PList xs \<Rightarrow> Inr xs
      | PStr s \<Rightarrow> Inr (map (\<lambda>c. PStr [c]) s)
      | PDict d \<Rightarrow> Inr (map PStr (dkeys d))
      | _ \<Rightarrow> Inl (TypeError ''object is not iterable''))"

definition py_pair :: "pyval \<Rightarrow> (string \<times> pyval) result" where
  \<comment> \<open>one element of a sequence handed to \<open>dict\<close>\<close>
  "py_pair v = rbind (py_list v) (\<lambda>xs.
     case xs of [PStr k, x] \<Rightarrow> Inr (k, x)
     | _ \<Rightarrow> Inl (ValueError ''dictionary update sequence element is not a string-keyed pair''))"

definition py_dict :: "pyval \<Rightarrow> payload result" where
  \<comment> \<open>\<open>dict(v)\<close>\<close>
  "py_dict v =
     (case v of
        PDict d \<Rightarrow> Inr d
      | _ \<Rightarrow> rbind (py_list v) (\<lambda>xs. rbind (rmap py_pair xs) (\<lambda>ps. Inr (dmerge [] ps))))"

lemma py_list_PList [simp]: "py_list (PList xs) = Inr xs"
  by (simp add: py_list_def)

lemma py_dict_PDict [simp]: "py_dict (PDict d) = Inr d"
  by (simp add: py_dict_def)

lemma py_int_PInt [simp]: "py_int (PInt i) = Inr i"
  by (simp add: py_int_def)

lemma is_dict_simps [simp]:
  "is_dict (PDict d)" "\<not> is_dict PNone" "\<not> is_dict (PStr s)"
  by (simp_all add: is_dict_def)

lemma is_str_simps [simp]:
  "is_str (PStr s)" "\<not> is_str PNone"
  by (simp_all add: is_str_def)

lemma pget_update [dict_simps]:
  "pget (AList.update k v d) k' = (if k' = k then v else pget d k')"
  by (simp add: pget_def dget_def dict_simps)

lemma pget_Cons [dict_simps]:
  "pget ((k, v) # d) k' = (if k' = k then v else pget d k')"
  by (simp add: pget_def dget_def)

lemma pget_Nil [dict_simps]: "pget [] k = PNone"
  by (simp add: pget_def dget_def)

lemma pitem_Cons [dict_simps]:
  "pitem ((k, v) # d) k' = (if k' = k then Inr v else pitem d k')"
  by (simp add: pitem_def)

lemma phas_Cons [dict_simps]: "phas ((k, v) # d) k' \<longleftrightarrow> k' = k \<or> phas d k'"
  by (simp add: phas_def)

lemma phas_Nil [dict_simps]: "\<not> phas [] k"
  by (simp add: phas_def)

end
