(* ===== verification/Contracts.thy ===== *)
theory Contracts
  imports Py_Value
begin

text \<open>
  The shared contracts: lifecycle enumerations (\<open>contracts/state.py\<close>), events
  (\<open>contracts/events.py\<close>), command contexts (\<open>contracts/commands.py\<close>) and the approval
  mode of a Session (\<open>contracts/approval_mode.py\<close>). A \<open>StrEnum\<close> is a datatype with its
  \<open>value\<close> and the constructor that reads a value back.
\<close>

section \<open>Lifecycle states\<close>

datatype session_status =
    S_CREATED | S_READY | S_PENDING | S_RUNNABLE | S_RUNNING | S_WAITING_FOR_HUMAN | S_PAUSED
  | S_RETRY_WAIT | S_COMPLETED | S_FAILED | S_CANCELLED | S_CLOSED

datatype run_status =
    R_PENDING | R_RUNNABLE | R_RUNNING | R_WAITING_FOR_HUMAN | R_PAUSED | R_RETRY_WAIT
  | R_COMPLETED | R_FAILED | R_CANCELLED

datatype visibility = V_USER | V_INTERNAL | V_SECRET

fun session_status_value :: "session_status \<Rightarrow> string" where
  "session_status_value S_CREATED = ''created''"
| "session_status_value S_READY = ''ready''"
| "session_status_value S_PENDING = ''pending''"
| "session_status_value S_RUNNABLE = ''runnable''"
| "session_status_value S_RUNNING = ''running''"
| "session_status_value S_WAITING_FOR_HUMAN = ''waiting_for_human''"
| "session_status_value S_PAUSED = ''paused''"
| "session_status_value S_RETRY_WAIT = ''retry_wait''"
| "session_status_value S_COMPLETED = ''completed''"
| "session_status_value S_FAILED = ''failed''"
| "session_status_value S_CANCELLED = ''cancelled''"
| "session_status_value S_CLOSED = ''closed''"

fun run_status_value :: "run_status \<Rightarrow> string" where
  "run_status_value R_PENDING = ''pending''"
| "run_status_value R_RUNNABLE = ''runnable''"
| "run_status_value R_RUNNING = ''running''"
| "run_status_value R_WAITING_FOR_HUMAN = ''waiting_for_human''"
| "run_status_value R_PAUSED = ''paused''"
| "run_status_value R_RETRY_WAIT = ''retry_wait''"
| "run_status_value R_COMPLETED = ''completed''"
| "run_status_value R_FAILED = ''failed''"
| "run_status_value R_CANCELLED = ''cancelled''"

definition all_session_status :: "session_status list" where
  "all_session_status =
     [S_CREATED, S_READY, S_PENDING, S_RUNNABLE, S_RUNNING, S_WAITING_FOR_HUMAN, S_PAUSED,
      S_RETRY_WAIT, S_COMPLETED, S_FAILED, S_CANCELLED, S_CLOSED]"

definition all_run_status :: "run_status list" where
  "all_run_status =
     [R_PENDING, R_RUNNABLE, R_RUNNING, R_WAITING_FOR_HUMAN, R_PAUSED, R_RETRY_WAIT,
      R_COMPLETED, R_FAILED, R_CANCELLED]"

definition enum_of :: "('a \<Rightarrow> string) \<Rightarrow> 'a list \<Rightarrow> string \<Rightarrow> 'a result" where
  \<comment> \<open>calling a \<open>StrEnum\<close> class on a string\<close>
  "enum_of val members s =
     (case find (\<lambda>m. val m = s) members of
        Some m \<Rightarrow> Inr m | None \<Rightarrow> Inl (ValueError (str_repr s @ '' is not a valid member'')))"

definition session_status_of :: "string \<Rightarrow> session_status result" where
  "session_status_of = enum_of session_status_value all_session_status"

definition run_status_of :: "string \<Rightarrow> run_status result" where
  "run_status_of = enum_of run_status_value all_run_status"

lemma session_status_of_value [simp]: "session_status_of (session_status_value s) = Inr s"
  by (cases s) (simp_all add: session_status_of_def enum_of_def all_session_status_def)

lemma run_status_of_value [simp]: "run_status_of (run_status_value s) = Inr s"
  by (cases s) (simp_all add: run_status_of_def enum_of_def all_run_status_def)

definition TERMINAL_SESSION_STATUSES :: "session_status list" where
  "TERMINAL_SESSION_STATUSES = [S_COMPLETED, S_FAILED, S_CANCELLED, S_CLOSED]"

definition TERMINAL_RUN_STATUSES :: "run_status list" where
  "TERMINAL_RUN_STATUSES = [R_COMPLETED, R_FAILED, R_CANCELLED]"

definition session_terminal :: "session_status option \<Rightarrow> bool" where
  "session_terminal s = (case s of None \<Rightarrow> False | Some x \<Rightarrow> x \<in> set TERMINAL_SESSION_STATUSES)"

definition run_terminal :: "run_status option \<Rightarrow> bool" where
  "run_terminal s = (case s of None \<Rightarrow> False | Some x \<Rightarrow> x \<in> set TERMINAL_RUN_STATUSES)"

section \<open>Events and commands\<close>

record actor =
  actor_type :: string
  actor_id :: string

record new_event =
  ne_type :: string
  ne_payload :: payload
  ne_visibility :: visibility

record canonical_event =
  ce_event_id :: string
  ce_tenant_id :: string
  ce_root_session_id :: string
  ce_session_id :: string
  ce_run_id :: "string option"
  ce_version :: int
  ce_type :: string
  ce_occurred_at :: time
  ce_actor :: actor
  ce_correlation_id :: string
  ce_causation_id :: string
  ce_visibility :: visibility
  ce_schema_version :: int
  ce_payload :: payload

record command_context =
  cc_command_id :: string
  cc_tenant_id :: string
  cc_actor :: actor
  cc_correlation_id :: string
  cc_expected_version :: int
  cc_operation :: string
  cc_causation_id :: "string option"
  cc_dept_id :: "string option"

section \<open>Approval mode\<close>

datatype approval_mode = REQUEST_APPROVAL | AUTO_REVIEW | FULL_ACCESS

datatype interaction_mode = STREAMING | NON_STREAMING

datatype approval_mode_source = Src_explicit | Src_default | Src_inherited | Src_legacy

record approval_configuration =
  effective_approval_mode :: "approval_mode option"
  interaction_mode :: "interaction_mode option"
  approval_mode_source :: approval_mode_source
  approval_mode_revision :: int

definition default_approval :: approval_configuration where
  \<comment> \<open>\<open>ApprovalConfiguration()\<close>\<close>
  "default_approval =
     \<lparr>effective_approval_mode = None, interaction_mode = None,
      approval_mode_source = Src_legacy, approval_mode_revision = 0\<rparr>"

definition approval_resolve ::
  "interaction_mode \<Rightarrow> approval_mode option \<Rightarrow> approval_configuration" where
  "approval_resolve interaction mode =
     (let non_interactive = (interaction = NON_STREAMING)
      in \<lparr>effective_approval_mode =
            Some (if non_interactive then FULL_ACCESS
                  else case mode of Some m \<Rightarrow> m | None \<Rightarrow> REQUEST_APPROVAL),
          interaction_mode = Some interaction,
          approval_mode_source =
            (if non_interactive then Src_default
             else if mode \<noteq> None then Src_explicit else Src_default),
          approval_mode_revision = 1\<rparr>)"

text \<open>
  \<open>ApprovalConfiguration\<close> is a pydantic model: \<open>model_validate\<close> and
  \<open>model_dump(mode="json")\<close> (\<open>public_dict\<close>) are pydantic's code, hence a parameter. What the
  aggregate relies on is that validating a dumped configuration gives it back, and that a
  validated revision is not negative (\<open>Field(ge=0)\<close>).
\<close>

record approval_codec =
  ac_validate :: "pyval \<Rightarrow> approval_configuration result"
  ac_dump :: "approval_configuration \<Rightarrow> pyval"

definition codec_ok :: "approval_codec \<Rightarrow> bool" where
  "codec_ok C \<longleftrightarrow>
     (\<forall>c. 0 \<le> approval_mode_revision c \<longrightarrow> ac_validate C (ac_dump C c) = Inr c) \<and>
     (\<forall>v c. ac_validate C v = Inr c \<longrightarrow> 0 \<le> approval_mode_revision c)"

lemma codec_okD:
  "codec_ok C \<Longrightarrow> 0 \<le> approval_mode_revision c \<Longrightarrow> ac_validate C (ac_dump C c) = Inr c"
  "codec_ok C \<Longrightarrow> ac_validate C v = Inr c \<Longrightarrow> 0 \<le> approval_mode_revision c"
  by (auto simp: codec_ok_def)

lemma approval_resolve_revision [simp]: "approval_mode_revision (approval_resolve i m) = 1"
  by (simp add: approval_resolve_def Let_def)

lemma default_approval_revision [simp]: "approval_mode_revision default_approval = 0"
  by (simp add: default_approval_def)

text \<open>
  A concrete codec, with the JSON form that the model's fields document: the hypothesis
  \<open>codec_ok\<close> holds of it.
\<close>

fun approval_mode_value :: "approval_mode \<Rightarrow> string" where
  "approval_mode_value REQUEST_APPROVAL = ''request_approval''"
| "approval_mode_value AUTO_REVIEW = ''auto_review''"
| "approval_mode_value FULL_ACCESS = ''full_access''"

fun interaction_mode_value :: "interaction_mode \<Rightarrow> string" where
  "interaction_mode_value STREAMING = ''streaming''"
| "interaction_mode_value NON_STREAMING = ''non_streaming''"

fun approval_mode_source_value :: "approval_mode_source \<Rightarrow> string" where
  "approval_mode_source_value Src_explicit = ''explicit''"
| "approval_mode_source_value Src_default = ''default''"
| "approval_mode_source_value Src_inherited = ''inherited''"
| "approval_mode_source_value Src_legacy = ''legacy''"

definition json_enum :: "('a \<Rightarrow> string) \<Rightarrow> 'a list \<Rightarrow> pyval \<Rightarrow> 'a result" where
  "json_enum val members v =
     (case v of PStr s \<Rightarrow> enum_of val members s | _ \<Rightarrow> Inl (ValueError ''string required''))"

definition json_optional :: "(pyval \<Rightarrow> 'a result) \<Rightarrow> pyval \<Rightarrow> 'a option result" where
  "json_optional f v = (if v = PNone then Inr None else rbind (f v) (\<lambda>x. Inr (Some x)))"

definition json_revision :: "pyval \<Rightarrow> int result" where
  "json_revision v =
     (case v of PInt i \<Rightarrow> raise_if (i < 0) (ValueError ''revision must be >= 0'') (Inr i)
              | _ \<Rightarrow> Inl (ValueError ''integer required''))"

definition json_validate :: "pyval \<Rightarrow> approval_configuration result" where
  "json_validate v =
     rbind (py_dict v) (\<lambda>d.
     rbind (json_optional (json_enum approval_mode_value [REQUEST_APPROVAL, AUTO_REVIEW, FULL_ACCESS])
        (pget d ''effective_approval_mode'')) (\<lambda>m.
     rbind (json_optional (json_enum interaction_mode_value [STREAMING, NON_STREAMING])
        (pget d ''interaction_mode'')) (\<lambda>i.
     rbind (json_enum approval_mode_source_value [Src_explicit, Src_default, Src_inherited, Src_legacy]
        (dget d ''approval_mode_source'' (PStr ''legacy''))) (\<lambda>src.
     rbind (json_revision (dget d ''approval_mode_revision'' (PInt 0))) (\<lambda>rev.
       Inr \<lparr>effective_approval_mode = m, interaction_mode = i, approval_mode_source = src,
            approval_mode_revision = rev\<rparr>)))))"

definition json_dump :: "approval_configuration \<Rightarrow> pyval" where
  "json_dump c = PDict
     [(''effective_approval_mode'', case effective_approval_mode c of None \<Rightarrow> PNone
         | Some m \<Rightarrow> PStr (approval_mode_value m)),
      (''interaction_mode'', case interaction_mode c of None \<Rightarrow> PNone
         | Some i \<Rightarrow> PStr (interaction_mode_value i)),
      (''approval_mode_source'', PStr (approval_mode_source_value (approval_mode_source c))),
      (''approval_mode_revision'', PInt (approval_mode_revision c))]"

definition json_codec :: approval_codec where
  "json_codec = \<lparr>ac_validate = json_validate, ac_dump = json_dump\<rparr>"

lemma json_codec_simps [simp]: "ac_validate json_codec = json_validate" "ac_dump json_codec = json_dump"
  by (simp_all add: json_codec_def)

lemma json_enum_mode [simp]:
  "json_enum approval_mode_value [REQUEST_APPROVAL, AUTO_REVIEW, FULL_ACCESS] (PStr (approval_mode_value m)) = Inr m"
  by (cases m) (simp_all add: json_enum_def enum_of_def)

lemma json_enum_interaction [simp]:
  "json_enum interaction_mode_value [STREAMING, NON_STREAMING] (PStr (interaction_mode_value i)) = Inr i"
  by (cases i) (simp_all add: json_enum_def enum_of_def)

lemma json_enum_source [simp]:
  "json_enum approval_mode_source_value [Src_explicit, Src_default, Src_inherited, Src_legacy]
     (PStr (approval_mode_source_value src)) = Inr src"
  by (cases src) (simp_all add: json_enum_def enum_of_def)

lemma json_revision_nonneg: "json_revision v = Inr i \<Longrightarrow> 0 \<le> i"
  by (cases v) (auto simp: json_revision_def)

lemma json_optional_case:
  "json_optional f (case x of None \<Rightarrow> PNone | Some y \<Rightarrow> PStr (g y)) =
   (case x of None \<Rightarrow> Inr None | Some y \<Rightarrow> rbind (f (PStr (g y))) (\<lambda>x. Inr (Some x)))"
  by (cases x) (simp_all add: json_optional_def)

lemma json_codec_ok: "codec_ok json_codec"
proof -
  have "json_validate (json_dump c) = Inr c" if "0 \<le> approval_mode_revision c" for c
    using that
    by (cases c) (simp add: json_validate_def json_dump_def pget_Cons dget_def json_optional_case
      json_revision_def split: option.split)
  moreover have "0 \<le> approval_mode_revision c" if "json_validate v = Inr c" for v c
    using that unfolding json_validate_def by (auto dest: json_revision_nonneg)
  ultimately show ?thesis by (simp add: codec_ok_def)
qed

text \<open>A stored event of tenant \<open>t1\<close> and root Session \<open>s1\<close>, for concrete histories.\<close>

definition sample_event :: "string \<Rightarrow> string option \<Rightarrow> int \<Rightarrow> string \<Rightarrow> payload \<Rightarrow> canonical_event" where
  "sample_event sid rid v ty p =
     \<lparr>ce_event_id = sid @ ''-'' @ show_int v, ce_tenant_id = ''t1'', ce_root_session_id = ''s1'',
      ce_session_id = sid, ce_run_id = rid, ce_version = v, ce_type = ty, ce_occurred_at = v,
      ce_actor = \<lparr>actor_type = ''user'', actor_id = ''u1''\<rparr>, ce_correlation_id = ''c1'', ce_causation_id = ''c1'',
      ce_visibility = V_USER, ce_schema_version = 1, ce_payload = p\<rparr>"

end
