(* ===== verification/Py_Time.thy ===== *)
theory Py_Time
  imports Py_Value
begin

text \<open>
  Timestamps. Every \<open>datetime\<close> of the modelled code is an aware UTC instant: a number of
  microseconds since \<open>datetime.min\<close> (0001-01-01T00:00:00+00:00). \<open>isoformat\<close> writes it the
  way Python does, by the proleptic Gregorian calendar algorithm of \<open>datetime._ord2ymd\<close>.
\<close>

definition days_before_month :: "nat \<Rightarrow> nat" where
  "days_before_month m = [0, 0, 31, 59, 90, 120, 151, 181, 212, 243, 273, 304, 334] ! m"

definition days_in_month :: "bool \<Rightarrow> nat \<Rightarrow> nat" where
  "days_in_month leap m =
     (if m = 2 \<and> leap then 29 else [0, 31, 28, 31, 30, 31, 30, 31, 31, 30, 31, 30, 31] ! m)"

definition ord2ymd :: "nat \<Rightarrow> nat \<times> nat \<times> nat" where
  "ord2ymd days =
     (let n400 = days div 146097; r400 = days mod 146097;
          n100 = r400 div 36524; r100 = r400 mod 36524;
          n4 = r100 div 1461; r4 = r100 mod 1461;
          n1 = r4 div 365; n = r4 mod 365;
          year = n400 * 400 + 1 + n100 * 100 + n4 * 4 + n1
      in if n1 = 4 \<or> n100 = 4 then (year - 1, 12, 31)
         else let leap = (n1 = 3 \<and> (n4 \<noteq> 24 \<or> n100 = 3));
                  m0 = (n + 50) div 32;
                  p0 = days_before_month m0 + (if 2 < m0 \<and> leap then 1 else 0);
                  m = (if n < p0 then m0 - 1 else m0);
                  p = (if n < p0 then p0 - days_in_month leap m else p0)
              in (year, m, n - p + 1))"

definition show_pad :: "nat \<Rightarrow> nat \<Rightarrow> string" where
  "show_pad w n = (let s = show_nat n in replicate (w - length s) (CHR ''0'') @ s)"

definition isoformat :: "time \<Rightarrow> string" where
  "isoformat t =
     (let us = nat (t mod 86400000000); days = nat (t div 86400000000);
          secs = us div 1000000; frac = us mod 1000000
      in case ord2ymd days of (y, m, d) \<Rightarrow>
           show_pad 4 y @ ''-'' @ show_pad 2 m @ ''-'' @ show_pad 2 d @ ''T'' @
           show_pad 2 (secs div 3600) @ '':'' @ show_pad 2 (secs div 60 mod 60) @ '':'' @
           show_pad 2 (secs mod 60) @
           (if frac = 0 then [] else ''.'' @ show_pad 6 frac) @ ''+00:00'')"

end
