(* ===== verification/Session_Aggregate.thy ===== *)
theory Session_Aggregate
  imports Contracts Py_Time
begin

text \<open>
  The Session aggregate of \<open>domain/session.py\<close>: the state rebuilt from Canonical Events
  (\<open>apply\<close>, \<open>from_events\<close>, \<open>replay\<close>), its snapshots, and the commands that raise new
  events. Fields the code copies from a payload without conversion keep the Python value. A
  command returns the aggregate with its new pending events, or the exception; the caller
  discards an aggregate whose command raised.
\<close>

section \<open>State\<close>

record session_aggregate =
  sa_session_id :: string
  sa_root_session_id :: string
  sa_tenant_id :: string
  sa_version :: int
  sa_status :: "session_status option"
  sa_run_status :: "run_status option"
  sa_goal :: string
  sa_run_id :: pyval
  sa_parent_session_id :: pyval
  sa_role :: string
  sa_result_summary :: pyval
  sa_result_ref :: pyval
  sa_artifact_refs :: "pyval list"
  sa_dependency_ids :: "pyval list"
  sa_output_contract :: payload
  sa_owner :: pyval
  sa_dept_id :: "string option"
  sa_skill_names :: "string list"
  sa_approval :: approval_configuration
  sa_pending :: "new_event list"

definition sa_empty :: "string \<Rightarrow> string \<Rightarrow> session_aggregate" where
  "sa_empty session_id tenant_id =
     \<lparr>sa_session_id = session_id, sa_root_session_id = session_id, sa_tenant_id = tenant_id,
      sa_version = 0, sa_status = None, sa_run_status = None, sa_goal = '''', sa_run_id = PNone,
      sa_parent_session_id = PNone, sa_role = ''root'', sa_result_summary = PNone,
      sa_result_ref = PNone, sa_artifact_refs = [], sa_dependency_ids = [],
      sa_output_contract = [], sa_owner = PNone, sa_dept_id = None, sa_skill_names = [],
      sa_approval = default_approval, sa_pending = []\<rparr>"

section \<open>Applying events\<close>

definition optional_str :: "pyval \<Rightarrow> string option" where
  \<comment> \<open>\<open>_optional_str\<close>\<close>
  "optional_str v =
     (if v = PNone then None
      else let text = strip (py_str v) in if text = [] then None else Some text)"

definition APPROVAL_CARRIERS :: "string list" where
  "APPROVAL_CARRIERS =
     [''session.created'', ''child.created'', ''run.requested'',
      ''session.approval_mode_changed'', ''session.resumed'']"

definition root_or :: "session_aggregate \<Rightarrow> session_status \<Rightarrow> session_status option" where
  \<comment> \<open>\<open>SessionStatus.READY if self.role == "root" else s\<close>\<close>
  "root_or a s = Some (if sa_role a = ''root'' then S_READY else s)"

definition set_both ::
  "session_status \<Rightarrow> run_status \<Rightarrow> session_aggregate \<Rightarrow> session_aggregate result" where
  "set_both s r a = Inr (a\<lparr>sa_status := Some s, sa_run_status := Some r\<rparr>)"

definition apply_session_created :: "payload \<Rightarrow> session_aggregate \<Rightarrow> session_aggregate result" where
  "apply_session_created p a =
     rbind (pitem p ''goal'') (\<lambda>goal. rbind (pitem p ''root_session_id'') (\<lambda>root.
     rbind (py_list (dget p ''skill_names'' (PList []))) (\<lambda>names.
       Inr (a\<lparr>sa_goal := py_str goal, sa_root_session_id := py_str root,
              sa_parent_session_id := pget p ''parent_session_id'',
              sa_role := py_str (dget p ''role'' (PStr ''root'')),
              sa_dept_id := optional_str (pget p ''dept_id''),
              sa_skill_names := map py_str names,
              sa_status := Some S_CREATED\<rparr>))))"

definition apply_child_created :: "payload \<Rightarrow> session_aggregate \<Rightarrow> session_aggregate result" where
  "apply_child_created p a =
     rbind (pitem p ''goal'') (\<lambda>goal. rbind (pitem p ''parent_session_id'') (\<lambda>parent.
     rbind (pitem p ''role'') (\<lambda>role.
     rbind (py_list (dget p ''dependency_ids'' (PList []))) (\<lambda>deps.
     rbind (py_dict (dget p ''output_contract'' (PDict []))) (\<lambda>contract.
       Inr (a\<lparr>sa_goal := py_str goal,
              sa_root_session_id := py_str (dget p ''root_session_id'' (PStr (sa_root_session_id a))),
              sa_parent_session_id := PStr (py_str parent), sa_role := py_str role,
              sa_dependency_ids := deps, sa_output_contract := contract,
              sa_dept_id := (if pget p ''dept_id'' \<noteq> PNone then optional_str (pget p ''dept_id'')
                             else sa_dept_id a),
              sa_status := Some (if deps \<noteq> [] then S_PENDING else S_RUNNABLE)\<rparr>))))))"

definition apply_run_requested :: "payload \<Rightarrow> session_aggregate \<Rightarrow> session_aggregate result" where
  "apply_run_requested p a =
     rbind (pitem p ''run_id'') (\<lambda>rid.
       Inr (a\<lparr>sa_run_id := PStr (py_str rid), sa_run_status := Some R_PENDING,
              sa_result_summary := PNone, sa_result_ref := PNone, sa_artifact_refs := [],
              sa_status := (if sa_role a = ''root'' then Some S_PENDING else sa_status a)\<rparr>))"

definition apply_session_resumed :: "payload \<Rightarrow> session_aggregate \<Rightarrow> session_aggregate result" where
  "apply_session_resumed p a =
     rbind (pitem p ''run_id'') (\<lambda>rid.
       Inr (a\<lparr>sa_run_id := PStr (py_str rid), sa_status := Some S_PENDING,
              sa_run_status := Some R_PENDING\<rparr>))"

definition apply_run_completed :: "payload \<Rightarrow> session_aggregate \<Rightarrow> session_aggregate result" where
  "apply_run_completed p a =
     rbind (py_list (dget p ''artifact_refs'' (PList []))) (\<lambda>refs.
       Inr (a\<lparr>sa_result_summary := pget p ''result_summary'', sa_result_ref := pget p ''result_ref'',
              sa_artifact_refs := refs, sa_run_status := Some R_COMPLETED,
              sa_status := root_or a S_COMPLETED\<rparr>))"

definition apply_dependency_changed :: "payload \<Rightarrow> session_aggregate \<Rightarrow> session_aggregate result" where
  "apply_dependency_changed p a =
     rbind (pitem p ''dependency_ids'') (\<lambda>v. rbind (py_list v) (\<lambda>deps.
       Inr (a\<lparr>sa_dependency_ids := deps,
              sa_status := Some (if deps \<noteq> [] then S_PENDING else S_RUNNABLE)\<rparr>)))"

definition apply_child_result_published ::
  "payload \<Rightarrow> session_aggregate \<Rightarrow> session_aggregate result" where
  "apply_child_result_published p a =
     rbind (py_list (dget p ''artifact_refs'' (PList []))) (\<lambda>refs.
       Inr (a\<lparr>sa_result_summary := pget p ''summary'', sa_result_ref := pget p ''result_ref'',
              sa_artifact_refs := refs, sa_status := Some S_COMPLETED\<rparr>))"

definition sa_apply_body :: "string \<Rightarrow> payload \<Rightarrow> session_aggregate \<Rightarrow> session_aggregate result" where
  \<comment> \<open>the \<open>if/elif\<close> chain of \<open>apply\<close>; an event type that no branch names changes nothing\<close>
  "sa_apply_body ty p a =
     (if ty = ''session.created'' then apply_session_created p a
      else if ty = ''child.created'' then apply_child_created p a
      else if ty = ''run.requested'' then apply_run_requested p a
      else if ty = ''run.scheduled'' then set_both S_RUNNABLE R_RUNNABLE a
      else if ty = ''run.started'' then set_both S_RUNNING R_RUNNING a
      else if ty = ''session.paused'' then set_both S_PAUSED R_PAUSED a
      else if ty = ''approval.requested'' then set_both S_WAITING_FOR_HUMAN R_WAITING_FOR_HUMAN a
      else if ty = ''approval.approved'' then set_both S_RUNNABLE R_RUNNABLE a
      else if ty \<in> set [''approval.rejected'', ''approval.expired'', ''approval.cancelled'']
           then set_both S_RUNNABLE R_RUNNABLE a
      else if ty = ''run.retry_scheduled'' then set_both S_RETRY_WAIT R_RETRY_WAIT a
      else if ty = ''session.resumed'' then apply_session_resumed p a
      else if ty = ''run.completed'' then apply_run_completed p a
      else if ty = ''dependency.changed'' then apply_dependency_changed p a
      else if ty \<in> set [''child.delegated'', ''session.handed_off''] then
        rbind (pitem p ''owner'') (\<lambda>v. Inr (a\<lparr>sa_owner := PStr (py_str v)\<rparr>))
      else if ty = ''child.result_published'' then apply_child_result_published p a
      else if ty = ''review.completed'' then
        Inr (a\<lparr>sa_result_summary := pget p ''decision'', sa_result_ref := pget p ''target_result_ref'',
               sa_status := Some S_COMPLETED\<rparr>)
      else if ty = ''run.failed'' then
        Inr (a\<lparr>sa_run_status := Some R_FAILED, sa_status := root_or a S_FAILED\<rparr>)
      else if ty = ''run.cancelled'' then
        Inr (a\<lparr>sa_run_status := Some R_CANCELLED, sa_status := root_or a S_CANCELLED\<rparr>)
      else if ty = ''runtime.failed'' then set_both S_RETRY_WAIT R_RETRY_WAIT a
      else if ty = ''runtime.reprovisioned'' then set_both S_RUNNABLE R_RUNNABLE a
      else if ty = ''run.terminated'' then
        Inr (a\<lparr>sa_run_status := Some R_FAILED, sa_status := root_or a S_FAILED\<rparr>)
      else if ty = ''session.closed'' then Inr (a\<lparr>sa_status := Some S_CLOSED\<rparr>)
      else Inr a)"

definition sa_apply ::
  "approval_codec \<Rightarrow> string \<Rightarrow> payload \<Rightarrow> session_aggregate \<Rightarrow> session_aggregate result" where
  "sa_apply C ty p a =
     rbind (if phas p ''approval'' \<and> ty \<in> set APPROVAL_CARRIERS
            then rbind (ac_validate C (pget p ''approval'')) (\<lambda>c. Inr (a\<lparr>sa_approval := c\<rparr>))
            else Inr a)
       (sa_apply_body ty p)"

section \<open>Rebuilding, snapshots\<close>

definition apply_canonical ::
  "approval_codec \<Rightarrow> canonical_event \<Rightarrow> session_aggregate \<Rightarrow> session_aggregate result" where
  "apply_canonical C e a =
     rbind (sa_apply C (ce_type e) (ce_payload e) a) (\<lambda>a'. Inr (a'\<lparr>sa_version := ce_version e\<rparr>))"

definition sa_from_events ::
  "approval_codec \<Rightarrow> canonical_event list \<Rightarrow> session_aggregate result" where
  "sa_from_events C es =
     (case es of
        [] \<Rightarrow> Inl (ValueError ''cannot restore a Session without events'')
      | f # _ \<Rightarrow> rfold (apply_canonical C) es (sa_empty (ce_session_id f) (ce_tenant_id f)))"

definition sa_replay ::
  "approval_codec \<Rightarrow> canonical_event list \<Rightarrow> session_aggregate \<Rightarrow> session_aggregate result" where
  "sa_replay C es a =
     rfold (\<lambda>e a. raise_if (ce_version e \<noteq> sa_version a + 1)
                    (ValueError (''snapshot replay gap: expected '' @ show_int (sa_version a + 1) @
                       '', got '' @ show_int (ce_version e)))
                    (apply_canonical C e a)) es a"

definition sa_snapshot_state :: "approval_codec \<Rightarrow> session_aggregate \<Rightarrow> payload result" where
  "sa_snapshot_state C a =
     (case sa_status a of
        None \<Rightarrow> Inl (InvalidTransitionError ''cannot snapshot a Session that does not exist'')
      | Some status \<Rightarrow> Inr
          [(''session_id'', PStr (sa_session_id a)),
           (''root_session_id'', PStr (sa_root_session_id a)),
           (''tenant_id'', PStr (sa_tenant_id a)),
           (''approval'', ac_dump C (sa_approval a)),
           (''status'', PStr (session_status_value status)),
           (''run_status'', case sa_run_status a of None \<Rightarrow> PNone | Some r \<Rightarrow> PStr (run_status_value r)),
           (''goal'', PStr (sa_goal a)),
           (''run_id'', sa_run_id a),
           (''parent_session_id'', sa_parent_session_id a),
           (''role'', PStr (sa_role a)),
           (''result_summary'', sa_result_summary a),
           (''result_ref'', sa_result_ref a),
           (''artifact_refs'', PList (sa_artifact_refs a)),
           (''dependency_ids'', PList (sa_dependency_ids a)),
           (''output_contract'', PDict (sa_output_contract a)),
           (''owner'', sa_owner a),
           (''dept_id'', case sa_dept_id a of None \<Rightarrow> PNone | Some d \<Rightarrow> PStr d),
           (''skill_names'', PList (map PStr (sa_skill_names a)))])"

definition restored_run_status :: "session_status \<Rightarrow> pyval \<Rightarrow> run_status option result" where
  "restored_run_status stored_status v =
     (let v' = (if v = PNone \<and> session_status_value stored_status \<in> set (map run_status_value all_run_status)
                then PStr (session_status_value stored_status) else v)
      in if py_bool v' then rbind (run_status_of (py_str v')) (\<lambda>r. Inr (Some r)) else Inr None)"

definition sa_from_snapshot :: "approval_codec \<Rightarrow> payload \<Rightarrow> int \<Rightarrow> session_aggregate result" where
  "sa_from_snapshot C st version =
     (let role = py_str (dget st ''role'' (PStr ''root'')) in
      rbind (pitem st ''status'') (\<lambda>sv. rbind (session_status_of (py_str sv)) (\<lambda>stored_status.
      rbind (pitem st ''session_id'') (\<lambda>sid. rbind (pitem st ''root_session_id'') (\<lambda>root.
      rbind (pitem st ''tenant_id'') (\<lambda>tid.
      rbind (ac_validate C (dget st ''approval'' (PDict []))) (\<lambda>appr.
      rbind (restored_run_status stored_status (pget st ''run_status'')) (\<lambda>rs.
      rbind (pitem st ''goal'') (\<lambda>goal.
      rbind (py_list (dget st ''artifact_refs'' (PList []))) (\<lambda>arts.
      rbind (py_list (dget st ''dependency_ids'' (PList []))) (\<lambda>deps.
      rbind (py_dict (dget st ''output_contract'' (PDict []))) (\<lambda>contract.
      rbind (py_list (dget st ''skill_names'' (PList []))) (\<lambda>names.
        Inr \<lparr>sa_session_id = py_str sid, sa_root_session_id = py_str root,
             sa_tenant_id = py_str tid, sa_version = version,
             sa_status = Some (if role = ''root'' \<and> stored_status \<in> set [S_COMPLETED, S_FAILED, S_CANCELLED]
                               then S_READY else stored_status),
             sa_run_status = rs, sa_goal = py_str goal, sa_run_id = pget st ''run_id'',
             sa_parent_session_id = pget st ''parent_session_id'', sa_role = role,
             sa_result_summary = pget st ''result_summary'', sa_result_ref = pget st ''result_ref'',
             sa_artifact_refs = arts, sa_dependency_ids = deps, sa_output_contract = contract,
             sa_owner = pget st ''owner'',
             sa_dept_id = (if pget st ''dept_id'' = PNone then None
                           else Some (py_str (pget st ''dept_id''))),
             sa_skill_names = map py_str names, sa_approval = appr, sa_pending = []\<rparr>)))))))))))))"

section \<open>Commands\<close>

definition require_existing :: "session_aggregate \<Rightarrow> 'a result \<Rightarrow> 'a result" where
  "require_existing a k =
     raise_if (sa_status a = None) (InvalidTransitionError ''Session does not exist'') k"

definition sa_raise ::
  "approval_codec \<Rightarrow> string \<Rightarrow> payload \<Rightarrow> session_aggregate \<Rightarrow> session_aggregate result" where
  \<comment> \<open>\<open>_raise\<close>; every command raises user-visible events\<close>
  "sa_raise C ty p a =
     rbind (sa_apply C ty p a) (\<lambda>a'. Inr (a'\<lparr>sa_pending := sa_pending a' @
       [\<lparr>ne_type = ty, ne_payload = p, ne_visibility = V_USER\<rparr>]\<rparr>))"

definition status_text :: "session_aggregate \<Rightarrow> string" where
  "status_text a = (case sa_status a of None \<Rightarrow> [] | Some s \<Rightarrow> session_status_value s)"

definition opt_str :: "string option \<Rightarrow> pyval" where
  "opt_str x = (case x of None \<Rightarrow> PNone | Some s \<Rightarrow> PStr s)"

definition run_payload :: "approval_codec \<Rightarrow> session_aggregate \<Rightarrow> string \<Rightarrow> payload" where
  \<comment> \<open>\<open>_run_payload\<close>\<close>
  "run_payload C a run_id =
     [(''run_id'', PStr run_id), (''approval'', ac_dump C (sa_approval a))] @
     (case sa_dept_id a of None \<Rightarrow> [] | Some d \<Rightarrow> if d = [] then [] else [(''dept_id'', PStr d)])"

definition run_options ::
  "payload option \<Rightarrow> pyval list option \<Rightarrow> session_aggregate \<Rightarrow> payload" where
  \<comment> \<open>the \<open>budget\<close>, \<open>read_refresh\<close> and \<open>skill_names\<close> entries of a run request\<close>
  "run_options budget refresh a =
     (case budget of None \<Rightarrow> [] | Some b \<Rightarrow> if b = [] then [] else [(''budget'', PDict b)]) @
     (case refresh of None \<Rightarrow> [] | Some r \<Rightarrow> if r = [] then [] else [(''read_refresh'', PList r)]) @
     (if sa_skill_names a = [] then [] else [(''skill_names'', PList (map PStr (sa_skill_names a)))])"

record create_request =
  cr_goal :: string
  cr_run_id :: string
  cr_dept_id :: "string option"
  cr_source :: string
  cr_schedule_id :: "string option"
  cr_occurrence_id :: "string option"
  cr_approval :: "approval_configuration option"
  cr_runtime_budget :: "payload option"
  cr_read_refresh :: "pyval list option"
  cr_skill_names :: "string list option"

definition created_payload ::
  "approval_codec \<Rightarrow> create_request \<Rightarrow> session_aggregate \<Rightarrow> payload" where
  "created_payload C r a =
     [(''goal'', PStr (cr_goal r)), (''role'', PStr ''root''),
      (''root_session_id'', PStr (sa_session_id a)), (''parent_session_id'', PNone),
      (''source'', PStr (cr_source r)), (''approval'', ac_dump C (sa_approval a))] @
     (case cr_dept_id r of None \<Rightarrow> [] | Some d \<Rightarrow> if d = [] then [] else [(''dept_id'', PStr d)]) @
     (if sa_skill_names a = [] then [] else [(''skill_names'', PList (map PStr (sa_skill_names a)))]) @
     (if cr_source r = ''schedule''
      then [(''schedule_id'', opt_str (cr_schedule_id r)),
            (''occurrence_id'', opt_str (cr_occurrence_id r))]
      else [])"

definition sa_create ::
  "approval_codec \<Rightarrow> create_request \<Rightarrow> session_aggregate \<Rightarrow> session_aggregate result" where
  "sa_create C r a =
     raise_if (sa_version a \<noteq> 0 \<or> sa_status a \<noteq> None)
       (InvalidTransitionError ''Session already exists'')
       (let a1 = a\<lparr>sa_dept_id := cr_dept_id r,
                   sa_skill_names := fromkeys (case cr_skill_names r of None \<Rightarrow> [] | Some xs \<Rightarrow> xs),
                   sa_approval := (case cr_approval r of None \<Rightarrow> default_approval | Some c \<Rightarrow> c)\<rparr>
        in rbind (sa_raise C ''session.created'' (created_payload C r a1) a1) (\<lambda>a2.
           sa_raise C ''run.requested''
             (run_payload C a2 (cr_run_id r) @
              run_options (cr_runtime_budget r) (cr_read_refresh r) a2) a2))"

definition sa_cancel ::
  "approval_codec \<Rightarrow> string \<Rightarrow> session_aggregate \<Rightarrow> session_aggregate result" where
  "sa_cancel C reason a =
     require_existing a
     (raise_if (session_terminal (sa_status a))
        (InvalidTransitionError (''cannot cancel Session in '' @ status_text a))
     (raise_if (run_terminal (sa_run_status a))
        (InvalidTransitionError ''cannot cancel a Session without an active Run'')
     (sa_raise C ''run.cancelled'' [(''run_id'', sa_run_id a), (''reason'', PStr reason)] a)))"

definition sa_append_message ::
  "approval_codec \<Rightarrow> string \<Rightarrow> session_aggregate \<Rightarrow> session_aggregate result" where
  "sa_append_message C message a =
     require_existing a
     (raise_if (session_terminal (sa_status a))
        (InvalidTransitionError (''cannot append message to Session in '' @ status_text a))
     (sa_raise C ''user.message.appended'' [(''message'', PStr message)] a))"

definition mode_change_needed :: "approval_mode option \<Rightarrow> session_aggregate \<Rightarrow> bool" where
  "mode_change_needed mode a \<longleftrightarrow>
     mode \<noteq> None \<or>
     interaction_mode (sa_approval a) = Some NON_STREAMING \<and>
     effective_approval_mode (sa_approval a) \<noteq> Some FULL_ACCESS"

definition changed_approval :: "approval_mode option \<Rightarrow> session_aggregate \<Rightarrow> approval_configuration" where
  \<comment> \<open>\<open>resolved_approval.model_copy(update=...)\<close>\<close>
  "changed_approval mode a =
     (approval_resolve (case interaction_mode (sa_approval a) of None \<Rightarrow> STREAMING | Some i \<Rightarrow> i) mode)
       \<lparr>approval_mode_revision := approval_mode_revision (sa_approval a) + 1\<rparr>"

definition sa_request_run ::
  "approval_codec \<Rightarrow> string \<Rightarrow> approval_mode option \<Rightarrow> string option \<Rightarrow> string option \<Rightarrow>
   payload option \<Rightarrow> pyval list option \<Rightarrow> session_aggregate \<Rightarrow> session_aggregate result" where
  "sa_request_run C run_id mode command_id fingerprint budget refresh a =
     require_existing a
     (raise_if (\<forall>s \<in> set [S_CREATED, S_READY, S_PAUSED]. sa_status a \<noteq> Some s)
        (InvalidTransitionError (''cannot request run for Session in '' @ status_text a))
     (rbind (if mode_change_needed mode a
             then sa_raise C ''session.approval_mode_changed''
                    [(''approval'', ac_dump C (changed_approval mode a))] a
             else Inr a) (\<lambda>a1.
      sa_raise C ''run.requested''
        (run_payload C a1 run_id @
         [(''command_id'', opt_str command_id), (''request_fingerprint'', opt_str fingerprint)] @
         run_options budget refresh a1) a1)))"

definition sa_close ::
  "approval_codec \<Rightarrow> string \<Rightarrow> session_aggregate \<Rightarrow> session_aggregate result" where
  "sa_close C reason a =
     require_existing a
     (raise_if (session_terminal (sa_status a))
        (InvalidTransitionError (''cannot close Session in '' @ status_text a))
     (raise_if (\<not> run_terminal (sa_run_status a))
        (InvalidTransitionError ''cannot close Session while a Run is active'')
     (sa_raise C ''session.closed'' [(''reason'', PStr reason)] a)))"

definition sa_resume ::
  "approval_codec \<Rightarrow> string \<Rightarrow> session_aggregate \<Rightarrow> session_aggregate result" where
  "sa_resume C run_id a =
     require_existing a
     (raise_if (\<forall>s \<in> set [S_PAUSED, S_RETRY_WAIT, S_WAITING_FOR_HUMAN]. sa_status a \<noteq> Some s)
        (InvalidTransitionError (''cannot resume Session in '' @ status_text a))
     (sa_raise C ''session.resumed'' (run_payload C a run_id) a))"

definition response_payload :: "string \<Rightarrow> string \<Rightarrow> string \<Rightarrow> string option \<Rightarrow> payload" where
  "response_payload approval_id actor decision feedback =
     [(''approval_id'', PStr approval_id), (''actor_id'', PStr actor),
      (''decision'', PStr decision), (''feedback'', opt_str feedback)]"

definition sa_record_human_response ::
  "approval_codec \<Rightarrow> string \<Rightarrow> string \<Rightarrow> string \<Rightarrow> string option \<Rightarrow> bool \<Rightarrow>
   session_aggregate \<Rightarrow> session_aggregate result" where
  "sa_record_human_response C approval_id actor decision feedback terminal a =
     require_existing a
     (raise_if (sa_status a \<noteq> Some S_WAITING_FOR_HUMAN)
        (InvalidTransitionError (''cannot record approval response for Session in '' @ status_text a))
     (let p = response_payload approval_id actor decision feedback in
      rbind (sa_raise C ''human.response.recorded'' p a) (\<lambda>a1.
        sa_raise C (if terminal then ''approval.'' @ decision else ''approval.vote.recorded'') p a1)))"

definition sa_delegate_approval ::
  "approval_codec \<Rightarrow> string \<Rightarrow> string \<Rightarrow> string \<Rightarrow> string \<Rightarrow> string \<Rightarrow>
   session_aggregate \<Rightarrow> session_aggregate result" where
  "sa_delegate_approval C approval_id from_approver to_approver delegated_by reason a =
     require_existing a
     (raise_if (sa_status a \<noteq> Some S_WAITING_FOR_HUMAN)
        (InvalidTransitionError ''approval delegation requires a waiting Session'')
     (sa_raise C ''approval.delegated''
        [(''approval_id'', PStr approval_id), (''from_approver'', PStr from_approver),
         (''to_approver'', PStr to_approver), (''delegated_by'', PStr delegated_by),
         (''reason'', PStr reason)] a))"

definition sa_escalate_approval ::
  "approval_codec \<Rightarrow> string \<Rightarrow> string list \<Rightarrow> int \<Rightarrow> string \<Rightarrow> string \<Rightarrow> time option \<Rightarrow>
   session_aggregate \<Rightarrow> session_aggregate result" where
  "sa_escalate_approval C approval_id approvers level escalated_by reason next_at a =
     require_existing a
     (raise_if (sa_status a \<noteq> Some S_WAITING_FOR_HUMAN)
        (InvalidTransitionError ''approval escalation requires a waiting Session'')
     (sa_raise C ''approval.escalated''
        [(''approval_id'', PStr approval_id), (''approvers'', PList (map PStr approvers)),
         (''escalation_level'', PInt level), (''escalated_by'', PStr escalated_by),
         (''reason'', PStr reason),
         (''next_escalation_at'', opt_str (map_option isoformat next_at))] a))"

definition sa_expire_approval ::
  "approval_codec \<Rightarrow> string \<Rightarrow> time \<Rightarrow> session_aggregate \<Rightarrow> session_aggregate result" where
  "sa_expire_approval C approval_id expired_at a =
     require_existing a
     (raise_if (sa_status a \<noteq> Some S_WAITING_FOR_HUMAN)
        (InvalidTransitionError ''approval expiry requires a waiting Session'')
     (sa_raise C ''approval.expired''
        [(''approval_id'', PStr approval_id), (''decision'', PStr ''expired''),
         (''expired_at'', PStr (isoformat expired_at)),
         (''reason'', PStr ''approval_sla_expired'')] a))"

definition sa_release_pending_events ::
  "session_aggregate \<Rightarrow> new_event list \<times> session_aggregate" where
  "sa_release_pending_events a = (sa_pending a, a\<lparr>sa_pending := []\<rparr>)"

text \<open>The commands as data, so that a property can speak of any of them.\<close>

datatype session_command =
    Create create_request
  | Cancel string
  | Append_message string
  | Request_run string "approval_mode option" "string option" "string option"
      "payload option" "pyval list option"
  | Close string
  | Resume string
  | Human_response string string string "string option" bool
  | Delegate_approval string string string string string
  | Escalate_approval string "string list" int string string "time option"
  | Expire_approval string time

fun sa_command ::
  "approval_codec \<Rightarrow> session_command \<Rightarrow> session_aggregate \<Rightarrow> session_aggregate result" where
  "sa_command C (Create r) = sa_create C r"
| "sa_command C (Cancel reason) = sa_cancel C reason"
| "sa_command C (Append_message m) = sa_append_message C m"
| "sa_command C (Request_run rid mode cid fp b r) = sa_request_run C rid mode cid fp b r"
| "sa_command C (Close reason) = sa_close C reason"
| "sa_command C (Resume rid) = sa_resume C rid"
| "sa_command C (Human_response i ac d f t) = sa_record_human_response C i ac d f t"
| "sa_command C (Delegate_approval i f t b r) = sa_delegate_approval C i f t b r"
| "sa_command C (Escalate_approval i xs l b r n) = sa_escalate_approval C i xs l b r n"
| "sa_command C (Expire_approval i t) = sa_expire_approval C i t"

end
