(* ===== verification/Session_Laws.thy ===== *)
theory Session_Laws
  imports Session_Aggregate
begin

text \<open>
  The laws of the Session aggregate. A command records exactly the events whose application it performed, so
  rebuilding the stream after a command gives the state the command left; a command is accepted exactly in
  the states its guards name; Session status and Run status agree in every history; a snapshot and the
  later events restore what all the events give.
\<close>

section \<open>What applying an event leaves alone\<close>

lemmas apply_branch_defs =
  apply_session_created_def apply_child_created_def apply_run_requested_def
  apply_session_resumed_def apply_run_completed_def apply_dependency_changed_def
  apply_child_result_published_def set_both_def root_or_def

lemma sa_apply_body_simps [simp]:
  "sa_apply_body ''session.created'' p a = apply_session_created p a"
  "sa_apply_body ''child.created'' p a = apply_child_created p a"
  "sa_apply_body ''run.requested'' p a = apply_run_requested p a"
  "sa_apply_body ''run.cancelled'' p a =
     Inr (a\<lparr>sa_run_status := Some R_CANCELLED, sa_status := root_or a S_CANCELLED\<rparr>)"
  "sa_apply_body ''session.resumed'' p a = apply_session_resumed p a"
  "sa_apply_body ''session.closed'' p a = Inr (a\<lparr>sa_status := Some S_CLOSED\<rparr>)"
  "sa_apply_body ''approval.expired'' p a = set_both S_RUNNABLE R_RUNNABLE a"
  by (simp_all add: sa_apply_body_def)

lemma sa_apply_body_ignored [simp]:
  "sa_apply_body ''session.approval_mode_changed'' p a = Inr a"
  "sa_apply_body ''user.message.appended'' p a = Inr a"
  "sa_apply_body ''human.response.recorded'' p a = Inr a"
  "sa_apply_body ''approval.vote.recorded'' p a = Inr a"
  "sa_apply_body ''approval.delegated'' p a = Inr a"
  "sa_apply_body ''approval.escalated'' p a = Inr a"
  by (simp_all add: sa_apply_body_def)

lemma approval_carriers [simp]:
  "''session.created'' \<in> set APPROVAL_CARRIERS" "''run.requested'' \<in> set APPROVAL_CARRIERS"
  "''session.resumed'' \<in> set APPROVAL_CARRIERS"
  "''session.approval_mode_changed'' \<in> set APPROVAL_CARRIERS"
  by (simp_all add: APPROVAL_CARRIERS_def)

lemma map_sum_rbind: "map_sum id f (rbind m k) = rbind m (\<lambda>x. map_sum id f (k x))"
  by (cases m) simp_all

lemma sa_apply_body_meta:
  "sa_apply_body ty p (a\<lparr>sa_version := v, sa_pending := ps\<rparr>) =
   map_sum id (\<lambda>x. x\<lparr>sa_version := v, sa_pending := ps\<rparr>) (sa_apply_body ty p a)"
  unfolding sa_apply_body_def apply_branch_defs
  by (cases a) (simp add: map_sum_rbind)

lemma sa_apply_meta:
  "sa_apply C ty p (a\<lparr>sa_version := v, sa_pending := ps\<rparr>) =
   map_sum id (\<lambda>x. x\<lparr>sa_version := v, sa_pending := ps\<rparr>) (sa_apply C ty p a)"
proof -
  have body: "sa_apply_body ty p (a\<lparr>sa_version := v, sa_pending := ps, sa_approval := c\<rparr>) =
    map_sum id (\<lambda>x. x\<lparr>sa_version := v, sa_pending := ps\<rparr>) (sa_apply_body ty p (a\<lparr>sa_approval := c\<rparr>))" for c
    using sa_apply_body_meta [of ty p ps v "a\<lparr>sa_approval := c\<rparr>"] by (cases a) simp
  show ?thesis
    unfolding sa_apply_def
    by (cases "ac_validate C (pget p ''approval'')") (auto simp: sa_apply_body_meta body)
qed

lemma sa_apply_body_frame:
  "rall (\<lambda>b. sa_approval b = sa_approval a \<and> sa_version b = sa_version a \<and> sa_pending b = sa_pending a \<and>
     sa_session_id b = sa_session_id a \<and> sa_tenant_id b = sa_tenant_id a) (sa_apply_body ty p a)"
  unfolding sa_apply_body_def apply_branch_defs
  by (intro rall_if) simp_all

lemma sa_apply_frame:
  assumes "sa_apply C ty p a = Inr b"
  shows "sa_version b = sa_version a \<and> sa_pending b = sa_pending a \<and>
    sa_session_id b = sa_session_id a \<and> sa_tenant_id b = sa_tenant_id a"
  using assms unfolding sa_apply_def
  by (auto dest!: rallD [OF sa_apply_body_frame] split: if_splits)

lemma sa_apply_revision:
  assumes "codec_ok C" "sa_apply C ty p a = Inr b" "0 \<le> approval_mode_revision (sa_approval a)"
  shows "0 \<le> approval_mode_revision (sa_approval b)"
  using assms unfolding sa_apply_def
  by (auto dest!: rallD [OF sa_apply_body_frame] simp: codec_okD split: if_splits)

section \<open>Raised events\<close>

text \<open>
  \<open>raises C a evs a'\<close>: the command that led from \<open>a\<close> to \<open>a'\<close> recorded exactly the events \<open>evs\<close>, and
  applying them to \<open>a\<close> gives \<open>a'\<close>.
\<close>

definition apply_new :: "approval_codec \<Rightarrow> new_event \<Rightarrow> session_aggregate \<Rightarrow> session_aggregate result" where
  "apply_new C e a = sa_apply C (ne_type e) (ne_payload e) a"

definition raises ::
  "approval_codec \<Rightarrow> session_aggregate \<Rightarrow> new_event list \<Rightarrow> session_aggregate \<Rightarrow> bool" where
  "raises C a evs a' \<longleftrightarrow> sa_pending a' = sa_pending a @ evs \<and>
     rfold (apply_new C) evs a = Inr (a'\<lparr>sa_pending := sa_pending a\<rparr>)"

lemma apply_new_pending:
  "apply_new C e (a\<lparr>sa_pending := ps\<rparr>) = map_sum id (\<lambda>x. x\<lparr>sa_pending := ps\<rparr>) (apply_new C e a)"
proof -
  have "a\<lparr>sa_pending := ps\<rparr> = a\<lparr>sa_version := sa_version a, sa_pending := ps\<rparr>" by simp
  then have "apply_new C e (a\<lparr>sa_pending := ps\<rparr>) =
      map_sum id (\<lambda>x. x\<lparr>sa_version := sa_version a, sa_pending := ps\<rparr>) (apply_new C e a)"
    unfolding apply_new_def by (metis sa_apply_meta)
  then show ?thesis
    by (cases "apply_new C e a") (auto simp: apply_new_def dest!: sa_apply_frame)
qed

lemma rfold_apply_new_pending:
  "rfold (apply_new C) es (a\<lparr>sa_pending := ps\<rparr>) =
   map_sum id (\<lambda>x. x\<lparr>sa_pending := ps\<rparr>) (rfold (apply_new C) es a)"
proof (induction es arbitrary: a)
  case (Cons e es)
  show ?case by (cases "apply_new C e a") (simp_all add: apply_new_pending Cons.IH)
qed simp

lemma raises_refl: "raises C a [] a"
  by (simp add: raises_def)

lemma raises_trans: "raises C a es b \<Longrightarrow> raises C b fs c \<Longrightarrow> raises C a (es @ fs) c"
  using rfold_apply_new_pending [of C fs "sa_pending a" b]
  by (auto simp: raises_def rfold_append)

lemma sa_pending_same: "sa_pending a = ps \<Longrightarrow> a\<lparr>sa_pending := ps\<rparr> = a"
  by (cases a) simp

lemma raises_step:
  "sa_raise C ty p a = Inr a' \<Longrightarrow>
   raises C a [\<lparr>ne_type = ty, ne_payload = p, ne_visibility = V_USER\<rparr>] a'"
  using sa_apply_frame [of C ty p a] sa_pending_same
  by (fastforce simp: raises_def sa_raise_def apply_new_def)

lemma raises_via:
  "sa_raise C ty p a = Inr b \<Longrightarrow> raises C b fs c \<Longrightarrow>
   raises C a (\<lparr>ne_type = ty, ne_payload = p, ne_visibility = V_USER\<rparr> # fs) c"
  using raises_trans [OF raises_step] by fastforce

lemmas sa_command_defs =
  sa_cancel_def sa_append_message_def sa_request_run_def sa_close_def sa_resume_def
  sa_record_human_response_def sa_delegate_approval_def sa_escalate_approval_def
  sa_expire_approval_def require_existing_def

lemma created_payload_approval: "phas (created_payload C r a) ''approval''"
  by (simp add: created_payload_def phas_def)

lemma created_event_overrides:
  assumes "phas p ''approval''"
  shows "sa_apply C ''session.created'' p (a\<lparr>sa_dept_id := d, sa_skill_names := ns, sa_approval := c\<rparr>) =
         sa_apply C ''session.created'' p a"
proof -
  have "apply_session_created p (a\<lparr>sa_dept_id := d, sa_skill_names := ns, sa_approval := c'\<rparr>) =
        apply_session_created p (a\<lparr>sa_approval := c'\<rparr>)" for c'
    by (cases a) (simp add: apply_session_created_def)
  then show ?thesis
    using assms unfolding sa_apply_def
    by (cases "ac_validate C (pget p ''approval'')") (auto simp: APPROVAL_CARRIERS_def sa_apply_body_def)
qed

lemma raises_create:
  assumes "sa_create C r a = Inr a'"
  shows "\<exists>evs. raises C a evs a'"
proof -
  define c where "c = (case cr_approval r of None \<Rightarrow> default_approval | Some c \<Rightarrow> c)"
  define a1 where "a1 = a\<lparr>sa_dept_id := cr_dept_id r,
    sa_skill_names := fromkeys (case cr_skill_names r of None \<Rightarrow> [] | Some xs \<Rightarrow> xs), sa_approval := c\<rparr>"
  obtain a2 p where a2: "sa_raise C ''session.created'' (created_payload C r a1) a1 = Inr a2"
    and fin: "sa_raise C ''run.requested'' p a2 = Inr a'"
    using assms unfolding sa_create_def Let_def a1_def c_def by auto
  have "sa_raise C ''session.created'' (created_payload C r a1) a = Inr a2"
    using a2 created_event_overrides [OF created_payload_approval, of C C r a1]
    unfolding sa_raise_def a1_def by simp
  then show ?thesis using raises_via [OF _ raises_step [OF fin]] by blast
qed

lemma raises_command:
  assumes "sa_command C c a = Inr a'"
  shows "\<exists>evs. raises C a evs a'"
proof (cases c)
  case (Create r)
  then show ?thesis using assms by (simp add: raises_create)
next
  case (Request_run rid mode cid fp b r)
  then show ?thesis using assms
    by (auto simp: sa_command_defs split: if_splits intro: raises_step raises_via [OF _ raises_step])
next
  case (Human_response i ac d f t)
  then show ?thesis using assms
    by (auto simp: sa_command_defs Let_def intro: raises_via [OF _ raises_step])
qed (use assms in \<open>auto simp: sa_command_defs intro: raises_step\<close>)

section \<open>Commands are sound for replay\<close>

definition stored_as :: "session_aggregate \<Rightarrow> new_event list \<Rightarrow> canonical_event list \<Rightarrow> bool" where
  \<comment> \<open>the events as the event store appends them: next versions, same type and payload\<close>
  "stored_as a evs ces \<longleftrightarrow>
     map ce_type ces = map ne_type evs \<and> map ce_payload ces = map ne_payload evs \<and>
     map ce_version ces = map (\<lambda>i. sa_version a + 1 + int i) [0..<length evs]"

lemma apply_canonical_version:
  "apply_canonical C e (a\<lparr>sa_version := v\<rparr>) = apply_canonical C e a"
proof -
  have "a\<lparr>sa_version := v\<rparr> = a\<lparr>sa_version := v, sa_pending := sa_pending a\<rparr>" by simp
  then have "sa_apply C (ce_type e) (ce_payload e) (a\<lparr>sa_version := v\<rparr>) =
     map_sum id (\<lambda>x. x\<lparr>sa_version := v, sa_pending := sa_pending a\<rparr>) (sa_apply C (ce_type e) (ce_payload e) a)"
    by (metis sa_apply_meta)
  then show ?thesis
    unfolding apply_canonical_def
    by (cases "sa_apply C (ce_type e) (ce_payload e) a") (auto dest!: sa_apply_frame)
qed

lemma rfold_apply_canonical_version:
  "ces \<noteq> [] \<Longrightarrow> rfold (apply_canonical C) ces (a\<lparr>sa_version := v\<rparr>) = rfold (apply_canonical C) ces a"
  by (cases ces) (simp_all add: apply_canonical_version)

lemma replay_stored:
  "length ces = length evs \<Longrightarrow> map ce_type ces = map ne_type evs \<Longrightarrow>
   map ce_payload ces = map ne_payload evs \<Longrightarrow> rfold (apply_new C) evs a = Inr b \<Longrightarrow>
   rfold (apply_canonical C) ces a =
     Inr (b\<lparr>sa_version := if ces = [] then sa_version a else ce_version (last ces)\<rparr>)"
proof (induction ces evs arbitrary: a rule: list_induct2)
  case (Cons ce ces ev evs)
  obtain a1 where a1: "sa_apply C (ne_type ev) (ne_payload ev) a = Inr a1"
    and rest: "rfold (apply_new C) evs a1 = Inr b"
    using Cons.prems(3) apply_new_def [of C ev a] by auto
  show ?case
    using Cons.IH [OF _ _ rest] Cons.prems a1 rest
    by (cases "ces = []") (auto simp: apply_canonical_def [of C ce a] rfold_apply_canonical_version)
qed simp

definition rebuilt :: "approval_codec \<Rightarrow> string \<Rightarrow> string \<Rightarrow> canonical_event list \<Rightarrow> session_aggregate \<Rightarrow> bool" where
  \<comment> \<open>what the command handler loads: the empty aggregate of a new stream, or the rebuilt one\<close>
  "rebuilt C sid tid es a \<longleftrightarrow>
     (\<forall>e \<in> set es. ce_session_id e = sid \<and> ce_tenant_id e = tid) \<and>
     (if es = [] then a = sa_empty sid tid else sa_from_events C es = Inr a)"

lemma rebuilt_rfold: "rebuilt C sid tid es a \<Longrightarrow> rfold (apply_canonical C) es (sa_empty sid tid) = Inr a"
  by (cases es) (auto simp: rebuilt_def sa_from_events_def)

lemma sa_from_events_rfold:
  "es \<noteq> [] \<Longrightarrow> (\<forall>e \<in> set es. ce_session_id e = sid \<and> ce_tenant_id e = tid) \<Longrightarrow>
   sa_from_events C es = rfold (apply_canonical C) es (sa_empty sid tid)"
  by (cases es) (auto simp: sa_from_events_def)

lemma rebuilt_pending: "rebuilt C sid tid es a \<Longrightarrow> sa_pending a = []"
  by (rule rfold_invariant [OF rebuilt_rfold, where P = "\<lambda>a. sa_pending a = []"])
     (auto simp: sa_empty_def apply_canonical_def dest!: sa_apply_frame)

lemma rebuilt_events:
  assumes es: "rebuilt C sid tid es a"
    and fin: "rfold (apply_new C) evs a = Inr b"
    and stored: "stored_as a evs ces"
    and ids: "\<forall>e \<in> set ces. ce_session_id e = sid \<and> ce_tenant_id e = tid"
  shows "rebuilt C sid tid (es @ ces) (b\<lparr>sa_version := sa_version a + int (length ces)\<rparr>)"
proof -
  have len: "length ces = length evs"
    using stored unfolding stored_as_def by (metis length_map)
  have last: "(if ces = [] then sa_version a else ce_version (last ces)) = sa_version a + int (length ces)"
  proof (cases "ces = []")
    case False
    then have "ce_version (last ces) = last (map (\<lambda>i. sa_version a + 1 + int i) [0..<length evs])"
      using stored unfolding stored_as_def by (metis last_map)
    with False len show ?thesis by (cases evs rule: rev_cases) (auto simp: last_map)
  qed simp
  have "rfold (apply_canonical C) (es @ ces) (sa_empty sid tid) =
    Inr (b\<lparr>sa_version := sa_version a + int (length ces)\<rparr>)"
    using replay_stored [OF len _ _ fin] stored last rebuilt_rfold [OF es]
    by (simp add: stored_as_def rfold_append)
  moreover have "b\<lparr>sa_version := sa_version a + int (length ces)\<rparr> = sa_empty sid tid" if "es = []" "ces = []"
    using calculation that by simp
  ultimately show ?thesis
    using es ids sa_from_events_rfold [of "es @ ces" sid tid C]
    by (auto simp: rebuilt_def)
qed

lemma command_events:
  assumes "sa_pending a = []" "sa_command C c a = Inr a'"
  shows "rfold (apply_new C) (sa_pending a') a = Inr (a'\<lparr>sa_pending := []\<rparr>)"
  using raises_command [OF assms(2)] assms(1) by (auto simp: raises_def)

lemma rebuilt_command:
  assumes es: "rebuilt C sid tid es a"
    and run: "sa_command C c a = Inr a'"
    and stored: "stored_as a (sa_pending a') ces" 
    and ids: "\<forall>e \<in> set ces. ce_session_id e = sid \<and> ce_tenant_id e = tid"
  shows "rebuilt C sid tid (es @ ces) (a'\<lparr>sa_pending := [], sa_version := sa_version a + int (length ces)\<rparr>)"
  using rebuilt_events [OF es command_events [OF rebuilt_pending [OF es] run] stored ids] by simp

text \<open>
  C1: event sourcing is sound. A command that a loaded Session accepts records events; when the event
  store appends exactly these events with the next versions, rebuilding the Session from its whole
  stream gives the state the command left, with nothing pending and the version of the last event.
\<close>

theorem commands_sound_for_replay:
  assumes es: "rebuilt C sid tid es a"
    and run: "sa_command C c a = Inr a'"
    and stored: "stored_as a (sa_pending a') ces" 
    and ids: "\<forall>e \<in> set ces. ce_session_id e = sid \<and> ce_tenant_id e = tid"
  shows "rebuilt C sid tid (es @ ces) (a'\<lparr>sa_pending := [], sa_version := sa_version a + int (length ces)\<rparr>)"
  by (rule rebuilt_command [OF assms])

section \<open>Which commands are accepted\<close>

definition command_enabled :: "session_command \<Rightarrow> session_aggregate \<Rightarrow> bool" where
  "command_enabled c a =
     (case c of
        Create _ \<Rightarrow> sa_status a = None \<and> sa_version a = 0
      | Cancel _ \<Rightarrow> sa_status a \<noteq> None \<and> \<not> session_terminal (sa_status a) \<and>
                    \<not> run_terminal (sa_run_status a)
      | Append_message _ \<Rightarrow> sa_status a \<noteq> None \<and> \<not> session_terminal (sa_status a)
      | Request_run _ _ _ _ _ _ \<Rightarrow> sa_status a \<in> {Some S_CREATED, Some S_READY, Some S_PAUSED}
      | Close _ \<Rightarrow> sa_status a \<noteq> None \<and> \<not> session_terminal (sa_status a) \<and>
                   run_terminal (sa_run_status a)
      | Resume _ \<Rightarrow> sa_status a \<in> {Some S_PAUSED, Some S_RETRY_WAIT, Some S_WAITING_FOR_HUMAN}
      | _ \<Rightarrow> sa_status a = Some S_WAITING_FOR_HUMAN)"

definition approval_ok :: "session_aggregate \<Rightarrow> bool" where
  \<comment> \<open>the field constraint \<open>approval_mode_revision: int = Field(default=0, ge=0)\<close>\<close>
  "approval_ok a \<longleftrightarrow> 0 \<le> approval_mode_revision (sa_approval a)"

definition command_ok :: "session_command \<Rightarrow> bool" where
  "command_ok c = (case c of Create r \<Rightarrow>
     (case cr_approval r of None \<Rightarrow> True | Some c \<Rightarrow> 0 \<le> approval_mode_revision c) | _ \<Rightarrow> True)"

lemma disabled_command_rejected:
  "\<not> command_enabled c a \<Longrightarrow> \<exists>msg. sa_command C c a = Inl (InvalidTransitionError msg)"
  by (cases c) (auto simp: command_enabled_def sa_command_defs sa_create_def raise_if_def)

lemma sa_raise_simple:
  "\<not> phas p ''approval'' \<Longrightarrow>
   sa_raise C ty p a = rbind (sa_apply_body ty p a)
     (\<lambda>a'. Inr (a'\<lparr>sa_pending := sa_pending a' @ [\<lparr>ne_type = ty, ne_payload = p, ne_visibility = V_USER\<rparr>]\<rparr>))"
  by (simp add: sa_raise_def sa_apply_def)

lemma run_event_accepted:
  assumes "codec_ok C" "approval_ok a" "ty = ''run.requested'' \<or> ty = ''session.resumed''"
    and "phas p ''approval''" "pget p ''approval'' = ac_dump C (sa_approval a)"
    and "pitem p ''run_id'' = Inr v"
  shows "\<exists>a'. sa_raise C ty p a = Inr a'"
  using assms
  by (auto simp: sa_raise_def sa_apply_def approval_ok_def codec_okD apply_run_requested_def
      apply_session_resumed_def)

lemma run_payload_keys:
  "phas (run_payload C a rid @ p) ''approval''"
  "pget (run_payload C a rid @ p) ''approval'' = ac_dump C (sa_approval a)"
  "pitem (run_payload C a rid @ p) ''run_id'' = Inr (PStr rid)"
  by (simp_all add: run_payload_def dict_simps)

lemma run_payload_accepted:
  assumes "codec_ok C" "approval_ok a" "ty = ''run.requested'' \<or> ty = ''session.resumed''"
  shows "\<exists>a'. sa_raise C ty (run_payload C a rid @ p) a = Inr a'"
  using run_event_accepted [OF assms run_payload_keys] .

lemma created_accepted:
  assumes "codec_ok C" "approval_ok a"
  shows "\<exists>a'. sa_raise C ''session.created'' (created_payload C r a) a = Inr a' \<and> approval_ok a'"
proof -
  let ?p = "created_payload C r a"
  have keys: "pget ?p ''approval'' = ac_dump C (sa_approval a)" "phas ?p ''approval''"
    "pitem ?p ''goal'' = Inr (PStr (cr_goal r))" "pitem ?p ''root_session_id'' = Inr (PStr (sa_session_id a))"
    by (simp_all add: created_payload_def dict_simps)
  have names: "\<exists>xs. py_list (dget ?p ''skill_names'' (PList [])) = Inr xs"
    by (auto simp: created_payload_def dget_def split: option.splits)
  show ?thesis
    using assms keys names
    by (auto simp: sa_raise_def sa_apply_def approval_ok_def codec_okD apply_session_created_def)
qed

lemma mode_changed_accepted:
  assumes "codec_ok C" "approval_ok a"
  shows "\<exists>a'. sa_raise C ''session.approval_mode_changed''
           [(''approval'', ac_dump C (changed_approval mode a))] a = Inr a' \<and> approval_ok a'"
  using assms
  by (auto simp: sa_raise_def sa_apply_def approval_ok_def codec_okD changed_approval_def dict_simps)

lemma sa_apply_body_approval [simp]:
  "sa_apply_body ''approval.requested'' p a = set_both S_WAITING_FOR_HUMAN R_WAITING_FOR_HUMAN a"
  "sa_apply_body ''approval.approved'' p a = set_both S_RUNNABLE R_RUNNABLE a"
  "sa_apply_body ''approval.rejected'' p a = set_both S_RUNNABLE R_RUNNABLE a"
  "sa_apply_body ''approval.cancelled'' p a = set_both S_RUNNABLE R_RUNNABLE a"
  by (simp_all add: sa_apply_body_def)

lemma approval_event_body:
  "\<exists>a'. sa_apply_body (''approval.'' @ d) p a = Inr a'"
proof (cases "d \<in> {''requested'', ''approved'', ''rejected'', ''expired'', ''cancelled''}")
  case True
  then show ?thesis by (auto simp: set_both_def)
next
  case False
  then have "sa_apply_body (''approval.'' @ d) p a = Inr a"
    by (simp add: sa_apply_body_def)
  then show ?thesis by blast
qed

lemma response_accepted:
  "\<exists>a'. sa_raise C (if t then ''approval.'' @ d else ''approval.vote.recorded'')
     (response_payload i ac d' f) a = Inr a'"
proof -
  have "\<not> phas (response_payload i ac d' f) ''approval''"
    by (simp add: response_payload_def phas_def)
  then show ?thesis
    using approval_event_body [of d]
    by (auto simp: sa_raise_simple)
qed

lemmas plain_event_simps =
  sa_raise_simple phas_def set_both_def

lemma enabled_command_accepted:
  assumes "codec_ok C" "approval_ok a" "command_ok c" "command_enabled c a"
  shows "\<exists>a'. sa_command C c a = Inr a'"
proof (cases c)
  case (Create r)
  let ?a1 = "a\<lparr>sa_dept_id := cr_dept_id r,
    sa_skill_names := fromkeys (case cr_skill_names r of None \<Rightarrow> [] | Some xs \<Rightarrow> xs),
    sa_approval := (case cr_approval r of None \<Rightarrow> default_approval | Some c \<Rightarrow> c)\<rparr>"
  have "approval_ok ?a1" using assms(3) Create by (auto simp: approval_ok_def command_ok_def split: option.splits)
  then show ?thesis
    using created_accepted [OF assms(1), of ?a1 r] run_payload_accepted [OF assms(1)] assms(4) Create
    by (fastforce simp: sa_create_def command_enabled_def Let_def)
next
  case (Request_run rid mode cid fp b r)
  then show ?thesis
    using assms mode_changed_accepted [OF assms(1,2), of mode] run_payload_accepted [OF assms(1)]
    by (fastforce simp: sa_command_defs command_enabled_def)
next
  case (Resume rid)
  then show ?thesis
    using assms run_payload_accepted [OF assms(1,2), of "''session.resumed''" rid "[]"]
    by (auto simp: sa_command_defs command_enabled_def)
next
  case (Human_response i ac d f t)
  then show ?thesis
    using assms response_accepted [of C t d i ac d f]
    by (simp add: sa_command_defs command_enabled_def Let_def plain_event_simps response_payload_def)
qed (use assms in \<open>auto simp: sa_command_defs command_enabled_def plain_event_simps\<close>)

text \<open>
  C2: a Session accepts a command exactly in the states that the command's guards name; in every other
  state, a closed Session included, the command raises.
\<close>

theorem command_accepted_iff_enabled:
  assumes "codec_ok C" "approval_ok a" "command_ok c"
  shows "(\<exists>a'. sa_command C c a = Inr a') \<longleftrightarrow> command_enabled c a"
  using enabled_command_accepted [OF assms] disabled_command_rejected [of c a C] by force

section \<open>The life cycle of a root Session\<close>

fun statuses_agree :: "session_status option \<Rightarrow> run_status option \<Rightarrow> bool" where
  "statuses_agree None r = (r = None)"
| "statuses_agree (Some S_CREATED) r = (r = None)"
| "statuses_agree (Some S_READY) r = run_terminal r"
| "statuses_agree (Some S_CLOSED) r = run_terminal r"
| "statuses_agree (Some S_PENDING) r = (r = Some R_PENDING)"
| "statuses_agree (Some S_RUNNABLE) r = (r = Some R_RUNNABLE)"
| "statuses_agree (Some S_RUNNING) r = (r = Some R_RUNNING)"
| "statuses_agree (Some S_WAITING_FOR_HUMAN) r = (r = Some R_WAITING_FOR_HUMAN)"
| "statuses_agree (Some S_PAUSED) r = (r = Some R_PAUSED)"
| "statuses_agree (Some S_RETRY_WAIT) r = (r = Some R_RETRY_WAIT)"
| "statuses_agree (Some _) r = False"

definition lifecycle_ok :: "session_aggregate \<Rightarrow> bool" where
  "lifecycle_ok a \<longleftrightarrow> sa_role a = ''root'' \<and> statuses_agree (sa_status a) (sa_run_status a)"

definition RUN_EVENTS :: "string list" where
  \<comment> \<open>the events that the runtime and the orchestrator append for a Run\<close>
  "RUN_EVENTS =
     [''run.scheduled'', ''run.started'', ''session.paused'', ''approval.requested'',
      ''run.retry_scheduled'', ''run.completed'', ''run.failed'', ''runtime.failed'',
      ''runtime.reprovisioned'', ''run.terminated'']"

datatype session_op = Command session_command | Run_event string payload

fun session_step :: "approval_codec \<Rightarrow> session_op \<Rightarrow> session_aggregate \<Rightarrow> session_aggregate" where
  "session_step C (Command c) a =
     (case sa_command C c a of Inr a' \<Rightarrow> snd (sa_release_pending_events a') | Inl _ \<Rightarrow> a)"
| "session_step C (Run_event ty p) a =
     (if ty \<in> set RUN_EVENTS then (case sa_apply C ty p a of Inr a' \<Rightarrow> a' | Inl _ \<Rightarrow> a) else a)"

lemma sa_apply_body_run_events [simp]:
  "sa_apply_body ''run.scheduled'' p a = set_both S_RUNNABLE R_RUNNABLE a"
  "sa_apply_body ''run.started'' p a = set_both S_RUNNING R_RUNNING a"
  "sa_apply_body ''session.paused'' p a = set_both S_PAUSED R_PAUSED a"
  "sa_apply_body ''run.retry_scheduled'' p a = set_both S_RETRY_WAIT R_RETRY_WAIT a"
  "sa_apply_body ''run.completed'' p a = apply_run_completed p a"
  "sa_apply_body ''run.failed'' p a =
     Inr (a\<lparr>sa_run_status := Some R_FAILED, sa_status := root_or a S_FAILED\<rparr>)"
  "sa_apply_body ''run.terminated'' p a =
     Inr (a\<lparr>sa_run_status := Some R_FAILED, sa_status := root_or a S_FAILED\<rparr>)"
  "sa_apply_body ''runtime.failed'' p a = set_both S_RETRY_WAIT R_RETRY_WAIT a"
  "sa_apply_body ''runtime.reprovisioned'' p a = set_both S_RUNNABLE R_RUNNABLE a"
  by (simp_all add: sa_apply_body_def)

lemma lifecycle_ok_updates [simp]:
  "lifecycle_ok (a\<lparr>sa_pending := ps\<rparr>) = lifecycle_ok a"
  "lifecycle_ok (a\<lparr>sa_version := v\<rparr>) = lifecycle_ok a"
  "lifecycle_ok (a\<lparr>sa_approval := c\<rparr>) = lifecycle_ok a"
  by (simp_all add: lifecycle_ok_def)

definition keeps_lifecycle :: "string \<Rightarrow> payload \<Rightarrow> session_aggregate \<Rightarrow> bool" where
  "keeps_lifecycle ty p a \<longleftrightarrow>
     (\<forall>c. rall lifecycle_ok (sa_apply_body ty p (a\<lparr>sa_approval := c\<rparr>)))"

lemma sa_apply_lifecycle:
  assumes "keeps_lifecycle ty p a" "sa_apply C ty p a = Inr b"
  shows "lifecycle_ok b"
proof -
  have k: "rall lifecycle_ok (sa_apply_body ty p (a\<lparr>sa_approval := c\<rparr>))" for c
    using assms(1) by (simp add: keeps_lifecycle_def)
  from k [of "sa_approval a"] have "rall lifecycle_ok (sa_apply_body ty p a)" by simp
  then show ?thesis
    using assms(2) k unfolding sa_apply_def by (auto split: if_splits dest: rallD)
qed

lemmas lifecycle_simps =
  keeps_lifecycle_def lifecycle_ok_def set_both_def root_or_def
  run_terminal_def TERMINAL_RUN_STATUSES_def apply_run_completed_def apply_run_requested_def
  apply_session_resumed_def

lemma run_event_keeps_lifecycle:
  "lifecycle_ok a \<Longrightarrow> ty \<in> set RUN_EVENTS \<Longrightarrow> keeps_lifecycle ty p a"
  unfolding RUN_EVENTS_def by (auto simp: lifecycle_simps)

lemma sa_raise_lifecycle:
  "keeps_lifecycle ty p a \<Longrightarrow> sa_raise C ty p a = Inr b \<Longrightarrow> lifecycle_ok b"
  by (auto simp: sa_raise_def dest: sa_apply_lifecycle)

lemma keeps_lifecycle_plain [simp]:
  assumes "lifecycle_ok a"
  shows "keeps_lifecycle ''run.requested'' p a" "keeps_lifecycle ''session.resumed'' p a"
    "keeps_lifecycle ''run.cancelled'' p a"
    "keeps_lifecycle ''session.approval_mode_changed'' p a"
    "keeps_lifecycle ''user.message.appended'' p a"
    "keeps_lifecycle ''human.response.recorded'' p a"
    "keeps_lifecycle ''approval.vote.recorded'' p a"
    "keeps_lifecycle ''approval.delegated'' p a"
    "keeps_lifecycle ''approval.escalated'' p a"
    "keeps_lifecycle ''approval.expired'' p a"
  using assms by (auto simp: lifecycle_simps)

lemmas raise_lifecycle = keeps_lifecycle_plain [THEN sa_raise_lifecycle]

lemma keeps_lifecycle_closed [simp]:
  "lifecycle_ok a \<Longrightarrow> run_terminal (sa_run_status a) \<Longrightarrow> keeps_lifecycle ''session.closed'' p a"
  by (simp add: keeps_lifecycle_def lifecycle_ok_def)

lemma keeps_lifecycle_decision [simp]:
  assumes "lifecycle_ok a"
  shows "keeps_lifecycle (''approval.'' @ d) p a"
proof (cases "d \<in> {''requested'', ''approved'', ''rejected'', ''expired'', ''cancelled''}")
  case True
  then show ?thesis using assms by (auto simp: lifecycle_simps)
next
  case False
  then have "sa_apply_body (''approval.'' @ d) p b = Inr b" for b
    by (simp add: sa_apply_body_def)
  then show ?thesis
    using assms by (auto simp: keeps_lifecycle_def lifecycle_ok_def)
qed

lemma created_lifecycle:
  assumes "sa_status a = None" "sa_run_status a = None"
    and "sa_raise C ''session.created'' (created_payload C r a) a = Inr b"
  shows "lifecycle_ok b"
  using assms
  by (auto simp: sa_raise_def sa_apply_def lifecycle_ok_def
      apply_session_created_def created_payload_def dget_def split: if_splits)

lemma sa_create_lifecycle:
  assumes "lifecycle_ok a" "sa_create C r a = Inr b"
  shows "lifecycle_ok b"
proof -
  let ?a1 = "a\<lparr>sa_dept_id := cr_dept_id r,
    sa_skill_names := fromkeys (case cr_skill_names r of None \<Rightarrow> [] | Some xs \<Rightarrow> xs),
    sa_approval := (case cr_approval r of None \<Rightarrow> default_approval | Some c \<Rightarrow> c)\<rparr>"
  obtain a2 p where cr: "sa_raise C ''session.created'' (created_payload C r ?a1) ?a1 = Inr a2"
    and fin: "sa_raise C ''run.requested'' p a2 = Inr b"
    and none: "sa_status a = None"
    using assms(2) by (auto simp: sa_create_def Let_def)
  have "lifecycle_ok a2"
    by (rule created_lifecycle [OF _ _ cr]) (use assms(1) none in \<open>simp_all add: lifecycle_ok_def\<close>)
  from raise_lifecycle(1) [OF this fin] show ?thesis .
qed

lemma sa_command_lifecycle:
  assumes "lifecycle_ok a" "sa_command C c a = Inr b"
  shows "lifecycle_ok b"
proof (cases c)
  case (Create r)
  then show ?thesis using sa_create_lifecycle assms by simp
next
  case (Request_run rid mode cid fp bu r)
  then show ?thesis
    using assms
    by (auto simp: sa_command_defs split: if_splits dest: raise_lifecycle(1,4) [rotated 1])
next
  case (Human_response i ac d f t)
  obtain a1 where a1: "sa_raise C ''human.response.recorded'' (response_payload i ac d f) a = Inr a1"
    and fin: "sa_raise C (if t then ''approval.'' @ d else ''approval.vote.recorded'')
      (response_payload i ac d f) a1 = Inr b"
    using assms(2) Human_response by (auto simp: sa_command_defs Let_def)
  have "lifecycle_ok a1" using raise_lifecycle(6) [OF assms(1) a1] .
  with keeps_lifecycle_plain(7) keeps_lifecycle_decision
  have "keeps_lifecycle (if t then ''approval.'' @ d else ''approval.vote.recorded'')
      (response_payload i ac d f) a1"
    by presburger
  from sa_raise_lifecycle [OF this fin] show ?thesis .
next
  case (Close reason)
  then show ?thesis
    using assms(2)
    by (auto simp: sa_command_defs dest: sa_raise_lifecycle [OF keeps_lifecycle_closed [OF assms(1)], rotated 1])
qed (use assms(2) in \<open>auto simp: sa_command_defs dest: raise_lifecycle [OF assms(1)]\<close>)

lemma session_step_lifecycle: "lifecycle_ok a \<Longrightarrow> lifecycle_ok (session_step C op a)"
  by (cases op)
     (auto simp: sa_release_pending_events_def split: sum.splits
       dest: sa_command_lifecycle sa_apply_lifecycle [OF run_event_keeps_lifecycle])

interpretation session_life: store_machine "sa_empty sid tid" "session_step C" lifecycle_ok
  for sid tid C
  by unfold_locales (simp add: lifecycle_ok_def sa_empty_def, rule session_step_lifecycle)

text \<open>
  C3: in every history of commands and Run events of a root Session, the Session status and the Run status
  agree: a created Session has no Run, a ready or closed one has only finished Runs, in every other
  state both name the same stage, and the root Session itself never becomes completed, failed or
  cancelled.
\<close>

theorem root_lifecycle_reachable:
  "lifecycle_ok (fold (session_step C) ops (sa_empty sid tid))"
  using session_life.inv_reachable [of C ops] by (simp add: session_life.run_def)

section \<open>Snapshots\<close>

lemma restored_run_status_agrees:
  assumes "statuses_agree (Some s) r"
  shows "restored_run_status s (case r of None \<Rightarrow> PNone | Some x \<Rightarrow> PStr (run_status_value x)) = Inr r"
proof (cases r)
  case None
  with assms have "s = S_CREATED"
    by (cases s) (auto simp: run_terminal_def)
  with None show ?thesis
    by (simp add: restored_run_status_def all_run_status_def py_bool_def)
next
  case (Some x)
  have "run_status_value x \<noteq> []" by (cases x) simp_all
  with Some show ?thesis by (simp add: restored_run_status_def Let_def py_bool_def)
qed

lemma snapshot_restores:
  assumes "codec_ok C" "approval_ok a" "lifecycle_ok a" "sa_pending a = []" "sa_status a \<noteq> None"
  shows "rbind (sa_snapshot_state C a) (\<lambda>st. sa_from_snapshot C st (sa_version a)) = Inr a"
proof -
  obtain s where s: "sa_status a = Some s" using assms(5) by blast
  have "s \<notin> set [S_COMPLETED, S_FAILED, S_CANCELLED]" and role: "sa_role a = ''root''"
    using assms(3) s by (cases s; simp add: lifecycle_ok_def)+
  moreover note restored_run_status_agrees [of s "sa_run_status a"]
  ultimately show ?thesis
    using assms s
    by (cases a) (simp add: sa_snapshot_state_def sa_from_snapshot_def lifecycle_ok_def approval_ok_def
      codec_okD pitem_Cons dget_def pget_def comp_def split: option.split)
qed

definition contiguous_from :: "int \<Rightarrow> canonical_event list \<Rightarrow> bool" where
  "contiguous_from v ces \<longleftrightarrow> map ce_version ces = map (\<lambda>i. v + 1 + int i) [0..<length ces]"

lemma contiguous_from_Cons:
  "contiguous_from v (e # es) \<longleftrightarrow> ce_version e = v + 1 \<and> contiguous_from (v + 1) es"
  unfolding contiguous_from_def
  by (simp add: upt_conv_Cons map_Suc_upt [symmetric] comp_def add.assoc del: upt_Suc)

lemma sa_replay_contiguous:
  "contiguous_from (sa_version a) ces \<Longrightarrow> sa_replay C ces a = rfold (apply_canonical C) ces a"
  unfolding sa_replay_def
proof (induction ces arbitrary: a)
  case (Cons e es)
  have "sa_version b = sa_version a + 1" if "apply_canonical C e a = Inr b" for b
    using that Cons.prems by (auto simp: apply_canonical_def contiguous_from_Cons)
  then show ?case
    using Cons by (auto simp: contiguous_from_Cons intro!: rbind_cong)
qed simp

lemma rebuilt_approval_ok: "codec_ok C \<Longrightarrow> rebuilt C sid tid es a \<Longrightarrow> approval_ok a"
  by (rule rfold_invariant [OF rebuilt_rfold, where P = approval_ok])
     (auto simp: sa_empty_def apply_canonical_def approval_ok_def dest: sa_apply_revision)

lemma snapshot_and_tail:
  assumes "codec_ok C" "rebuilt C sid tid es a" "lifecycle_ok a" "sa_status a \<noteq> None"
    and "contiguous_from (sa_version a) tail"
    and "\<forall>e \<in> set tail. ce_session_id e = sid \<and> ce_tenant_id e = tid"
  shows "rbind (sa_snapshot_state C a) (\<lambda>st. rbind (sa_from_snapshot C st (sa_version a)) (sa_replay C tail)) =
         sa_from_events C (es @ tail)"
proof -
  have "es \<noteq> []" using assms(2,4) by (auto simp: rebuilt_def sa_empty_def)
  moreover have "\<forall>e \<in> set es. ce_session_id e = sid \<and> ce_tenant_id e = tid"
    using assms(2) by (auto simp: rebuilt_def)
  ultimately have "sa_from_events C (es @ tail) = rfold (apply_canonical C) (es @ tail) (sa_empty sid tid)"
    using assms(6) by (intro sa_from_events_rfold) auto
  also have "\<dots> = rfold (apply_canonical C) tail a"
    using rebuilt_rfold [OF assms(2)] by (simp add: rfold_append)
  also have "\<dots> = sa_replay C tail a"
    using sa_replay_contiguous [OF assms(5)] by simp
  finally show ?thesis
    using snapshot_restores [OF assms(1) rebuilt_approval_ok [OF assms(1,2)] assms(3) rebuilt_pending [OF assms(2)] assms(4)]
    by (auto simp: rbind_assoc [symmetric])
qed


section \<open>Approval modes\<close>

lemma run_requested_approval:
  assumes "codec_ok C" "approval_ok a" "sa_raise C ''run.requested'' (run_payload C a rid @ p) a = Inr b"
  shows "sa_approval b = sa_approval a"
  using assms by (auto simp: sa_raise_def sa_apply_def run_payload_keys approval_ok_def codec_okD apply_run_requested_def)


section \<open>A concrete Session\<close>

definition demo_request :: create_request where
  "demo_request = \<lparr>cr_goal = ''report'', cr_run_id = ''r1'', cr_dept_id = Some ''d1'', cr_source = ''api'',
     cr_schedule_id = None, cr_occurrence_id = None,
     cr_approval = Some (approval_resolve NON_STREAMING None), cr_runtime_budget = None,
     cr_read_refresh = None, cr_skill_names = Some [''a'', ''b'', ''a'']\<rparr>"

definition demo_event :: "int \<Rightarrow> new_event \<Rightarrow> canonical_event" where
  "demo_event v e = sample_event ''s1'' None v (ne_type e) (ne_payload e)"

definition demo_created :: session_aggregate where
  "demo_created = (case sa_create json_codec demo_request (sa_empty ''s1'' ''t1'') of Inr a \<Rightarrow> a
                   | Inl _ \<Rightarrow> sa_empty ''s1'' ''t1'')"

definition demo_stored :: "canonical_event list" where
  "demo_stored = map2 demo_event [1, 2] (sa_pending demo_created)"

definition demo_loaded :: session_aggregate where
  "demo_loaded = demo_created\<lparr>sa_pending := [], sa_version := 2\<rparr>"

lemma demo_created_run: "sa_command json_codec (Create demo_request) (sa_empty ''s1'' ''t1'') = Inr demo_created"
  by code_simp

lemma demo_created_facts:
  "stored_as (sa_empty ''s1'' ''t1'') (sa_pending demo_created) demo_stored"
  "\<forall>e \<in> set demo_stored. ce_session_id e = ''s1'' \<and> ce_tenant_id e = ''t1''"
  "rebuilt json_codec ''s1'' ''t1'' demo_stored demo_loaded"
  by code_simp+

theorem commands_sound_for_replay_witness:
  "rebuilt json_codec ''s1'' ''t1'' ([] @ demo_stored)
     (demo_created\<lparr>sa_pending := [], sa_version := sa_version (sa_empty ''s1'' ''t1'') + int (length demo_stored)\<rparr>)"
  by (rule commands_sound_for_replay [OF _ demo_created_run demo_created_facts(1,2)]) (simp add: rebuilt_def)

theorem command_accepted_iff_enabled_witness:
  "(\<exists>a'. sa_command json_codec (Cancel ''stop'') demo_loaded = Inr a') \<and>
   \<not> (\<exists>a'. sa_command json_codec (Close ''bye'') demo_loaded = Inr a')"
proof -
  have ok: "approval_ok demo_loaded" "command_ok (Cancel ''stop'')" "command_ok (Close ''bye'')"
    and en: "command_enabled (Cancel ''stop'') demo_loaded" "\<not> command_enabled (Close ''bye'') demo_loaded"
    by code_simp+
  show ?thesis
    using command_accepted_iff_enabled [OF json_codec_ok ok(1,2)]
      command_accepted_iff_enabled [OF json_codec_ok ok(1,3)] en by blast
qed


definition demo_paused :: session_aggregate where
  "demo_paused = demo_loaded\<lparr>sa_status := Some S_PAUSED, sa_run_status := Some R_PAUSED\<rparr>"


section \<open>A child Session is not restored as it was\<close>

definition demo_child :: session_aggregate where
  "demo_child = demo_loaded\<lparr>sa_role := ''researcher'', sa_status := Some S_RUNNABLE, sa_run_status := None\<rparr>"

lemma child_snapshot_invents_run_status:
  "rbind (sa_snapshot_state json_codec demo_child) (\<lambda>st. sa_from_snapshot json_codec st 2) =
   Inr (demo_child\<lparr>sa_run_status := Some R_RUNNABLE\<rparr>)"
  by code_simp

end
