(* ===== verification/Runtime_Budget.thy ===== *)
theory Runtime_Budget
  imports Contracts
begin

text \<open>
  Reservation and task-tree admission (\<open>domain/runtime_budget.py\<close>). \<open>usage\<close> folds the events of a Run
  into what it has consumed and reserved; \<open>govern\<close> runs inside the event store's transaction and
  decides whether a batch of events may be appended.

  A dictionary whose keys are payload values compares its keys with Python's \<open>==\<close>; a list or a
  dictionary is not hashable and raises as a key.
\<close>

section \<open>Dictionaries with arbitrary keys\<close>

type_synonym 'v vdict = "(pyval \<times> 'v) list"

definition hashable :: "pyval \<Rightarrow> bool" where
  "hashable v = (case v of PList _ \<Rightarrow> False | PDict _ \<Rightarrow> False | _ \<Rightarrow> True)"

fun vlookup :: "pyval \<Rightarrow> 'v vdict \<Rightarrow> 'v option" where
  "vlookup k [] = None"
| "vlookup k ((k', v) # d) = (if py_eq k' k then Some v else vlookup k d)"

fun vput :: "pyval \<Rightarrow> 'v \<Rightarrow> 'v vdict \<Rightarrow> 'v vdict" where
  "vput k v [] = [(k, v)]"
| "vput k v ((k', v') # d) = (if py_eq k' k then (k', v) # d else (k', v') # vput k v d)"

definition vmember :: "pyval \<Rightarrow> pyval list \<Rightarrow> bool" where
  "vmember k ks = list_ex (\<lambda>k'. py_eq k' k) ks"

definition vset :: "pyval \<Rightarrow> 'v \<Rightarrow> 'v vdict \<Rightarrow> 'v vdict result" where
  \<comment> \<open>\<open>d[k] = v\<close>\<close>
  "vset k v d = raise_if (\<not> hashable k) (TypeError ''unhashable type'') (Inr (vput k v d))"

section \<open>Usage\<close>

definition RESERVATION :: string where
  "RESERVATION = ''runtime.budget.reserved''"

definition PROGRESS :: string where
  "PROGRESS = ''runtime.progress.recorded''"

definition collect_step ::
  "(canonical_event \<Rightarrow> bool) \<Rightarrow> string \<Rightarrow> (payload \<Rightarrow> 'v) \<Rightarrow> canonical_event \<Rightarrow> 'v vdict \<Rightarrow> 'v vdict result" where
  "collect_step sel k f e d =
     (if sel e then rbind (pitem (ce_payload e) k) (\<lambda>key. vset key (f (ce_payload e)) d) else Inr d)"

definition collect ::
  "(canonical_event \<Rightarrow> bool) \<Rightarrow> string \<Rightarrow> (payload \<Rightarrow> 'v) \<Rightarrow> canonical_event list \<Rightarrow> 'v vdict result" where
  \<comment> \<open>\<open>{e.payload[k]: f(e.payload) for e in events if sel(e)}\<close>\<close>
  "collect sel k f events = rfold (collect_step sel k f) events []"

definition of_run :: "string option \<Rightarrow> string \<Rightarrow> canonical_event \<Rightarrow> bool" where
  "of_run run_id ty e \<longleftrightarrow> ce_run_id e = run_id \<and> ce_type e = ty"

definition py_contains :: "string \<Rightarrow> pyval \<Rightarrow> bool result" where
  \<comment> \<open>\<open>s in v\<close>\<close>
  "py_contains s v =
     (case v of
        PDict d \<Rightarrow> Inr (phas d s)
      | PList xs \<Rightarrow> Inr (vmember (PStr s) xs)
      | PStr t \<Rightarrow> Inr (sublist s t)
      | _ \<Rightarrow> Inl (TypeError ''argument is not iterable''))"

definition keys_of_kind :: "string \<Rightarrow> payload vdict \<Rightarrow> pyval list result" where
  \<comment> \<open>\<open>{k for k, v in reservations.items() if v["kind"] == kind}\<close>\<close>
  "keys_of_kind kind d =
     rbind (rmap (\<lambda>(k, v). rbind (pitem v ''kind'') (\<lambda>x. Inr (k, x = PStr kind))) d) (\<lambda>ks.
       Inr (map fst (filter snd ks)))"

definition vunion :: "pyval list \<Rightarrow> pyval list \<Rightarrow> pyval list" where
  "vunion xs ys = xs @ filter (\<lambda>y. \<not> vmember y xs) ys"

definition usage_of :: "payload \<Rightarrow> pyval" where
  \<comment> \<open>\<open>m.get("usage", {})\<close>\<close>
  "usage_of m = dget m ''usage'' (PDict [])"

definition model_output :: "payload \<Rightarrow> int result" where
  "model_output m = rbind (py_get (usage_of m) ''output_tokens'' (PInt 0)) py_int"

definition outstanding_of :: "payload vdict \<Rightarrow> pyval \<times> payload \<Rightarrow> int result" where
  "outstanding_of models kv =
     (case kv of (k, v) \<Rightarrow>
        rbind (pitem v ''kind'') (\<lambda>kind.
          if kind = PStr ''model'' then
            rbind (py_contains ''output_tokens''
                     (usage_of (case vlookup k models of Some m \<Rightarrow> m | None \<Rightarrow> []))) (\<lambda>known.
              if known then Inr 0 else py_int (dget v ''output_tokens'' (PInt 0)))
          else Inr 0))"

definition dispatched :: "pyval \<Rightarrow> bool result" where
  "dispatched r = rbind (py_get r ''metadata'' (PDict [])) (\<lambda>m.
     rbind (py_get m ''dispatch_started'' PNone) (\<lambda>x. Inr (x = PBool True)))"

definition suppressed :: "pyval \<Rightarrow> bool result" where
  "suppressed r = rbind (py_get r ''error_code'' PNone) (\<lambda>x. Inr (x = PStr ''tool_repeat_suppressed''))"

definition count_true :: "bool list \<Rightarrow> int" where
  "count_true bs = int (length (filter id bs))"

record run_usage =
  ru_steps_used :: int
  ru_model_turns :: int
  ru_tool_attempts :: int
  ru_output_tokens :: int
  ru_output_tokens_reserved :: int
  ru_tool_dispatches :: int
  ru_cost :: "pyfloat option"
  ru_suppressed_attempts :: int

definition cost_of :: "payload list \<Rightarrow> pyfloat option result" where
  "cost_of models =
     rbind (rmap (\<lambda>m. py_get (usage_of m) ''cost'' PNone) models) (\<lambda>costs.
       if costs \<noteq> [] \<and> PNone \<notin> set costs
       then rbind (rmap py_float costs) (\<lambda>fs. Inr (Some (f_sum fs))) else Inr None)"

definition usage_from ::
  "payload vdict \<Rightarrow> payload vdict \<Rightarrow> pyval vdict \<Rightarrow> run_usage result" where
  "usage_from reservations models tools =
     rbind (keys_of_kind ''model'' reservations) (\<lambda>model_keys.
     rbind (keys_of_kind ''tool'' reservations) (\<lambda>tool_ids.
     rbind (rmap model_output (map snd models)) (\<lambda>outs.
     rbind (rmap (outstanding_of models) reservations) (\<lambda>reserved.
     rbind (rmap dispatched (map snd tools)) (\<lambda>ds.
     rbind (cost_of (map snd models)) (\<lambda>cost.
     rbind (rmap suppressed (map snd tools)) (\<lambda>ss.
       let model_ids = vunion model_keys (map fst models) in
       Inr \<lparr>ru_steps_used = int (length model_ids) + int (length tool_ids),
            ru_model_turns = int (length model_ids), ru_tool_attempts = int (length tool_ids),
            ru_output_tokens = sum_list outs, ru_output_tokens_reserved = sum_list reserved,
            ru_tool_dispatches = count_true ds, ru_cost = cost,
            ru_suppressed_attempts = count_true ss\<rparr>)))))))"

definition usage :: "canonical_event list \<Rightarrow> string \<Rightarrow> run_usage result" where
  "usage events run_id =
     rbind (collect (of_run (Some run_id) RESERVATION) ''reservation_id'' id events) (\<lambda>reservations.
     rbind (collect (of_run (Some run_id) ''model.turn.completed'') ''model_call_id'' id events) (\<lambda>models.
     rbind (collect (of_run (Some run_id) ''tool.call.completed'') ''tool_invocation_id''
              (\<lambda>p. dget p ''result'' (PDict [])) events) (\<lambda>tools.
       usage_from reservations models tools)))"

section \<open>Budgets\<close>

type_synonym budgets = "(string, payload) dict"

definition run_budgets :: "canonical_event list \<Rightarrow> budgets result" where
  "run_budgets events =
     rfold (\<lambda>e d. if ce_type e = ''run.requested'' \<and> is_dict (pget (ce_payload e) ''budget'')
                  then rbind (pitem (ce_payload e) ''run_id'') (\<lambda>rid.
                       rbind (pitem (ce_payload e) ''budget'') (\<lambda>b. rbind (py_dict b) (\<lambda>b'.
                         Inr (AList.update (py_str rid) b' d))))
                  else Inr d) events []"

definition str_run :: "string option \<Rightarrow> string" where
  \<comment> \<open>\<open>str(run_id)\<close>\<close>
  "str_run r = (case r of None \<Rightarrow> ''None'' | Some s \<Rightarrow> s)"

definition governed_child ::
  "canonical_event list \<Rightarrow> new_event list \<Rightarrow> string \<Rightarrow> string \<Rightarrow> payload option" where
  \<comment> \<open>the payload of the \<open>child.created\<close> event that governs the batch, if any\<close>
  "governed_child existing proposed session_id root_session_id =
     (case find (\<lambda>e. ne_type e = ''child.created'') proposed of
        Some c \<Rightarrow> Some (ne_payload c)
      | None \<Rightarrow>
          if session_id \<noteq> root_session_id then
            (case find (\<lambda>e. ne_type e = ''run.requested'') proposed of
               None \<Rightarrow> None
             | Some requested \<Rightarrow>
                 (case find (\<lambda>e. ce_session_id e = session_id \<and> ce_type e = ''child.created'') existing of
                    None \<Rightarrow> None
                  | Some original \<Rightarrow> Some (dmerge (ce_payload original)
                      [(''runtime_budget'', dget (ne_payload requested) ''budget'' (PDict []))])))
          else None)"

definition parent_run_of :: "canonical_event list \<Rightarrow> string \<Rightarrow> pyval result" where
  "parent_run_of existing parent =
     (case find (\<lambda>e. ce_session_id e = parent \<and> ce_type e = ''run.requested'') (rev existing) of
        None \<Rightarrow> Inr PNone | Some e \<Rightarrow> pitem (ce_payload e) ''run_id'')"

definition tree_default :: "string \<Rightarrow> int" where
  "tree_default key = (if key = ''max_steps'' then 480 else 81920)"

definition run_default :: "string \<Rightarrow> int" where
  "run_default key = (if key = ''max_steps'' then 48 else 8192)"

definition allocated :: "payload list \<Rightarrow> string \<Rightarrow> int result" where
  \<comment> \<open>\<open>sum(int(b.get(key, ...)) for b in allocations)\<close>\<close>
  "allocated allocations key =
     rbind (rmap (\<lambda>b. py_int (dget b key (PInt (run_default key)))) allocations) (\<lambda>xs. Inr (sum_list xs))"

definition allocate ::
  "payload \<Rightarrow> payload list \<Rightarrow> payload \<Rightarrow> string \<Rightarrow> unit result" where
  "allocate root_budget allocations configured key =
     (case pget configured key of
        PInt value \<Rightarrow>
          raise_if (value < 1)
            (CollaborationValidationError (''child '' @ key @ '' must be a positive integer''))
          (rbind (allocated allocations key) (\<lambda>used.
           rbind (py_int (dget root_budget (''tree_'' @ key) (PInt (tree_default key)))) (\<lambda>limit.
             raise_if (limit < used + value)
               (CollaborationValidationError (''root task tree '' @ key @ '' allocation exhausted''))
               (Inr ()))))
      | _ \<Rightarrow> Inl (CollaborationValidationError (''child '' @ key @ '' must be a positive integer'')))"

definition cost_error :: "unit result" where
  "cost_error = Inl (CollaborationValidationError ''cost-limited tree requires child cost limits'')"

definition allocate_cost :: "payload \<Rightarrow> payload list \<Rightarrow> payload \<Rightarrow> unit result" where
  "allocate_cost root_budget allocations configured =
     (if pget root_budget ''tree_max_cost'' = PNone then Inr ()
      else if pget configured ''max_cost'' = PNone then cost_error
      else rbind (py_float (pget configured ''max_cost'')) (\<lambda>amount.
        if \<not> f_isfinite amount \<or> f_le amount (Fin 0) \<or>
           list_ex (\<lambda>b. pget b ''max_cost'' = PNone) allocations
        then cost_error
        else rbind (rmap (\<lambda>b. rbind (pitem b ''max_cost'') py_float) allocations) (\<lambda>costs.
          rbind (py_float (pget root_budget ''tree_max_cost'')) (\<lambda>limit.
            raise_if (f_lt limit (f_add (f_sum costs) amount))
              (CollaborationValidationError ''root task tree cost allocation exhausted'') (Inr ())))))"

definition configure_child :: "payload \<Rightarrow> string \<Rightarrow> payload" where
  \<comment> \<open>defaults, the requested budget, the inherited scope; the tree limits cannot be set by a child\<close>
  "configure_child requested scope =
     AList.delete ''tree_max_cost'' (AList.delete ''tree_max_output_tokens''
       (AList.delete ''tree_max_steps''
         (dmerge (dmerge [(''max_steps'', PInt 48), (''max_output_tokens'', PInt 8192)] requested)
            [(''policy_version'', PStr ''2''), (''scope_id'', PStr scope)])))"

definition with_budget :: "payload \<Rightarrow> new_event \<Rightarrow> new_event" where
  "with_budget configured e =
     e\<lparr>ne_payload := dmerge (ne_payload e)
        (if ne_type e = ''child.created'' then [(''runtime_budget'', PDict configured)]
         else if ne_type e = ''run.requested'' then [(''budget'', PDict configured)] else [])\<rparr>"

definition scope_allocations :: "budgets \<Rightarrow> string \<Rightarrow> payload list" where
  "scope_allocations budgets scope =
     map snd (filter (\<lambda>(k, b). dget b ''scope_id'' (PStr k) = PStr scope) budgets)"

definition child_budget ::
  "budgets \<Rightarrow> canonical_event list \<Rightarrow> payload \<Rightarrow> string \<Rightarrow> payload option result" where
  \<comment> \<open>the budget a child is given; \<open>None\<close> when its parent's Run has no version 2 policy\<close>
  "child_budget budgets existing child root_session_id =
     rbind (parent_run_of existing
              (py_str (dget child ''parent_session_id'' (PStr root_session_id)))) (\<lambda>parent_run.
       let inherited = dget budgets (py_str parent_run) [] in
       if pget inherited ''policy_version'' = PStr ''2'' then
         rbind (py_dict (dget child ''runtime_budget'' (PDict []))) (\<lambda>requested.
           let scope = py_str (dget inherited ''scope_id'' parent_run);
               root_budget = dget budgets scope inherited;
               configured = configure_child requested scope;
               allocations = scope_allocations budgets scope
           in rbind (allocate root_budget allocations configured ''max_steps'') (\<lambda>_.
              rbind (allocate root_budget allocations configured ''max_output_tokens'') (\<lambda>_.
              rbind (allocate_cost root_budget allocations configured) (\<lambda>_.
                Inr (Some configured)))))
       else Inr None)"

section \<open>Admission of reservations\<close>

record admission =
  ad_steps :: int
  ad_reserved :: int
  ad_prior :: "payload vdict"

definition token_count :: "payload \<Rightarrow> int result" where
  "token_count p =
     (case dget p ''output_tokens'' (PInt 0) of
        PInt t \<Rightarrow> raise_if (t < 0) (CollaborationValidationError ''invalid token reservation'') (Inr t)
      | _ \<Rightarrow> Inl (CollaborationValidationError ''invalid token reservation''))"

definition admit_new :: "payload \<Rightarrow> int \<Rightarrow> payload \<Rightarrow> string \<Rightarrow> admission \<Rightarrow> admission result" where
  "admit_new budget output p key s =
     raise_if (\<not> hashable (pget p ''kind'')) (TypeError ''unhashable type'')
     (raise_if (pget p ''kind'' \<noteq> PStr ''model'' \<and> pget p ''kind'' \<noteq> PStr ''tool'')
        (CollaborationValidationError ''unsupported reservation kind'')
     (rbind (token_count p) (\<lambda>tokens.
      rbind (py_int (dget budget ''max_steps'' (PInt 48))) (\<lambda>max_steps.
      raise_if (max_steps < ad_steps s + 1)
        (RuntimeStepBudgetExceededError ''persisted step reservations exhausted'')
      (rbind (py_int (dget budget ''max_output_tokens'' (PInt 8192))) (\<lambda>max_tokens.
       raise_if (max_tokens < output + ad_reserved s + tokens)
         (RuntimeOutputTokenBudgetExceededError ''persisted output reservations exhausted'')
       (Inr \<lparr>ad_steps = ad_steps s + 1, ad_reserved = ad_reserved s + tokens,
             ad_prior = vput (PStr key) p (ad_prior s)\<rparr>)))))))"

definition admit :: "payload \<Rightarrow> int \<Rightarrow> new_event \<Rightarrow> admission \<Rightarrow> admission result" where
  "admit budget output e s =
     (if ne_type e \<noteq> RESERVATION then Inr s
      else rbind (pitem (ne_payload e) ''reservation_id'') (\<lambda>rid.
        case vlookup (PStr (py_str rid)) (ad_prior s) of
          Some old \<Rightarrow>
            raise_if (\<not> py_eq (PDict old) (PDict (ne_payload e)))
              (VersionConflictError ''reservation identity reused with different allocation'') (Inr s)
        | None \<Rightarrow> admit_new budget output (ne_payload e) (py_str rid) s))"

definition govern ::
  "canonical_event list \<Rightarrow> new_event list \<Rightarrow> string \<Rightarrow> string \<Rightarrow> string option \<Rightarrow> new_event list result" where
  "govern existing proposed session_id root_session_id run_id =
     rbind (run_budgets existing) (\<lambda>budgets.
     rbind (case governed_child existing proposed session_id root_session_id of
              None \<Rightarrow> Inr proposed
            | Some child \<Rightarrow>
                rbind (child_budget budgets existing child root_session_id) (\<lambda>configured.
                  Inr (case configured of None \<Rightarrow> proposed | Some c \<Rightarrow> map (with_budget c) proposed)))
       (\<lambda>result.
         let budget = dget budgets (str_run run_id) [] in
         if pget budget ''policy_version'' \<noteq> PStr ''2'' then Inr result
         else rbind (usage existing (str_run run_id)) (\<lambda>used.
              rbind (collect (of_run run_id RESERVATION) ''reservation_id'' id existing) (\<lambda>prior.
              rbind (rfold (admit budget (ru_output_tokens used)) result
                       \<lparr>ad_steps = ru_steps_used used, ad_reserved = ru_output_tokens_reserved used,
                        ad_prior = prior\<rparr>) (\<lambda>_. Inr result)))))"

end
