(* ===== verification/Budget_Laws.thy ===== *)
theory Budget_Laws
  imports Runtime_Budget
begin

text \<open>
  The laws of reservation and task-tree admission: what \<open>govern\<close> lets through keeps the recomputed
  usage of a Run within its budget, and the allocations of a task tree within the root's limits.
\<close>

section \<open>What usage depends on\<close>

lemma py_eq_PStr_right: "py_eq v (PStr s) \<longleftrightarrow> v = PStr s"
  by (cases v) (auto simp: py_num_def)

lemma trunc_of_int [simp]: "trunc_rat (of_int i) = i"
  by (simp add: trunc_rat_def)

lemma f_eq_trunc: "f_eq a b \<Longrightarrow> py_int (PFloat a) = py_int (PFloat b)"
  by (cases a; cases b) (auto simp: f_eq_def py_int_def)

lemma py_int_num: "py_num v = Some f \<Longrightarrow> py_int v = py_int (PFloat f)"
  by (cases v) (auto simp: py_num_def py_int_def trunc_rat_def)

lemma py_eq_py_int: "py_eq v w \<Longrightarrow> py_int v = py_int w"
proof (cases "py_num v")
  case None
  then show "py_eq v w \<Longrightarrow> py_int v = py_int w"
    by (cases v; cases w) (auto simp: py_num_def py_int_def)
next
  case (Some f)
  then have "py_eq v w = (case py_num w of Some g \<Rightarrow> f_eq f g | None \<Rightarrow> False)"
    by (cases v) (simp_all add: py_num_def split: option.split)
  then show "py_eq v w \<Longrightarrow> py_int v = py_int w"
    using Some by (auto simp: py_int_num f_eq_trunc split: option.splits)
qed

lemma py_eq_dict_lookup:
  assumes "py_eq (PDict d) (PDict e)" "distinct (dkeys d)" "distinct (dkeys e)"
  shows "rel_option py_eq (map_of d k) (map_of e k)"
proof -
  have len: "length d = length e"
    and ent: "\<And>k v. (k, v) \<in> set d \<Longrightarrow> \<exists>w. map_of e k = Some w \<and> py_eq v w"
    using assms(1) by (auto simp: list_all_iff split: option.splits)
  have "set (dkeys d) \<subseteq> set (dkeys e)"
    using ent by (force dest: map_of_SomeD)
  then have keys: "set (dkeys d) = set (dkeys e)"
    using len distinct_card [OF assms(2)] distinct_card [OF assms(3)] by (intro card_subset_eq) auto
  show ?thesis
  proof (cases "map_of d k")
    case None
    then have "map_of e k = None" using keys by (simp add: map_of_None_dkeys)
    with None show ?thesis by simp
  next
    case (Some v)
    then obtain w where "map_of e k = Some w" "py_eq v w" using ent map_of_SomeD by metis
    with Some show ?thesis by simp
  qed
qed

definition kind_class :: "payload \<Rightarrow> (bool \<times> bool) option" where
  "kind_class v = map_option (\<lambda>x. (x = PStr ''model'', x = PStr ''tool'')) (map_of v ''kind'')"

definition entry_class :: "pyval \<times> payload \<Rightarrow> pyval \<times> (bool \<times> bool) option \<times> int result" where
  "entry_class kv = (fst kv, kind_class (snd kv), py_int (dget (snd kv) ''output_tokens'' (PInt 0)))"

lemma py_eq_entry_class:
  assumes "py_eq (PDict p) (PDict q)" "distinct (dkeys p)" "distinct (dkeys q)"
  shows "kind_class p = kind_class q"
    and "py_int (dget p ''output_tokens'' (PInt 0)) = py_int (dget q ''output_tokens'' (PInt 0))"
proof -
  show "kind_class p = kind_class q"
    using py_eq_dict_lookup [OF assms, of "''kind''"]
    by (cases "map_of p ''kind''"; cases "map_of q ''kind''")
       (auto simp: kind_class_def py_eq_PStr_right)
  show "py_int (dget p ''output_tokens'' (PInt 0)) = py_int (dget q ''output_tokens'' (PInt 0))"
    using py_eq_dict_lookup [OF assms, of "''output_tokens''"]
    by (cases "map_of p ''output_tokens''"; cases "map_of q ''output_tokens''")
       (auto simp: dget_def dest: py_eq_py_int)
qed

lemma rmap_via: "(\<And>x. x \<in> set xs \<Longrightarrow> f x = g (h x)) \<Longrightarrow> rmap f xs = rmap g (map h xs)"
  by (induction xs) auto

definition class_is_kind :: "string \<Rightarrow> pyval \<times> (bool \<times> bool) option \<times> int result \<Rightarrow> (pyval \<times> bool) result" where
  "class_is_kind kind c = (case fst (snd c) of None \<Rightarrow> Inl (KeyError ''kind'')
     | Some (m, t) \<Rightarrow> Inr (fst c, if kind = ''model'' then m else t))"

lemma keys_of_kind_class:
  assumes "kind = ''model'' \<or> kind = ''tool''"
  shows "keys_of_kind kind d =
    rbind (rmap (class_is_kind kind) (map entry_class d)) (\<lambda>ks. Inr (map fst (filter snd ks)))"
proof -
  have "(case kv of (k, v) \<Rightarrow> rbind (pitem v ''kind'') (\<lambda>x. Inr (k, x = PStr kind))) = class_is_kind kind (entry_class kv)"
    for kv
    using assms by (auto simp: class_is_kind_def entry_class_def kind_class_def pitem_def split: prod.splits option.splits)
  then show ?thesis
    unfolding keys_of_kind_def using rmap_via [where h = entry_class and xs = d] by metis
qed

definition class_outstanding ::
  "payload vdict \<Rightarrow> pyval \<times> (bool \<times> bool) option \<times> int result \<Rightarrow> int result" where
  "class_outstanding models c = (case fst (snd c) of None \<Rightarrow> Inl (KeyError ''kind'')
     | Some (m, t) \<Rightarrow>
         if m then rbind (py_contains ''output_tokens''
                     (usage_of (case vlookup (fst c) models of Some m \<Rightarrow> m | None \<Rightarrow> []))) (\<lambda>known.
                     if known then Inr 0 else snd (snd c))
         else Inr 0)"

lemma outstanding_class: "outstanding_of models kv = class_outstanding models (entry_class kv)"
  by (auto simp: outstanding_of_def class_outstanding_def entry_class_def kind_class_def pitem_def
      split: prod.splits option.splits cong: if_cong)

lemma usage_from_class:
  assumes "map entry_class d = map entry_class d'"
  shows "usage_from d models tools = usage_from d' models tools"
proof -
  have "rmap (outstanding_of models) xs = rmap (class_outstanding models) (map entry_class xs)" for xs
    by (rule rmap_via) (rule outstanding_class)
  then show ?thesis
    unfolding usage_from_def using assms by (simp add: keys_of_kind_class)
qed

section \<open>One more reservation\<close>

lemma rmap_append: "rmap f (xs @ ys) = rbind (rmap f xs) (\<lambda>as. rbind (rmap f ys) (\<lambda>bs. Inr (as @ bs)))"
proof (induction xs)
  case Nil
  show ?case by (cases "rmap f ys") simp_all
next
  case (Cons x xs)
  then show ?case
    by (cases "f x"; cases "rmap f xs"; cases "rmap f ys") simp_all
qed

lemma vput_fresh: "vlookup k d = None \<Longrightarrow> vput k v d = d @ [(k, v)]"
  by (induction k d rule: vlookup.induct) (auto split: if_splits)

lemma keys_of_kind_snoc:
  "keys_of_kind kind d = Inr ks \<Longrightarrow> pitem p ''kind'' = Inr x \<Longrightarrow>
   keys_of_kind kind (d @ [(k, p)]) = Inr (ks @ (if x = PStr kind then [k] else []))"
  by (auto simp: keys_of_kind_def rmap_append)

lemma vunion_snoc_length:
  "length (vunion (xs @ [k]) ys) \<le> length (vunion xs ys) + 1"
proof -
  have "length (filter (\<lambda>y. \<not> vmember y (xs @ [k])) ys) \<le> length (filter (\<lambda>y. \<not> vmember y xs) ys)"
    by (induction ys) (auto simp: vmember_def)
  then show ?thesis by (simp add: vunion_def)
qed

lemma rmap_Inr_mem: "rmap f xs = Inr ys \<Longrightarrow> x \<in> set xs \<Longrightarrow> \<exists>y. f x = Inr y"
  by (induction xs arbitrary: ys) auto

lemma vlookup_in: "vlookup k d = Some v \<Longrightarrow> v \<in> set (map snd d)"
  by (induction k d rule: vlookup.induct) (auto split: if_splits)

lemma py_get_Inr: "py_get v k x = Inr y \<Longrightarrow> \<exists>d. v = PDict d"
  by (cases v) (simp_all add: py_get_def)

lemma outstanding_new:
  assumes "rmap model_output (map snd models) = Inr outs" "pitem p ''kind'' = Inr x"
    and "py_int (dget p ''output_tokens'' (PInt 0)) = Inr t" "0 \<le> t"
  shows "\<exists>r. outstanding_of models (k, p) = Inr r \<and> r \<le> t"
proof -
  define m where "m = (case vlookup k models of Some m \<Rightarrow> m | None \<Rightarrow> [])"
  have "\<exists>b. py_contains ''output_tokens'' (usage_of m) = Inr b"
  proof (cases "vlookup k models")
    case None
    then show ?thesis by (simp add: m_def usage_of_def dget_def py_contains_def)
  next
    case (Some m')
    then have "\<exists>y. model_output m' = Inr y"
      using rmap_Inr_mem [OF assms(1) vlookup_in] by simp
    then obtain d where "usage_of m' = PDict d"
      by (auto simp: model_output_def dest: py_get_Inr)
    then show ?thesis
      using Some by (simp add: m_def py_contains_def)
  qed
  then obtain b where "py_contains ''output_tokens'' (usage_of m) = Inr b" ..
  then show ?thesis
    using assms(2-4) unfolding outstanding_of_def m_def by simp
qed

lemma usage_from_snoc:
  assumes u: "usage_from d models tools = Inr u"
    and k: "pitem p ''kind'' = Inr x" "x = PStr ''model'' \<or> x = PStr ''tool''"
    and t: "py_int (dget p ''output_tokens'' (PInt 0)) = Inr t" "0 \<le> t"
  shows "\<exists>u'. usage_from (d @ [(k, p)]) models tools = Inr u' \<and>
    ru_steps_used u' \<le> ru_steps_used u + 1 \<and> ru_output_tokens u' = ru_output_tokens u \<and>
    ru_output_tokens_reserved u' \<le> ru_output_tokens_reserved u + t"
proof -
  obtain mk tk outs rs ds c ss where
    parts: "keys_of_kind ''model'' d = Inr mk" "keys_of_kind ''tool'' d = Inr tk"
      "rmap model_output (map snd models) = Inr outs" "rmap (outstanding_of models) d = Inr rs"
      "rmap dispatched (map snd tools) = Inr ds" "cost_of (map snd models) = Inr c"
      "rmap suppressed (map snd tools) = Inr ss"
    and u_eq: "u = \<lparr>ru_steps_used = int (length (vunion mk (map fst models))) + int (length tk),
            ru_model_turns = int (length (vunion mk (map fst models))), ru_tool_attempts = int (length tk),
            ru_output_tokens = sum_list outs, ru_output_tokens_reserved = sum_list rs,
            ru_tool_dispatches = count_true ds, ru_cost = c, ru_suppressed_attempts = count_true ss\<rparr>"
    using u by (auto simp: usage_from_def Let_def)
  obtain r where r: "outstanding_of models (k, p) = Inr r" "r \<le> t"
    using outstanding_new [OF parts(3) k(1) t] by blast
  have len: "length (vunion (mk @ (if x = PStr ''model'' then [k] else [])) (map fst models)) +
      length (tk @ (if x = PStr ''tool'' then [k] else [])) \<le> length (vunion mk (map fst models)) + length tk + 1"
    using k(2) vunion_snoc_length [of mk k "map fst models"] by auto
  show ?thesis
    unfolding usage_from_def
    using keys_of_kind_snoc [OF parts(1) k(1)] keys_of_kind_snoc [OF parts(2) k(1)] parts r len
    by (auto simp: rmap_append Let_def u_eq)
qed

section \<open>Admission keeps the reservations within the budget\<close>

lemma vlookup_None_iff: "vlookup k d = None \<longleftrightarrow> \<not> vmember k (map fst d)"
  by (induction k d rule: vlookup.induct) (auto simp: vmember_def)

lemma entry_class_keys: "map entry_class d = map entry_class d' \<Longrightarrow> map fst d = map fst d'"
  by (drule arg_cong [where f = "map fst"]) (simp add: entry_class_def comp_def)

lemma entry_class_fresh:
  "map entry_class d = map entry_class d' \<Longrightarrow> vlookup k d = None \<Longrightarrow> vlookup k d' = None"
  by (auto simp: vlookup_None_iff dest: entry_class_keys)

lemma entry_class_replace:
  assumes "map entry_class d = map entry_class d'" "vlookup k d = Some old"
    and "\<And>k'. entry_class (k', new) = entry_class (k', old)"
  shows "map entry_class (vput k new d') = map entry_class d"
  using assms
proof (induction d' arbitrary: d)
  case (Cons kv d')
  obtain kv1 d1 where d: "d = kv1 # d1" and cls: "entry_class kv1 = entry_class kv"
      "map entry_class d1 = map entry_class d'"
    using Cons.prems(1) by (cases d) auto
  obtain k1 v1 v where kv: "kv1 = (k1, v1)" "kv = (k1, v)"
    using cls(1) by (cases kv1, cases kv) (simp add: entry_class_def)
  show ?case
    using Cons.IH [OF cls(2)] Cons.prems d kv cls by (auto split: if_splits)
qed simp

definition reserve_step :: "string \<Rightarrow> canonical_event \<Rightarrow> payload vdict \<Rightarrow> payload vdict result" where
  "reserve_step rid c R = collect_step (of_run (Some rid) RESERVATION) ''reservation_id'' id c R"

definition reservation_ok :: "payload \<Rightarrow> bool" where
  \<comment> \<open>a dictionary, identified by a string\<close>
  "reservation_ok p \<longleftrightarrow> distinct (dkeys p) \<and> (\<exists>s. map_of p ''reservation_id'' = Some (PStr s))"

definition stored_reservations :: "string \<Rightarrow> new_event list \<Rightarrow> canonical_event list \<Rightarrow> bool" where
  "stored_reservations rid evs ces \<longleftrightarrow>
     list_all2 (\<lambda>e c. ce_type c = ne_type e \<and> ce_payload c = ne_payload e \<and> ce_run_id c = Some rid) evs ces"

lemma token_count_int: "token_count p = Inr t \<Longrightarrow> py_int (dget p ''output_tokens'' (PInt 0)) = Inr t \<and> 0 \<le> t"
  by (auto simp: token_count_def split: pyval.splits)

lemma admit_new_usage:
  assumes "admit_new budget out p key s = Inr s'" "vlookup (PStr key) R = None"
    and "usage_from R models tools = Inr u" "ru_output_tokens u = out"
    and "ru_steps_used u \<le> ad_steps s" "ru_output_tokens_reserved u \<le> ad_reserved s"
  shows "\<exists>u'. usage_from (vput (PStr key) p R) models tools = Inr u' \<and> ru_output_tokens u' = out \<and>
     ru_steps_used u' \<le> ad_steps s' \<and> ru_output_tokens_reserved u' \<le> ad_reserved s'"
proof -
  obtain t where t: "token_count p = Inr t" and s': "s' = \<lparr>ad_steps = ad_steps s + 1,
      ad_reserved = ad_reserved s + t, ad_prior = vput (PStr key) p (ad_prior s)\<rparr>"
    and kind: "pget p ''kind'' = PStr ''model'' \<or> pget p ''kind'' = PStr ''tool''"
    using assms(1) by (auto simp: admit_new_def)
  from kind have pk: "pitem p ''kind'' = Inr (pget p ''kind'')"
    by (auto simp: pget_def dget_def pitem_def split: option.splits)
  show ?thesis
    using usage_from_snoc [OF assms(3) pk kind, of t "PStr key"] token_count_int [OF t] assms s'
    by (auto simp: vput_fresh)
qed

lemma vput_values: "set (map snd (vput k p d)) \<subseteq> insert p (set (map snd d))"
  by (induction k p d rule: vput.induct) auto

lemma admit_prior:
  "admit budget out e s = Inr s' \<Longrightarrow>
   s' = s \<or> ne_type e = RESERVATION \<and> (\<exists>k. ad_prior s' = vput k (ne_payload e) (ad_prior s))"
  unfolding admit_def admit_new_def by (auto split: if_splits option.splits)

lemma admit_prior_ok:
  assumes "admit budget out e s = Inr s'" "ne_type e = RESERVATION \<Longrightarrow> reservation_ok (ne_payload e)"
    and "\<forall>p \<in> set (map snd (ad_prior s)). distinct (dkeys p)"
  shows "\<forall>p \<in> set (map snd (ad_prior s')). distinct (dkeys p)"
  using admit_prior [OF assms(1)]
proof
  assume "ne_type e = RESERVATION \<and> (\<exists>k. ad_prior s' = vput k (ne_payload e) (ad_prior s))"
  then obtain k where eq: "ad_prior s' = vput k (ne_payload e) (ad_prior s)" and "distinct (dkeys (ne_payload e))"
    using assms(2) by (auto simp: reservation_ok_def)
  moreover have "p = ne_payload e \<or> p \<in> set (map snd (ad_prior s))"
    if "p \<in> set (map snd (ad_prior s'))" for p
    using that vput_values [of k "ne_payload e" "ad_prior s"] unfolding eq by blast
  ultimately show ?thesis using assms(3) by blast
qed (use assms(3) in simp)

lemma admit_usage:
  assumes "admit budget out e s = Inr s'" and c: "ce_type c = ne_type e" "ce_payload c = ne_payload e" "ce_run_id c = Some rid"
    and ok: "ne_type e = RESERVATION \<Longrightarrow> reservation_ok (ne_payload e)"
    and cls: "map entry_class (ad_prior s) = map entry_class R"
    and prior: "\<forall>p \<in> set (map snd (ad_prior s)). distinct (dkeys p)"
    and u: "usage_from R models tools = Inr u" "ru_output_tokens u = out"
      "ru_steps_used u \<le> ad_steps s" "ru_output_tokens_reserved u \<le> ad_reserved s"
  shows "\<exists>R' u'. reserve_step rid c R = Inr R' \<and>
     map entry_class (ad_prior s') = map entry_class R' \<and>
     usage_from R' models tools = Inr u' \<and> ru_output_tokens u' = out \<and>
     ru_steps_used u' \<le> ad_steps s' \<and> ru_output_tokens_reserved u' \<le> ad_reserved s'"
proof (cases "ne_type e = RESERVATION")
  case False
  then show ?thesis using assms by (auto simp: admit_def reserve_step_def collect_step_def of_run_def)
next
  case True
  obtain i where i: "map_of (ne_payload e) ''reservation_id'' = Some (PStr i)"
    and dist: "distinct (dkeys (ne_payload e))"
    using ok [OF True] by (auto simp: reservation_ok_def)
  have step: "reserve_step rid c R = Inr (vput (PStr i) (ne_payload e) R)"
    using c True i by (simp add: reserve_step_def collect_step_def of_run_def pitem_def vset_def hashable_def)
  show ?thesis
  proof (cases "vlookup (PStr i) (ad_prior s)")
    case None
    have new: "admit_new budget out (ne_payload e) i s = Inr s'"
      using assms(1) True i None by (simp add: admit_def pitem_def)
    have fresh: "vlookup (PStr i) R = None" by (rule entry_class_fresh [OF cls None])
    have "ad_prior s' = vput (PStr i) (ne_payload e) (ad_prior s)"
      using new by (auto simp: admit_new_def)
    then have "map entry_class (ad_prior s') = map entry_class (vput (PStr i) (ne_payload e) R)"
      using None fresh cls by (simp add: vput_fresh)
    then show ?thesis using admit_new_usage [OF new fresh u] step by blast
  next
    case (Some old)
    have eq: "py_eq (PDict old) (PDict (ne_payload e))" and s': "s' = s"
      using assms(1) True i Some by (auto simp: admit_def pitem_def simp del: py_eq.simps)
    have "distinct (dkeys old)" using prior vlookup_in [OF Some] by blast
    with py_eq_entry_class [OF eq _ dist]
    have "entry_class (k', ne_payload e) = entry_class (k', old)" for k'
      by (simp add: entry_class_def)
    from entry_class_replace [OF cls Some this]
    have "map entry_class (vput (PStr i) (ne_payload e) R) = map entry_class R" using cls by simp
    then show ?thesis
      using step cls s' u usage_from_class [of "vput (PStr i) (ne_payload e) R" R] by auto
  qed
qed

lemma admit_all_usage:
  assumes "rfold (admit budget out) evs s = Inr s'" "stored_reservations rid evs ces"
    and "\<forall>e \<in> set evs. ne_type e = RESERVATION \<longrightarrow> reservation_ok (ne_payload e)"
    and "map entry_class (ad_prior s) = map entry_class R"
    and "\<forall>p \<in> set (map snd (ad_prior s)). distinct (dkeys p)"
    and "usage_from R models tools = Inr u" "ru_output_tokens u = out"
      "ru_steps_used u \<le> ad_steps s" "ru_output_tokens_reserved u \<le> ad_reserved s"
  shows "\<exists>R' u'. rfold (reserve_step rid) ces R = Inr R' \<and>
     usage_from R' models tools = Inr u' \<and> ru_output_tokens u' = out \<and>
     ru_steps_used u' \<le> ad_steps s' \<and> ru_output_tokens_reserved u' \<le> ad_reserved s'"
  using assms
proof (induction evs arbitrary: s ces R u)
  case Nil
  then show ?case by (auto simp: stored_reservations_def)
next
  case (Cons e evs)
  obtain c cs where ces: "ces = c # cs" and c: "ce_type c = ne_type e" "ce_payload c = ne_payload e"
      "ce_run_id c = Some rid" and cs: "stored_reservations rid evs cs"
    using Cons.prems(2) by (auto simp: stored_reservations_def list_all2_Cons1)
  obtain s1 where s1: "admit budget out e s = Inr s1" and rest: "rfold (admit budget out) evs s1 = Inr s'"
    using Cons.prems(1) by auto
  obtain R1 u1 where R1: "reserve_step rid c R = Inr R1"
    and inv: "map entry_class (ad_prior s1) = map entry_class R1" "usage_from R1 models tools = Inr u1"
      "ru_output_tokens u1 = out" "ru_steps_used u1 \<le> ad_steps s1"
      "ru_output_tokens_reserved u1 \<le> ad_reserved s1"
    using admit_usage [OF s1 c _ Cons.prems(4-9)] Cons.prems(3) by auto
  have "\<forall>p \<in> set (map snd (ad_prior s1)). distinct (dkeys p)"
    using admit_prior_ok [OF s1 _ Cons.prems(5)] Cons.prems(3) by auto
  from Cons.IH [OF rest cs _ inv(1) this inv(2-5)] Cons.prems(3) R1 ces show ?case by auto
qed

lemma admit_new_bounds:
  assumes "admit_new budget out p key s = Inr s'"
    and "py_int (dget budget ''max_steps'' (PInt 48)) = Inr ms"
    and "py_int (dget budget ''max_output_tokens'' (PInt 8192)) = Inr mt"
  shows "ad_steps s' \<le> ms" "out + ad_reserved s' \<le> mt"
  using assms by (auto simp: admit_new_def)

lemma admit_cases:
  "admit budget out e s = Inr s' \<Longrightarrow> s' = s \<or> (\<exists>key. admit_new budget out (ne_payload e) key s = Inr s')"
  by (auto simp: admit_def simp del: py_eq.simps split: if_splits option.splits)

lemma admit_bounds:
  assumes "rfold (admit budget out) evs s = Inr s'"
    and lim: "py_int (dget budget ''max_steps'' (PInt 48)) = Inr ms"
      "py_int (dget budget ''max_output_tokens'' (PInt 8192)) = Inr mt"
  shows "ad_steps s' \<le> max (ad_steps s) ms \<and> out + ad_reserved s' \<le> max (out + ad_reserved s) mt"
proof (rule rfold_invariant [OF assms(1)])
  fix e x x'
  assume x: "ad_steps x \<le> max (ad_steps s) ms \<and> out + ad_reserved x \<le> max (out + ad_reserved s) mt"
    and "admit budget out e x = Inr x'"
  from admit_cases [OF this(2)] show "ad_steps x' \<le> max (ad_steps s) ms \<and> out + ad_reserved x' \<le> max (out + ad_reserved s) mt"
  proof
    assume "\<exists>key. admit_new budget out (ne_payload e) key x = Inr x'"
    then obtain key where "admit_new budget out (ne_payload e) key x = Inr x'" ..
    from admit_new_bounds [OF this lim] show ?thesis by (auto simp: le_max_iff_disj)
  qed (use x in simp)
qed simp

lemma collect_skip:
  assumes "\<forall>e \<in> set ces. \<not> sel e"
  shows "collect sel k f (es @ ces) = collect sel k f es"
proof -
  have "rfold (collect_step sel k f) ces d = Inr d" for d
    using assms by (induction ces) (auto simp: collect_step_def)
  then show ?thesis by (cases "collect sel k f es") (simp_all add: collect_def rfold_append)
qed

lemma collect_step_values:
  assumes "collect_step sel k id e d = Inr d'"
  shows "set (map snd d') \<subseteq> insert (ce_payload e) (set (map snd d))"
proof (cases "sel e")
  case True
  then obtain key where "d' = vput key (ce_payload e) d"
    using assms by (auto simp: collect_step_def vset_def)
  then show ?thesis by (simp only: vput_values)
qed (use assms in \<open>auto simp: collect_step_def\<close>)

lemma collect_values:
  assumes "collect sel k id es = Inr d"
  shows "set (map snd d) \<subseteq> ce_payload ` set es"
proof (rule rfold_invariant [OF assms [unfolded collect_def]])
  fix e d d' assume "e \<in> set es" "set (map snd d) \<subseteq> ce_payload ` set es" "collect_step sel k id e d = Inr d'"
  then show "set (map snd d') \<subseteq> ce_payload ` set es"
    using collect_step_values [of sel k e d d'] by (meson imageI insert_subset order_trans)
qed simp

lemma govern_admits:
  assumes "govern existing proposed sid root_sid (Some rid) = Inr result"
    and "run_budgets existing = Inr budgets" "pget (dget budgets rid []) ''policy_version'' = PStr ''2''"
    and "usage existing rid = Inr u"
  shows "\<exists>prior s'. collect (of_run (Some rid) RESERVATION) ''reservation_id'' id existing = Inr prior \<and>
    rfold (admit (dget budgets rid []) (ru_output_tokens u)) result
      \<lparr>ad_steps = ru_steps_used u, ad_reserved = ru_output_tokens_reserved u, ad_prior = prior\<rparr> = Inr s'"
  using assms by (auto simp: govern_def str_run_def Let_def)

lemma stored_reservations_mem:
  "stored_reservations rid evs ces \<Longrightarrow> c \<in> set ces \<Longrightarrow> \<exists>e \<in> set evs. ce_type c = ne_type e"
  unfolding stored_reservations_def by (induction rule: list_all2_induct) auto

definition settles :: "string \<Rightarrow> bool" where
  \<comment> \<open>the events that report what a reservation has really used\<close>
  "settles ty \<longleftrightarrow> ty = ''model.turn.completed'' \<or> ty = ''tool.call.completed''"

lemma usage_appended:
  assumes "usage existing rid = Inr u" "stored_reservations rid result ces"
    and "\<forall>e \<in> set result. \<not> settles (ne_type e)"
    and "collect (of_run (Some rid) RESERVATION) ''reservation_id'' id existing = Inr prior"
  shows "\<exists>models tools. usage_from prior models tools = Inr u \<and>
     usage (existing @ ces) rid = rbind (rfold (reserve_step rid) ces prior) (\<lambda>R. usage_from R models tools)"
proof -
  have "\<forall>c \<in> set ces. \<not> settles (ce_type c)"
    using stored_reservations_mem [OF assms(2)] assms(3) by metis
  then have skip: "\<forall>c \<in> set ces. \<not> of_run (Some rid) ''model.turn.completed'' c"
    "\<forall>c \<in> set ces. \<not> of_run (Some rid) ''tool.call.completed'' c"
    by (auto simp: of_run_def settles_def)
  have "collect (of_run (Some rid) RESERVATION) ''reservation_id'' id (existing @ ces) = rfold (reserve_step rid) ces prior"
    using assms(4) unfolding collect_def reserve_step_def [abs_def] by (simp add: rfold_append)
  then show ?thesis
    using assms(1,4) unfolding usage_def by (auto simp: collect_skip [OF skip(1)] collect_skip [OF skip(2)]; blast)
qed


section \<open>The allocations of a task tree\<close>

lemma configure_child_keys:
  "pget (configure_child requested scope) ''scope_id'' = PStr scope"
  "pget (configure_child requested scope) ''policy_version'' = PStr ''2''"
  "\<not> phas (configure_child requested scope) ''tree_max_steps''"
  "\<not> phas (configure_child requested scope) ''tree_max_output_tokens''"
  "\<not> phas (configure_child requested scope) ''tree_max_cost''"
  by (simp_all add: configure_child_def pget_def dget_def phas_def map_of_delete map_of_dmerge)

lemma configure_child_scope: "dget (configure_child requested scope) ''scope_id'' x = PStr scope"
  by (simp add: configure_child_def dget_def map_of_delete map_of_dmerge)

lemma allocate_ok:
  assumes "allocate root_budget allocations configured key = Inr ()"
  obtains v used limit where "pget configured key = PInt v" "1 \<le> v"
    "allocated allocations key = Inr used"
    "py_int (dget root_budget (''tree_'' @ key) (PInt (tree_default key))) = Inr limit"
    "used + v \<le> limit"
  using assms unfolding allocate_def by (cases "pget configured key") auto

lemma allocated_snoc:
  assumes "allocated bs key = Inr used" "pget b key = PInt value"
  shows "allocated (bs @ [b]) key = Inr (used + value)"
proof -
  have "dget b key (PInt (run_default key)) = PInt value"
    using assms(2) by (auto simp: pget_def dget_def split: option.splits)
  then show ?thesis
    using assms(1) by (auto simp: allocated_def rmap_append)
qed

lemma child_budget_allocates:
  assumes "child_budget budgets existing child root_sid = Inr (Some configured)"
    and "parent_run_of existing (py_str (dget child ''parent_session_id'' (PStr root_sid))) = Inr parent_run"
    and "inherited = dget budgets (py_str parent_run) []"
    and "scope = py_str (dget inherited ''scope_id'' parent_run)"
    and "key = ''max_steps'' \<or> key = ''max_output_tokens''"
  shows "allocate (dget budgets scope inherited) (scope_allocations budgets scope) configured key = Inr ()"
    and "\<exists>requested. configured = configure_child requested scope"
  using assms unfolding child_budget_def Let_def by (auto split: if_splits)

lemma govern_configures:
  assumes "govern existing proposed sid root_sid run = Inr result" "run_budgets existing = Inr budgets"
    and "governed_child existing proposed sid root_sid = Some child"
  obtains configured where "child_budget budgets existing child root_sid = Inr configured"
    and "result = (case configured of None \<Rightarrow> proposed | Some c \<Rightarrow> map (with_budget c) proposed)"
  using assms unfolding govern_def Let_def by (auto split: if_splits)

lemma with_budget_requested:
  "ne_type (with_budget c e) = ''run.requested'' \<Longrightarrow> pget (ne_payload (with_budget c e)) ''budget'' = PDict c"
  by (auto simp: with_budget_def pget_def dget_def map_of_dmerge split: if_splits)


section \<open>A concrete task tree\<close>

definition demo_budget :: payload where
  "demo_budget = [(''policy_version'', PStr ''2''), (''max_steps'', PInt 2), (''max_output_tokens'', PInt 100),
     (''tree_max_steps'', PInt 60)]"

definition demo_history :: "canonical_event list" where
  "demo_history =
     [sample_event ''s1'' (Some ''r1'') 1 ''run.requested'' [(''run_id'', PStr ''r1''), (''budget'', PDict demo_budget)],
      sample_event ''s1'' (Some ''r1'') 2 RESERVATION
        [(''reservation_id'', PStr ''m1''), (''kind'', PStr ''model''), (''output_tokens'', PInt 60)],
      sample_event ''c1'' None 1 ''child.created'' [(''parent_session_id'', PStr ''s1'')]]"

definition demo_reservation :: new_event where
  "demo_reservation = \<lparr>ne_type = RESERVATION,
     ne_payload = [(''reservation_id'', PStr ''m2''), (''kind'', PStr ''model''), (''output_tokens'', PInt 40)],
     ne_visibility = V_INTERNAL\<rparr>"

definition demo_usage :: run_usage where
  "demo_usage = \<lparr>ru_steps_used = 1, ru_model_turns = 1, ru_tool_attempts = 0, ru_output_tokens = 0,
     ru_output_tokens_reserved = 60, ru_tool_dispatches = 0, ru_cost = None, ru_suppressed_attempts = 0\<rparr>"


definition demo_child_run :: new_event where
  "demo_child_run = \<lparr>ne_type = ''run.requested'', ne_payload = [(''run_id'', PStr ''r2'')], ne_visibility = V_USER\<rparr>"

definition demo_governed :: "new_event list" where
  "demo_governed = (case govern demo_history [demo_child_run] ''c1'' ''s1'' None of Inr r \<Rightarrow> r | Inl _ \<Rightarrow> [])"


end
