(* ===== verification/Skill_Execution.thy ===== *)
theory Skill_Execution
  imports Runtime_Budget
begin

text \<open>
  Skill invocations that are still open, and whether a Skill is in use
  (\<open>domain/skill_execution.py\<close>).
\<close>

definition SKILL_TERMINAL_EVENTS :: "string list" where
  "SKILL_TERMINAL_EVENTS = [''skill.completed'', ''skill.failed'', ''skill.cancelled'']"

definition RUN_TERMINAL_EVENTS :: "string list" where
  "RUN_TERMINAL_EVENTS = [''run.completed'', ''run.failed'', ''run.cancelled'']"

type_synonym invocation_key = "string \<times> string option \<times> string \<times> string \<times> string"

definition invocation_key_of :: "canonical_event \<Rightarrow> invocation_key option" where
  "invocation_key_of e =
     (case (pget (ce_payload e) ''skill_activation_id'', pget (ce_payload e) ''tool_invocation_id'') of
        (PStr activation, PStr invocation) \<Rightarrow>
          Some (ce_session_id e, ce_run_id e, activation, invocation,
                py_str (dget (ce_payload e) ''invocation_cycle'' (PInt 0)))
      | _ \<Rightarrow> None)"

definition pending_step ::
  "string option \<Rightarrow> canonical_event \<Rightarrow> (invocation_key, canonical_event) dict \<Rightarrow>
   (invocation_key, canonical_event) dict" where
  "pending_step run_id e pending =
     (if run_id \<noteq> None \<and> ce_run_id e \<noteq> run_id then pending
      else case invocation_key_of e of
             None \<Rightarrow> pending
           | Some key \<Rightarrow>
               if ce_type e = ''skill.invocation.requested'' then AList.update key e pending
               else if ce_type e = ''skill.invocation.settled'' then AList.delete key pending
               else pending)"

definition pending_skill_invocations ::
  "canonical_event list \<Rightarrow> string option \<Rightarrow> canonical_event list" where
  "pending_skill_invocations events run_id = dvalues (fold (pending_step run_id) events [])"

type_synonym skill_identity = "string \<times> string option \<times> pyval"

definition identity_of :: "canonical_event \<Rightarrow> skill_identity" where
  "identity_of e = (ce_session_id e, ce_run_id e, pget (ce_payload e) ''skill_activation_id'')"

definition identity_in :: "skill_identity \<Rightarrow> skill_identity list \<Rightarrow> bool" where
  "identity_in x xs =
     list_ex (\<lambda>y. fst x = fst y \<and> fst (snd x) = fst (snd y) \<and> py_eq (snd (snd x)) (snd (snd y))) xs"

definition identity_set :: "canonical_event list \<Rightarrow> skill_identity list result" where
  "identity_set es =
     rmap (\<lambda>e. raise_if (\<not> hashable (pget (ce_payload e) ''skill_activation_id''))
                 (TypeError ''unhashable type'') (Inr (identity_of e))) es"

definition skill_binding :: "payload \<Rightarrow> payload" where
  "skill_binding p =
     (case pget p ''activation'' of
        PDict a \<Rightarrow> (case pget a ''binding'' of PDict b \<Rightarrow> b | _ \<Rightarrow> [])
      | _ \<Rightarrow> [])"

definition skill_references :: "payload \<Rightarrow> payload list result" where
  "skill_references binding =
     rbind (py_list (dget binding ''resolved_skills'' (PList []))) (\<lambda>rs.
       Inr (binding # map (\<lambda>r. case r of PDict d \<Rightarrow> d | _ \<Rightarrow> []) (filter is_dict rs)))"

definition reference_matches :: "string \<Rightarrow> string \<Rightarrow> string option \<Rightarrow> payload \<Rightarrow> bool" where
  "reference_matches publisher name digest r =
     (case digest of
        Some d \<Rightarrow> pget r ''package_digest'' = PStr d
      | None \<Rightarrow> pget r ''publisher'' = PStr publisher \<and>
                dget r ''skill_name'' (pget r ''name'') = PStr name)"

fun active_reference ::
  "(string \<times> string option) list \<Rightarrow> skill_identity list \<Rightarrow> skill_identity list \<Rightarrow>
   string \<Rightarrow> string \<Rightarrow> string option \<Rightarrow> canonical_event list \<Rightarrow> bool result" where
  \<comment> \<open>the final loop of \<open>has_active_skill_reference\<close>\<close>
  "active_reference runs skills pending publisher name digest [] = Inr False"
| "active_reference runs skills pending publisher name digest (e # es) =
     (let next = active_reference runs skills pending publisher name digest es in
      if ce_type e \<noteq> ''skill.activated'' \<or> ce_run_id e = None then next
      else raise_if (\<not> hashable (pget (ce_payload e) ''skill_activation_id'')) (TypeError ''unhashable type'')
        (if \<not> identity_in (identity_of e) pending \<and>
            (identity_in (identity_of e) skills \<or> (ce_session_id e, ce_run_id e) \<in> set runs)
         then next
         else rbind (skill_references (skill_binding (ce_payload e))) (\<lambda>refs.
           if digest \<noteq> None \<and> pget (ce_payload e) ''package_digest'' = PStr (the digest) then Inr True
           else if list_ex (reference_matches publisher name digest) refs then Inr True
           else next)))"

definition has_active_skill_reference ::
  "canonical_event list \<Rightarrow> string \<Rightarrow> string \<Rightarrow> string option \<Rightarrow> bool result" where
  "has_active_skill_reference events publisher name digest =
     rbind (identity_set (filter (\<lambda>e. ce_type e \<in> set SKILL_TERMINAL_EVENTS) events)) (\<lambda>skills.
       active_reference
         (map (\<lambda>e. (ce_session_id e, ce_run_id e))
           (filter (\<lambda>e. ce_type e \<in> set RUN_TERMINAL_EVENTS) events))
         skills (map identity_of (pending_skill_invocations events None)) publisher name digest events)"

section \<open>Open invocations\<close>

definition open_after :: "invocation_key \<Rightarrow> canonical_event list \<Rightarrow> bool" where
  \<comment> \<open>the last request or settlement of the invocation is a request\<close>
  "open_after key es =
     (case filter (\<lambda>e. invocation_key_of e = Some key \<and>
                 ce_type e \<in> {''skill.invocation.requested'', ''skill.invocation.settled''}) (rev es) of
        [] \<Rightarrow> False | e # _ \<Rightarrow> ce_type e = ''skill.invocation.requested'')"

lemma pending_fold_lookup:
  "map_of (fold (pending_step None) es d) key =
     (case filter (\<lambda>e. invocation_key_of e = Some key \<and>
                 ce_type e \<in> {''skill.invocation.requested'', ''skill.invocation.settled''}) (rev es) of
        [] \<Rightarrow> map_of d key
      | e # _ \<Rightarrow> if ce_type e = ''skill.invocation.requested'' then Some e else None)"
proof (induction es rule: rev_induct)
  case (snoc e es)
  then show ?case
    by (auto simp: pending_step_def dict_simps split: option.splits)
qed simp

lemma distinct_pending_fold:
  "distinct (dkeys d) \<Longrightarrow> distinct (dkeys (fold (pending_step r) es d))"
proof (induction es arbitrary: d)
  case (Cons e es)
  have "distinct (dkeys (pending_step r e d))"
    using Cons.prems by (auto simp: pending_step_def dict_simps split: option.splits)
  then show ?case using Cons.IH by simp
qed simp

text \<open>
  C8: an issued Skill invocation stays pending until it is settled. An event is reported as pending
  exactly if it is the request of an invocation whose last request or settlement is that request;
  in particular no Run terminal event ends a pending invocation.
\<close>

theorem pending_exactly_unsettled:
  "(\<exists>e' \<in> set (pending_skill_invocations es None). invocation_key_of e' = Some key) \<longleftrightarrow> open_after key es"
proof -
  let ?d = "fold (pending_step None) es []"
  have keyed: "\<forall>(k, x) \<in> set ?d. invocation_key_of x = Some k"
  proof (induction es rule: rev_induct)
    case (snoc x xs)
    then show ?case
      using set_update_subset [of _ x "fold (pending_step None) xs []"]
        set_delete_subset [of _ "fold (pending_step None) xs []"]
      by (fastforce simp: pending_step_def split: option.splits if_splits)
  qed simp
  have dist: "distinct (dkeys ?d)" by (rule distinct_pending_fold) simp
  have "(\<exists>e' \<in> set (dvalues ?d). invocation_key_of e' = Some key) \<longleftrightarrow> map_of ?d key \<noteq> None"
    using keyed dist by (force simp: map_of_eq_None_iff)
  also have "\<dots> \<longleftrightarrow> open_after key es"
    by (auto simp: pending_fold_lookup open_after_def split: list.splits)
  finally show ?thesis by (simp add: pending_skill_invocations_def)
qed

end
