(* ===== verification/Event_Store.thy ===== *)
theory Event_Store
  imports Skill_Execution "HOL-Library.List_Lexorder" "HOL-Library.Char_ord" "HOL-Library.Product_Lexorder"
begin

text \<open>
  The event store with its transactional outbox
  (\<open>infrastructure/persistence/memory_event_store.py\<close>). The store is a record; every method that runs
  under the store's lock is one function on it. A method that raises after it has already touched the
  store returns the touched store with the error. The identifiers and instants that a method draws
  are arguments: \<open>stamp i\<close> is the event id and the time of the \<open>i\<close>-th event it stores.
\<close>

section \<open>State\<close>

record outbox_record =
  ob_id :: int
  ob_event_id :: string
  ob_destination :: string
  ob_event :: canonical_event
  ob_published :: bool
  ob_attempt :: int
  ob_claimed_by :: "string option"
  ob_claim_token :: "string option"
  ob_claim_expires_at :: "time option"
  ob_poisoned :: bool

record append_result =
  ar_events :: "canonical_event list"
  ar_command_result :: payload
  ar_deduplicated :: bool

record stream_append =
  st_session_id :: string
  st_run_id :: "string option"
  st_expected_version :: int
  st_events :: "new_event list"

record session_snapshot =
  sn_tenant_id :: string
  sn_session_id :: string
  sn_aggregate_version :: int
  sn_schema_version :: int
  sn_state :: payload

record claimed_outbox_record =
  co_outbox_id :: string
  co_event_id :: string
  co_event :: canonical_event
  co_claim_token :: string
  co_attempt :: int

type_synonym stream_key = "string \<times> string"

record event_store =
  es_streams :: "(stream_key, canonical_event list) dict"
  es_commands :: "(string \<times> string \<times> string, payload) dict"
  es_outbox :: "outbox_record list"
  es_snapshots :: "(stream_key, session_snapshot) dict"

definition es_init :: event_store where
  "es_init = \<lparr>es_streams = [], es_commands = [], es_outbox = [], es_snapshots = []\<rparr>"

definition DELIVERY_TRIGGER_EVENTS :: "string list" where
  "DELIVERY_TRIGGER_EVENTS =
     [''approval.requested'', ''approval.delegated'', ''approval.escalated'', ''approval.expired'',
      ''approval.cancelled'', ''run.completed'', ''run.failed'', ''run.cancelled'',
      ''child.result_published'']"

definition CONTROL_TRIGGER_EVENTS :: "string list" where
  "CONTROL_TRIGGER_EVENTS =
     [''skill.invocation.requested'', ''run.requested'', ''session.resumed'', ''approval.approved'',
      ''approval.rejected'', ''approval.expired'', ''approval.cancelled'', ''dependency.changed'',
      ''child.result_published'', ''review.completed'', ''run.failed'', ''run.cancelled'']"

section \<open>Reading\<close>

definition stream_of :: "event_store \<Rightarrow> string \<Rightarrow> string \<Rightarrow> canonical_event list" where
  \<comment> \<open>\<open>self._streams.get((tenant_id, session_id), [])\<close>\<close>
  "stream_of s tenant session = dget (es_streams s) (tenant, session) []"

definition type_allowed :: "string list option \<Rightarrow> canonical_event \<Rightarrow> bool" where
  "type_allowed types e = (case types of None \<Rightarrow> True | Some ts \<Rightarrow> ce_type e \<in> set ts)"

definition slice_to :: "int option \<Rightarrow> 'a list \<Rightarrow> 'a list" where
  \<comment> \<open>\<open>xs[:limit]\<close>, where a negative limit counts from the end\<close>
  "slice_to limit xs =
     (case limit of None \<Rightarrow> xs
      | Some n \<Rightarrow> if n < 0 then take (nat (int (length xs) + n)) xs else take (nat n) xs)"

definition es_load ::
  "event_store \<Rightarrow> string \<Rightarrow> string \<Rightarrow> int \<Rightarrow> string list option \<Rightarrow> int option \<Rightarrow> canonical_event list" where
  "es_load s tenant session from_version types limit =
     slice_to limit
       (filter (\<lambda>e. from_version \<le> ce_version e \<and> type_allowed types e) (stream_of s tenant session))"

definition es_load_all :: "event_store \<Rightarrow> string option \<Rightarrow> canonical_event list" where
  "es_load_all s tenant =
     sort_key (\<lambda>e. (ce_tenant_id e, ce_session_id e, ce_version e))
       (concat (map snd (filter (\<lambda>((t, _), _). tenant = None \<or> tenant = Some t) (es_streams s))))"

definition es_load_tenant_page ::
  "event_store \<Rightarrow> string \<Rightarrow> string option \<Rightarrow> int option \<Rightarrow> int \<Rightarrow> canonical_event list" where
  "es_load_tenant_page s tenant after_session after_version limit =
     (let events = es_load_all s (Some tenant) in
      slice_to (Some limit)
        (case (after_session, after_version) of
           (Some sid, Some v) \<Rightarrow> filter (\<lambda>e. (sid, v) < (ce_session_id e, ce_version e)) events
         | _ \<Rightarrow> events))"

definition package_reference :: "string \<Rightarrow> canonical_event \<Rightarrow> bool" where
  "package_reference digest e \<longleftrightarrow>
     ce_type e = ''skill.activated'' \<and>
     (pget (ce_payload e) ''package_digest'' = PStr digest \<or>
      pget (skill_binding (ce_payload e)) ''package_digest'' = PStr digest)"

definition es_has_skill_package_reference :: "event_store \<Rightarrow> string \<Rightarrow> string \<Rightarrow> bool" where
  "es_has_skill_package_reference s tenant digest =
     list_ex (package_reference digest) (es_load_all s (Some tenant))"

definition es_has_active_skill_reference ::
  "event_store \<Rightarrow> string \<Rightarrow> string \<Rightarrow> string \<Rightarrow> string option \<Rightarrow> bool result" where
  "es_has_active_skill_reference s tenant publisher name digest =
     has_active_skill_reference (es_load_all s (Some tenant)) publisher name digest"

definition root_events :: "event_store \<Rightarrow> string \<Rightarrow> string \<Rightarrow> canonical_event list" where
  "root_events s tenant root_session =
     filter (\<lambda>e. ce_root_session_id e = root_session)
       (concat (map snd (filter (\<lambda>((t, _), _). t = tenant) (es_streams s))))"

definition es_load_root ::
  "event_store \<Rightarrow> string \<Rightarrow> string \<Rightarrow> string list option \<Rightarrow> int option \<Rightarrow> canonical_event list" where
  "es_load_root s tenant root_session types limit =
     slice_to limit
       (sort_key (\<lambda>e. (ce_occurred_at e, ce_session_id e, ce_version e))
         (filter (type_allowed types) (root_events s tenant root_session)))"

definition es_get_snapshot :: "event_store \<Rightarrow> string \<Rightarrow> string \<Rightarrow> session_snapshot option" where
  "es_get_snapshot s tenant session = map_of (es_snapshots s) (tenant, session)"

definition es_save_snapshot :: "session_snapshot \<Rightarrow> event_store \<Rightarrow> event_store" where
  "es_save_snapshot n s =
     (let key = (sn_tenant_id n, sn_session_id n) in
      case map_of (es_snapshots s) key of
        Some current \<Rightarrow>
          if sn_aggregate_version current \<le> sn_aggregate_version n
          then s\<lparr>es_snapshots := AList.update key n (es_snapshots s)\<rparr> else s
      | None \<Rightarrow> s\<lparr>es_snapshots := AList.update key n (es_snapshots s)\<rparr>)"

section \<open>Appending\<close>

definition causation :: "command_context \<Rightarrow> string" where
  \<comment> \<open>\<open>context.causation_id or context.command_id\<close>\<close>
  "causation c =
     (case cc_causation_id c of Some x \<Rightarrow> if x = [] then cc_command_id c else x | None \<Rightarrow> cc_command_id c)"

definition store_event ::
  "command_context \<Rightarrow> string \<Rightarrow> string \<Rightarrow> string option \<Rightarrow> int \<Rightarrow> string \<times> time \<Rightarrow> new_event \<Rightarrow> canonical_event" where
  "store_event c root_session session run version stmp e =
     \<lparr>ce_event_id = fst stmp, ce_tenant_id = cc_tenant_id c, ce_root_session_id = root_session,
      ce_session_id = session, ce_run_id = run, ce_version = version, ce_type = ne_type e,
      ce_occurred_at = snd stmp, ce_actor = cc_actor c, ce_correlation_id = cc_correlation_id c,
      ce_causation_id = causation c, ce_visibility = ne_visibility e, ce_schema_version = 1,
      ce_payload = ne_payload e\<rparr>"

fun store_events ::
  "command_context \<Rightarrow> string \<Rightarrow> string \<Rightarrow> string option \<Rightarrow> int \<Rightarrow> (nat \<Rightarrow> string \<times> time) \<Rightarrow> nat \<Rightarrow>
   new_event list \<Rightarrow> canonical_event list" where
  \<comment> \<open>the loop over \<open>enumerate(events, start=1)\<close>; \<open>v\<close> is the version before the first event\<close>
  "store_events c root_session session run v stamp n [] = []"
| "store_events c root_session session run v stamp n (e # es) =
     store_event c root_session session run (v + 1) (stamp n) e #
     store_events c root_session session run (v + 1) stamp (Suc n) es"

definition outbox_entry :: "string \<Rightarrow> canonical_event \<Rightarrow> outbox_record list \<Rightarrow> outbox_record list" where
  "outbox_entry dest e ob =
     ob @ [\<lparr>ob_id = int (length ob) + 1, ob_event_id = ce_event_id e, ob_destination = dest, ob_event = e,
            ob_published = False, ob_attempt = 0, ob_claimed_by = None, ob_claim_token = None,
            ob_claim_expires_at = None, ob_poisoned = False\<rparr>]"

definition append_outbox_records :: "canonical_event \<Rightarrow> outbox_record list \<Rightarrow> outbox_record list" where
  "append_outbox_records e ob =
     (let ob1 = outbox_entry ''projection'' e ob;
          ob2 = (if ce_type e \<in> set DELIVERY_TRIGGER_EVENTS then outbox_entry ''delivery'' e ob1 else ob1)
      in if ce_type e \<in> set CONTROL_TRIGGER_EVENTS then outbox_entry ''control'' e ob2 else ob2)"

definition command_key :: "command_context \<Rightarrow> string \<times> string \<times> string" where
  "command_key c = (cc_tenant_id c, cc_operation c, cc_command_id c)"

definition replayed :: "payload \<Rightarrow> payload \<Rightarrow> append_result result" where
  \<comment> \<open>what a repeated command gives: the recorded result, or an error when the request differs\<close>
  "replayed previous command_result =
     raise_if (\<not> py_eq (pget command_result ''_request_fingerprint'') (pget previous ''_request_fingerprint''))
       (VersionConflictError ''command was reused with a different request'')
       (Inr \<lparr>ar_events = [], ar_command_result = previous, ar_deduplicated = True\<rparr>)"

definition version_conflict :: "int \<Rightarrow> int \<Rightarrow> aura_error" where
  "version_conflict expected actual =
     VersionConflictError (''expected Session version '' @ show_int expected @ '', got '' @ show_int actual)"

definition extend_stream ::
  "stream_key \<Rightarrow> canonical_event list \<Rightarrow> (stream_key, canonical_event list) dict \<Rightarrow>
   (stream_key, canonical_event list) dict" where
  \<comment> \<open>\<open>self._streams.setdefault(key, []).extend(events)\<close>\<close>
  "extend_stream key es d = AList.update key (dget d key [] @ es) d"

definition commit ::
  "command_context \<Rightarrow> payload \<Rightarrow> canonical_event list \<Rightarrow> event_store \<Rightarrow> event_store" where
  \<comment> \<open>record the command's result and the outbox entries of the stored events\<close>
  "commit c command_result stored s =
     s\<lparr>es_commands := AList.update (command_key c) command_result (es_commands s),
       es_outbox := fold append_outbox_records stored (es_outbox s)\<rparr>"

definition es_append ::
  "string \<Rightarrow> string \<Rightarrow> string option \<Rightarrow> command_context \<Rightarrow> new_event list \<Rightarrow> payload \<Rightarrow>
   (nat \<Rightarrow> string \<times> time) \<Rightarrow> event_store \<Rightarrow> event_store \<times> append_result result" where
  "es_append root_session session run c events command_result stamp s =
     (let key = (cc_tenant_id c, session) in
      case map_of (es_commands s) (command_key c) of
        Some previous \<Rightarrow> (s, replayed previous command_result)
      | None \<Rightarrow>
          let s1 = s\<lparr>es_streams := setdefault key [] (es_streams s)\<rparr>;
              stream = stream_of s1 (cc_tenant_id c) session
          in if int (length stream) \<noteq> cc_expected_version c
             then (s1, Inl (version_conflict (cc_expected_version c) (int (length stream))))
             else case govern (root_events s1 (cc_tenant_id c) root_session) events session root_session run of
                    Inl e \<Rightarrow> (s1, Inl e)
                  | Inr governed \<Rightarrow>
                      let stored = store_events c root_session session run (cc_expected_version c) stamp 0 governed;
                          s2 = s1\<lparr>es_streams := extend_stream key stored (es_streams s1)\<rparr>
                      in (commit c command_result stored s2,
                          Inr \<lparr>ar_events = stored, ar_command_result = command_result, ar_deduplicated = False\<rparr>))"

definition check_version :: "event_store \<Rightarrow> string \<Rightarrow> stream_append \<Rightarrow> unit \<Rightarrow> unit result" where
  "check_version s tenant item _ =
     (let actual = int (length (stream_of s tenant (st_session_id item))) in
      raise_if (actual \<noteq> st_expected_version item) (version_conflict (st_expected_version item) actual) (Inr ()))"

type_synonym batch = "canonical_event list \<times> canonical_event list \<times> (string \<times> canonical_event list) list"

definition govern_item ::
  "string \<Rightarrow> command_context \<Rightarrow> (nat \<Rightarrow> string \<times> time) \<Rightarrow> stream_append \<Rightarrow> batch \<Rightarrow> batch result" where
  \<comment> \<open>one item of the batch: root events, stored events and the events by stream so far\<close>
  "govern_item root_session c stamp item b =
     (case b of (roots, canonical, by_stream) \<Rightarrow>
        rbind (govern roots (st_events item) (st_session_id item) root_session (st_run_id item)) (\<lambda>governed.
          let stored = store_events c root_session (st_session_id item) (st_run_id item)
                         (st_expected_version item) stamp (length canonical) governed
          in Inr (roots @ stored, canonical @ stored, AList.update (st_session_id item) stored by_stream)))"

definition es_append_batch ::
  "string \<Rightarrow> command_context \<Rightarrow> stream_append list \<Rightarrow> payload \<Rightarrow> (nat \<Rightarrow> string \<times> time) \<Rightarrow>
   event_store \<Rightarrow> event_store \<times> append_result result" where
  "es_append_batch root_session c appends command_result stamp s =
     (if appends = [] then (s, Inl (ValueError ''batch append requires at least one stream''))
      else if \<not> distinct (map st_session_id appends)
      then (s, Inl (ValueError ''batch append session ids must be unique''))
      else case map_of (es_commands s) (command_key c) of
        Some previous \<Rightarrow> (s, replayed previous command_result)
      | None \<Rightarrow>
          (case rbind (rfold (check_version s (cc_tenant_id c)) appends ()) (\<lambda>_.
                  rfold (govern_item root_session c stamp) appends
                    (root_events s (cc_tenant_id c) root_session, [], [])) of
             Inl e \<Rightarrow> (s, Inl e)
           | Inr (_, canonical, by_stream) \<Rightarrow>
               let s1 = s\<lparr>es_streams :=
                      fold (\<lambda>(sid, es). extend_stream (cc_tenant_id c, sid) es) by_stream (es_streams s)\<rparr>
               in (commit c command_result canonical s1,
                   Inr \<lparr>ar_events = canonical, ar_command_result = command_result, ar_deduplicated = False\<rparr>)))"

section \<open>Outbox\<close>

definition pending_for :: "string \<Rightarrow> event_store \<Rightarrow> outbox_record list" where
  "pending_for dest s =
     filter (\<lambda>r. \<not> ob_published r \<and> \<not> ob_poisoned r \<and> ob_destination r = dest) (es_outbox s)"

definition es_pending_outbox :: "event_store \<Rightarrow> outbox_record list" where
  "es_pending_outbox s = pending_for ''projection'' s"

definition es_pending_delivery_outbox :: "event_store \<Rightarrow> outbox_record list" where
  "es_pending_delivery_outbox s = pending_for ''delivery'' s"

fun update_first :: "('a \<Rightarrow> bool) \<Rightarrow> ('a \<Rightarrow> 'a) \<Rightarrow> 'a list \<Rightarrow> 'a list" where
  \<comment> \<open>a loop that changes the first element found and stops\<close>
  "update_first p f [] = []"
| "update_first p f (x # xs) = (if p x then f x # xs else x # update_first p f xs)"

definition es_mark_outbox_published :: "int \<Rightarrow> event_store \<Rightarrow> event_store" where
  "es_mark_outbox_published i s =
     s\<lparr>es_outbox := update_first (\<lambda>r. ob_id r = i) (\<lambda>r. r\<lparr>ob_published := True\<rparr>) (es_outbox s)\<rparr>"

definition fail_record :: "outbox_record \<Rightarrow> outbox_record" where
  "fail_record r =
     (let n = ob_attempt r + 1
      in r\<lparr>ob_attempt := n, ob_poisoned := (ob_poisoned r \<or> ob_destination r = ''projection'' \<and> 5 \<le> n)\<rparr>)"

definition es_mark_outbox_failed :: "int \<Rightarrow> event_store \<Rightarrow> event_store" where
  "es_mark_outbox_failed i s =
     s\<lparr>es_outbox := update_first (\<lambda>r. ob_id r = i) fail_record (es_outbox s)\<rparr>"

definition session_key :: "outbox_record \<Rightarrow> stream_key" where
  "session_key r = (ce_tenant_id (ob_event r), ce_session_id (ob_event r))"

definition claim_available :: "time \<Rightarrow> outbox_record \<Rightarrow> bool" where
  "claim_available now r \<longleftrightarrow>
     ob_claimed_by r = None \<or> (case ob_claim_expires_at r of None \<Rightarrow> False | Some t \<Rightarrow> t \<le> now)"

definition take_claim :: "string \<Rightarrow> time \<Rightarrow> duration \<Rightarrow> string \<Rightarrow> outbox_record \<Rightarrow> outbox_record" where
  "take_claim worker now ttl token r =
     r\<lparr>ob_claimed_by := Some worker, ob_claim_token := Some token, ob_claim_expires_at := Some (now + ttl),
       ob_attempt := ob_attempt r + 1\<rparr>"

definition claimed_of :: "outbox_record \<Rightarrow> claimed_outbox_record" where
  "claimed_of r =
     \<lparr>co_outbox_id = show_int (ob_id r), co_event_id = ob_event_id r, co_event = ob_event r,
      co_claim_token = (case ob_claim_token r of Some t \<Rightarrow> t | None \<Rightarrow> []), co_attempt = ob_attempt r\<rparr>"

fun claim_loop ::
  "string \<Rightarrow> string \<Rightarrow> time \<Rightarrow> duration \<Rightarrow> int \<Rightarrow> (nat \<Rightarrow> string) \<Rightarrow> stream_key list \<Rightarrow> nat \<Rightarrow>
   outbox_record list \<Rightarrow> outbox_record list \<times> claimed_outbox_record list" where
  \<comment> \<open>\<open>n\<close> records are claimed already; \<open>blocked\<close> are the Sessions whose first open record was seen\<close>
  "claim_loop dest worker now ttl limit token blocked n [] = ([], [])"
| "claim_loop dest worker now ttl limit token blocked n (r # rs) =
     (if ob_destination r \<noteq> dest \<or> ob_published r \<or> session_key r \<in> set blocked
      then (case claim_loop dest worker now ttl limit token blocked n rs of (rs', cs) \<Rightarrow> (r # rs', cs))
      else if ob_poisoned r \<or> \<not> claim_available now r
      then (case claim_loop dest worker now ttl limit token (session_key r # blocked) n rs of
              (rs', cs) \<Rightarrow> (r # rs', cs))
      else let r' = take_claim worker now ttl (token n) r in
           if limit \<le> int (Suc n) then (r' # rs, [claimed_of r'])
           else (case claim_loop dest worker now ttl limit token (session_key r # blocked) (Suc n) rs of
                   (rs', cs) \<Rightarrow> (r' # rs', claimed_of r' # cs)))"

definition es_claim_outbox_once ::
  "string \<Rightarrow> string \<Rightarrow> int \<Rightarrow> duration \<Rightarrow> time \<Rightarrow> (nat \<Rightarrow> string) \<Rightarrow> event_store \<Rightarrow>
   event_store \<times> claimed_outbox_record list" where
  "es_claim_outbox_once dest worker limit ttl now token s =
     (case claim_loop dest worker now ttl limit token [] 0 (es_outbox s) of
        (ob, cs) \<Rightarrow> (s\<lparr>es_outbox := ob\<rparr>, cs))"

text \<open>
  \<open>claim_outbox\<close> polls until it claims something or its deadline passes. A poll is its clock reading,
  its tokens, the monotonic clock after it, and what the rest of the system does to the store before
  the next poll.
\<close>

record poll =
  po_now :: time
  po_token :: "nat \<Rightarrow> string"
  po_clock :: time
  po_others :: "event_store \<Rightarrow> event_store"

fun es_claim_outbox ::
  "string \<Rightarrow> string \<Rightarrow> int \<Rightarrow> duration \<Rightarrow> duration \<Rightarrow> time \<Rightarrow> poll list \<Rightarrow> event_store \<Rightarrow>
   event_store \<times> claimed_outbox_record list" where
  "es_claim_outbox dest worker limit ttl wait deadline [] s = (s, [])"
| "es_claim_outbox dest worker limit ttl wait deadline (p # ps) s =
     (case es_claim_outbox_once dest worker limit ttl (po_now p) (po_token p) s of (s1, claimed) \<Rightarrow>
        if claimed \<noteq> [] \<or> wait \<le> 0 then (s1, claimed)
        else if deadline - po_clock p \<le> 0 then (s1, [])
        else es_claim_outbox dest worker limit ttl wait deadline ps (po_others p s1))"

definition holds_claim :: "string \<Rightarrow> string \<Rightarrow> string \<Rightarrow> time \<Rightarrow> outbox_record \<Rightarrow> bool" where
  "holds_claim dest worker token now r \<longleftrightarrow>
     ob_destination r = dest \<and> ob_claimed_by r = Some worker \<and> ob_claim_token r = Some token \<and>
     (case ob_claim_expires_at r of None \<Rightarrow> False | Some t \<Rightarrow> now < t)"

definition release :: "outbox_record \<Rightarrow> outbox_record" where
  "release r = r\<lparr>ob_claimed_by := None, ob_claim_token := None, ob_claim_expires_at := None\<rparr>"

definition dispose :: "string \<Rightarrow> string \<Rightarrow> outbox_record \<Rightarrow> outbox_record option" where
  \<comment> \<open>\<open>None\<close> for an unknown disposition\<close>
  "dispose dest disposition r =
     (if disposition = ''ack'' then Some (release (r\<lparr>ob_published := True\<rparr>))
      else if disposition = ''poison'' then Some (release (r\<lparr>ob_poisoned := True\<rparr>))
      else if disposition = ''nack''
      then Some (release (r\<lparr>ob_poisoned := (ob_poisoned r \<or> dest = ''projection'' \<and> 5 \<le> ob_attempt r)\<rparr>))
      else None)"

definition es_disposition_outbox ::
  "string \<Rightarrow> string \<Rightarrow> string \<Rightarrow> string \<Rightarrow> string \<Rightarrow> time \<Rightarrow> event_store \<Rightarrow> event_store \<times> bool" where
  "es_disposition_outbox dest worker outbox_id token disposition now s =
     (case find (\<lambda>r. show_int (ob_id r) = outbox_id) (es_outbox s) of
        None \<Rightarrow> (s, False)
      | Some r \<Rightarrow>
          if \<not> holds_claim dest worker token now r then (s, False)
          else case dispose dest disposition r of
                 None \<Rightarrow> (s, False)
               | Some r' \<Rightarrow>
                   (s\<lparr>es_outbox := update_first (\<lambda>x. show_int (ob_id x) = outbox_id) (\<lambda>_. r') (es_outbox s)\<rparr>, True))"

definition redrivable :: "string \<Rightarrow> string \<Rightarrow> outbox_record \<Rightarrow> bool" where
  "redrivable dest event_id r \<longleftrightarrow>
     ob_destination r = dest \<and> ob_event_id r = event_id \<and> ob_poisoned r \<and> \<not> ob_published r"

definition es_redrive_outbox :: "string \<Rightarrow> string \<Rightarrow> event_store \<Rightarrow> event_store \<times> bool" where
  "es_redrive_outbox dest event_id s =
     (if list_ex (redrivable dest event_id) (es_outbox s)
      then (s\<lparr>es_outbox := update_first (redrivable dest event_id)
               (\<lambda>r. release (r\<lparr>ob_poisoned := False, ob_attempt := 0\<rparr>)) (es_outbox s)\<rparr>, True)
      else (s, False))"

end
