(* ===== verification/Event_Store_Laws.thy ===== *)
theory Event_Store_Laws
  imports Event_Store Session_Laws
begin

text \<open>
  The laws of the event store: gap-free append-only streams, a complete outbox, idempotent commands,
  atomic appends, and claims that are exclusive and publish in order. The store is a
  \<open>store_machine\<close>; its invariant \<open>es_inv\<close> holds in every state its operations reach.
\<close>

section \<open>Streams\<close>

lemma contiguous_from_Nil [simp]: "contiguous_from v []"
  by (simp add: contiguous_from_def)

lemma contiguous_from_append:
  "contiguous_from v (xs @ ys) \<longleftrightarrow> contiguous_from v xs \<and> contiguous_from (v + int (length xs)) ys"
  by (induction xs arbitrary: v) (auto simp: contiguous_from_Cons algebra_simps)

definition of_stream :: "stream_key \<Rightarrow> canonical_event \<Rightarrow> bool" where
  "of_stream key e \<longleftrightarrow> (ce_tenant_id e, ce_session_id e) = key"

definition stream_ok :: "stream_key \<Rightarrow> canonical_event list \<Rightarrow> bool" where
  "stream_ok key es \<longleftrightarrow> contiguous_from 0 es \<and> list_all (of_stream key) es"

lemma store_events_contiguous: "contiguous_from v (store_events c root_sid sid run v stamp n es)"
  by (induction es arbitrary: v n) (simp_all add: contiguous_from_Cons store_event_def)

lemma store_events_stream:
  "list_all (of_stream (cc_tenant_id c, sid)) (store_events c root_sid sid run v stamp n es)"
  by (induction es arbitrary: v n) (simp_all add: of_stream_def store_event_def)

lemma length_store_events [simp]: "length (store_events c root_sid sid run v stamp n es) = length es"
  by (induction es arbitrary: v n) simp_all

lemma store_events_types:
  "map ce_type (store_events c root_sid sid run v stamp n es) = map ne_type es"
  "map ce_payload (store_events c root_sid sid run v stamp n es) = map ne_payload es"
  by (induction es arbitrary: v n) (simp_all add: store_event_def)

lemma stream_ok_extend:
  "stream_ok (cc_tenant_id c, sid) es \<Longrightarrow>
   stream_ok (cc_tenant_id c, sid) (es @ store_events c root_sid sid run (int (length es)) stamp n evs)"
  using store_events_contiguous store_events_stream
  by (simp add: stream_ok_def contiguous_from_append)

lemma dget_update: "dget (AList.update k v d) k' x = (if k' = k then v else dget d k' x)"
  by (simp add: dget_def dict_simps)

lemma dget_setdefault_empty: "dget (setdefault k [] d) k' [] = dget d k' []"
  by (auto simp: setdefault_def dget_def dict_simps split: option.splits)

lemma dget_extend_stream:
  "dget (extend_stream key es d) k [] = (if k = key then dget d key [] @ es else dget d k [])"
  by (simp add: extend_stream_def dget_update)

section \<open>The outbox of a Session\<close>

definition wanted :: "string \<Rightarrow> canonical_event \<Rightarrow> bool" where
  \<comment> \<open>which events each destination is told about\<close>
  "wanted dest e \<longleftrightarrow>
     dest = ''projection'' \<or>
     dest = ''delivery'' \<and> ce_type e \<in> set DELIVERY_TRIGGER_EVENTS \<or>
     dest = ''control'' \<and> ce_type e \<in> set CONTROL_TRIGGER_EVENTS"

definition sent :: "string \<Rightarrow> stream_key \<Rightarrow> outbox_record list \<Rightarrow> canonical_event list" where
  "sent dest key ob = map ob_event (filter (\<lambda>r. ob_destination r = dest \<and> session_key r = key) ob)"

lemma sent_entry:
  "sent dest key (outbox_entry d e ob) = sent dest key ob @ (if d = dest \<and> of_stream key e then [e] else [])"
  by (auto simp: sent_def outbox_entry_def session_key_def of_stream_def)

lemma sent_records:
  "sent dest key (append_outbox_records e ob) =
   sent dest key ob @ (if wanted dest e \<and> of_stream key e then [e] else [])"
  by (auto simp: append_outbox_records_def Let_def sent_entry wanted_def)

lemma sent_fold_records:
  "sent dest key (fold append_outbox_records es ob) =
   sent dest key ob @ filter (\<lambda>e. wanted dest e \<and> of_stream key e) es"
  by (induction es arbitrary: ob) (auto simp: sent_records)

definition ids_ok :: "outbox_record list \<Rightarrow> bool" where
  "ids_ok ob \<longleftrightarrow> map ob_id ob = map (\<lambda>i. int i + 1) [0..<length ob]"

lemma ids_ok_entry: "ids_ok ob \<Longrightarrow> ids_ok (outbox_entry d e ob)"
  by (simp add: ids_ok_def outbox_entry_def)

lemma ids_ok_fold: "ids_ok ob \<Longrightarrow> ids_ok (fold append_outbox_records es ob)"
  by (induction es arbitrary: ob) (auto simp: append_outbox_records_def Let_def ids_ok_entry)

definition es_inv :: "event_store \<Rightarrow> bool" where
  "es_inv s \<longleftrightarrow>
     distinct (dkeys (es_streams s)) \<and>
     (\<forall>key. stream_ok key (dget (es_streams s) key [])) \<and>
     ids_ok (es_outbox s) \<and>
     (\<forall>dest key. sent dest key (es_outbox s) = filter (wanted dest) (dget (es_streams s) key []))"

text \<open>What identifies an outbox record; everything but the append operations keeps it.\<close>

definition ob_core :: "outbox_record \<Rightarrow> int \<times> string \<times> string \<times> canonical_event" where
  "ob_core r = (ob_id r, ob_event_id r, ob_destination r, ob_event r)"

lemma core_sent:
  assumes "map ob_core ob' = map ob_core ob"
  shows "sent dest key ob' = sent dest key ob"
proof -
  have f: "sent dest key xs = map (\<lambda>x. snd (snd (snd x)))
      (filter (\<lambda>x. fst (snd (snd x)) = dest \<and>
         (ce_tenant_id (snd (snd (snd x))), ce_session_id (snd (snd (snd x)))) = key) (map ob_core xs))" for xs
    by (simp add: sent_def ob_core_def filter_map comp_def session_key_def)
  show ?thesis unfolding f assms ..
qed

lemma core_ids:
  assumes "map ob_core ob' = map ob_core ob"
  shows "map ob_id ob' = map ob_id ob"
proof -
  have f: "map ob_id xs = map fst (map ob_core xs)" for xs by (simp add: ob_core_def)
  show ?thesis unfolding f assms ..
qed

lemma es_inv_outbox:
  assumes "es_inv s" "map ob_core ob' = map ob_core (es_outbox s)"
  shows "es_inv (s\<lparr>es_outbox := ob'\<rparr>)"
proof -
  have "length ob' = length (es_outbox s)" using assms(2) by (metis length_map)
  then show ?thesis
    using assms core_sent [OF assms(2)] core_ids [OF assms(2)] by (simp add: es_inv_def ids_ok_def)
qed

lemma es_inv_commit:
  assumes "es_inv s"
    and "distinct (dkeys streams)"
    and "\<And>key. stream_ok key (dget streams key [])"
    and "\<And>key. dget streams key [] = dget (es_streams s) key [] @ filter (of_stream key) stored"
  shows "es_inv (commit c cr stored (s\<lparr>es_streams := streams\<rparr>))"
  using assms(1,2,3) unfolding es_inv_def commit_def
  by (simp add: ids_ok_fold sent_fold_records assms(4) conj_commute)

section \<open>Append\<close>

lemma stream_of_setdefault [simp]:
  "stream_of (s\<lparr>es_streams := setdefault k [] (es_streams s)\<rparr>) t sid = stream_of s t sid"
  by (simp add: stream_of_def dget_setdefault_empty)

text \<open>The three outcomes of an append.\<close>

lemma es_append_cases:
  obtains
    (replayed) previous where "map_of (es_commands s) (command_key c) = Some previous"
      "es_append root_sid sid run c events cr stamp s = (s, replayed previous cr)"
  | (refused) e where "map_of (es_commands s) (command_key c) = None"
      "es_append root_sid sid run c events cr stamp s =
        (s\<lparr>es_streams := setdefault (cc_tenant_id c, sid) [] (es_streams s)\<rparr>, Inl e)"
  | (stored) governed stored where "map_of (es_commands s) (command_key c) = None"
      "int (length (stream_of s (cc_tenant_id c) sid)) = cc_expected_version c"
      "govern (root_events (s\<lparr>es_streams := setdefault (cc_tenant_id c, sid) [] (es_streams s)\<rparr>)
         (cc_tenant_id c) root_sid) events sid root_sid run = Inr governed"
      "stored = store_events c root_sid sid run (cc_expected_version c) stamp 0 governed"
      "es_append root_sid sid run c events cr stamp s =
        (commit c cr stored (s\<lparr>es_streams :=
           extend_stream (cc_tenant_id c, sid) stored (setdefault (cc_tenant_id c, sid) [] (es_streams s))\<rparr>),
         Inr \<lparr>ar_events = stored, ar_command_result = cr, ar_deduplicated = False\<rparr>)"
proof (cases "map_of (es_commands s) (command_key c)")
  case (Some previous)
  then show ?thesis using that(1) by (simp add: es_append_def)
next
  case None
  let ?s1 = "s\<lparr>es_streams := setdefault (cc_tenant_id c, sid) [] (es_streams s)\<rparr>"
  show ?thesis
  proof (cases "int (length (stream_of s (cc_tenant_id c) sid)) = cc_expected_version c")
    case False
    then show ?thesis using that(2) None by (simp add: es_append_def Let_def)
  next
    case True
    show ?thesis
    proof (cases "govern (root_events ?s1 (cc_tenant_id c) root_sid) events sid root_sid run")
      case (Inl e)
      then show ?thesis using that(2) None True by (simp add: es_append_def Let_def)
    next
      case (Inr governed)
      then show ?thesis using that(3) None True by (simp add: es_append_def Let_def)
    qed
  qed
qed

lemma filter_of_stream_stored:
  assumes "list_all (of_stream key) es"
  shows "filter (of_stream k) es = (if k = key then es else [])"
proof -
  have "of_stream k e = (k = key)" if "e \<in> set es" for e
    using assms that by (auto simp: list_all_iff of_stream_def)
  then show ?thesis by (auto simp: filter_empty_conv intro: filter_True)
qed

lemma es_append_inv:
  assumes "es_inv s"
  shows "es_inv (fst (es_append root_sid sid run c events cr stamp s))"
proof (cases rule: es_append_cases [of s c root_sid sid run events cr stamp])
  case (replayed previous)
  then show ?thesis using assms by simp
next
  case (refused e)
  then show ?thesis using assms by (simp add: es_inv_def dget_setdefault_empty dict_simps)
next
  case (stored governed st)
  let ?key = "(cc_tenant_id c, sid)"
  let ?streams = "extend_stream ?key st (setdefault ?key [] (es_streams s))"
  have ev: "cc_expected_version c = int (length (dget (es_streams s) ?key []))"
    using stored(2) by (simp add: stream_of_def)
  have all: "list_all (of_stream ?key) st" unfolding stored(4) by (rule store_events_stream)
  have "es_inv (commit c cr st (s\<lparr>es_streams := ?streams\<rparr>))"
  proof (rule es_inv_commit [OF assms])
    show "distinct (dkeys ?streams)"
      using assms by (simp add: es_inv_def extend_stream_def dict_simps)
    show "dget ?streams key [] = dget (es_streams s) key [] @ filter (of_stream key) st" for key
      by (simp add: dget_extend_stream dget_setdefault_empty filter_of_stream_stored [OF all])
    have ok: "stream_ok k (dget (es_streams s) k [])" for k
      using assms unfolding es_inv_def by blast
    show "stream_ok key (dget ?streams key [])" for key
      using ok [of key] stream_ok_extend [OF ok [of ?key]]
      by (cases "key = ?key") (simp_all add: dget_extend_stream dget_setdefault_empty stored(4) ev)
  qed
  then show ?thesis using stored(5) by simp
qed

section \<open>Batches\<close>

text \<open>
  What \<open>govern_item\<close> has built after some items: the events by stream are the new events of each
  stream, numbered from the version the item expects.
\<close>

definition batch_ok :: "command_context \<Rightarrow> stream_append list \<Rightarrow> batch \<Rightarrow> bool" where
  "batch_ok c seen b \<longleftrightarrow> (case b of (roots, canonical, by_stream) \<Rightarrow>
     distinct (dkeys by_stream) \<and> set (dkeys by_stream) = set (map st_session_id seen) \<and>
     list_all (\<lambda>e. ce_tenant_id e = cc_tenant_id c) canonical \<and>
     (\<forall>sid. filter (of_stream (cc_tenant_id c, sid)) canonical = dget by_stream sid []) \<and>
     (\<forall>item \<in> set seen. contiguous_from (st_expected_version item) (dget by_stream (st_session_id item) []) \<and>
        list_all (of_stream (cc_tenant_id c, st_session_id item)) (dget by_stream (st_session_id item) [])))"

lemma batch_ok_init: "batch_ok c [] (roots, [], [])"
  by (simp add: batch_ok_def dget_def)

lemma fst_set_update: "fst ` set (AList.update k v d) = insert k (fst ` set d)"
  by (induction d) auto

lemma batch_ok_step:
  assumes "batch_ok c seen b" "st_session_id item \<notin> set (map st_session_id seen)"
    and "govern_item root_sid c stamp item b = Inr b'"
  shows "batch_ok c (seen @ [item]) b'"
proof -
  obtain roots canonical by_stream where b: "b = (roots, canonical, by_stream)" by (cases b)
  obtain stored where b': "b' = (roots @ stored, canonical @ stored, AList.update (st_session_id item) stored by_stream)"
    and con: "contiguous_from (st_expected_version item) stored"
    and all: "list_all (of_stream (cc_tenant_id c, st_session_id item)) stored"
    using assms(3) store_events_contiguous store_events_stream unfolding govern_item_def b Let_def by auto
  note ok = assms(1) [unfolded batch_ok_def b, simplified]
  have fresh: "dget by_stream (st_session_id item) [] = []"
    using ok assms(2) map_of_None_dkeys [of by_stream "st_session_id item"] by (auto simp: dget_def)
  have tenant: "list_all (\<lambda>e. ce_tenant_id e = cc_tenant_id c) stored"
    using all by (auto simp: list_all_iff of_stream_def)
  have "st_session_id x \<noteq> st_session_id item" if "x \<in> set seen" for x
    using assms(2) that by (metis image_eqI set_map)
  then show ?thesis
    using ok fresh tenant con all filter_of_stream_stored [OF all]
    unfolding batch_ok_def b' by (auto simp: dget_update dict_simps fst_set_update)
qed

lemma batch_ok_fold:
  assumes "distinct (map st_session_id (seen @ items))" "batch_ok c seen b"
    and "rfold (govern_item root_sid c stamp) items b = Inr b'"
  shows "batch_ok c (seen @ items) b'"
  using assms
proof (induction items arbitrary: seen b)
  case (Cons item items)
  obtain b1 where b1: "govern_item root_sid c stamp item b = Inr b1"
    and rest: "rfold (govern_item root_sid c stamp) items b1 = Inr b'"
    using Cons.prems(3) by auto
  have "batch_ok c (seen @ [item]) b1"
    by (rule batch_ok_step [OF Cons.prems(2) _ b1]) (use Cons.prems(1) in auto)
  from Cons.IH [OF _ this rest] Cons.prems(1) show ?case by simp
qed simp

lemma dget_Cons: "dget ((k, v) # d) k' x = (if k' = k then v else dget d k' x)"
  by (simp add: dget_def)

lemma dget_fold_extend:
  assumes "distinct (dkeys by_stream)"
  shows "dget (fold (\<lambda>(sid, es). extend_stream (t, sid) es) by_stream d) (t', sid) [] =
         dget d (t', sid) [] @ (if t' = t then dget by_stream sid [] else [])"
  using assms
proof (induction by_stream arbitrary: d)
  case (Cons kv by_stream)
  obtain k es where kv: "kv = (k, es)" by (cases kv)
  have "dget by_stream k [] = []"
    using Cons.prems kv map_of_None_dkeys [of by_stream k] by (auto simp: dget_def)
  then show ?case
    using Cons kv by (auto simp: dget_extend_stream dget_Cons)
qed (simp add: dget_def)

lemma distinct_fold_extend:
  "distinct (dkeys d) \<Longrightarrow> distinct (dkeys (fold (\<lambda>(sid, es). extend_stream (t, sid) es) by_stream d))"
  by (induction by_stream arbitrary: d) (auto simp: extend_stream_def dict_simps)

lemma check_versions:
  assumes "rfold (check_version s t) items () = Inr u" "item \<in> set items"
  shows "int (length (stream_of s t (st_session_id item))) = st_expected_version item"
  using assms by (induction items) (auto simp: check_version_def Let_def)

lemma es_append_batch_cases:
  obtains (unchanged) r where "es_append_batch root_sid c items cr stamp s = (s, r)" "\<And>x. r = Inr x \<Longrightarrow> ar_deduplicated x"
  | (stored) roots canonical by_stream u where
      "map_of (es_commands s) (command_key c) = None"
      "items \<noteq> []" "distinct (map st_session_id items)"
      "rfold (check_version s (cc_tenant_id c)) items () = Inr u"
      "rfold (govern_item root_sid c stamp) items (root_events s (cc_tenant_id c) root_sid, [], []) =
         Inr (roots, canonical, by_stream)"
      "es_append_batch root_sid c items cr stamp s =
         (commit c cr canonical (s\<lparr>es_streams :=
            fold (\<lambda>(sid, es). extend_stream (cc_tenant_id c, sid) es) by_stream (es_streams s)\<rparr>),
          Inr \<lparr>ar_events = canonical, ar_command_result = cr, ar_deduplicated = False\<rparr>)"
proof (cases "items = [] \<or> \<not> distinct (map st_session_id items)")
  case True
  then have "\<exists>e. es_append_batch root_sid c items cr stamp s = (s, Inl e)"
    by (auto simp: es_append_batch_def)
  then show ?thesis using that(1) by blast
next
  case False
  show ?thesis
  proof (cases "map_of (es_commands s) (command_key c)")
    case (Some previous)
    have "es_append_batch root_sid c items cr stamp s = (s, replayed previous cr)"
      using False Some by (simp add: es_append_batch_def)
    then show ?thesis by (rule that(1)) (auto simp: replayed_def)
  next
    case None
    let ?r = "rbind (rfold (check_version s (cc_tenant_id c)) items ()) (\<lambda>_.
        rfold (govern_item root_sid c stamp) items (root_events s (cc_tenant_id c) root_sid, [], []))"
    show ?thesis
    proof (cases ?r)
      case (Inl e)
      have "es_append_batch root_sid c items cr stamp s = (s, Inl e)"
        using False None Inl by (simp add: es_append_batch_def)
      then show ?thesis by (rule that(1)) simp
    next
      case (Inr b)
      obtain roots canonical by_stream where b: "b = (roots, canonical, by_stream)" by (cases b)
      obtain u where "rfold (check_version s (cc_tenant_id c)) items () = Inr u"
        "rfold (govern_item root_sid c stamp) items (root_events s (cc_tenant_id c) root_sid, [], []) = Inr b"
        using Inr by auto
      with that(2) [of u roots canonical by_stream] False None Inr b show ?thesis
        by (simp add: es_append_batch_def Let_def)
    qed
  qed
qed

lemma batch_streams:
  assumes "distinct (map st_session_id items)"
    and "rfold (govern_item root_sid c stamp) items (roots0, [], []) = Inr (roots, canonical, by_stream)"
  shows "batch_ok c items (roots, canonical, by_stream)"
    and "dget (fold (\<lambda>(sid, es). extend_stream (cc_tenant_id c, sid) es) by_stream d) key [] =
      dget d key [] @ filter (of_stream key) canonical"
proof -
  show ok: "batch_ok c items (roots, canonical, by_stream)"
    using batch_ok_fold [of "[]", OF _ batch_ok_init assms(2)] assms(1) by simp
  obtain t sid where key: "key = (t, sid)" by (cases key)
  have "filter (of_stream (t, sid)) canonical = []" if "t \<noteq> cc_tenant_id c"
    using ok that by (auto simp: batch_ok_def list_all_iff of_stream_def filter_empty_conv)
  then show "dget (fold (\<lambda>(sid, es). extend_stream (cc_tenant_id c, sid) es) by_stream d) key [] =
      dget d key [] @ filter (of_stream key) canonical"
    using ok dget_fold_extend [of by_stream "cc_tenant_id c" d t sid] by (auto simp: batch_ok_def key)
qed

lemma es_append_batch_inv:
  assumes "es_inv s"
  shows "es_inv (fst (es_append_batch root_sid c items cr stamp s))"
proof (cases rule: es_append_batch_cases [of root_sid c items cr stamp s])
  case (unchanged r)
  then show ?thesis using assms by simp
next
  case (stored roots canonical by_stream u)
  let ?t = "cc_tenant_id c"
  let ?streams = "fold (\<lambda>(sid, es). extend_stream (?t, sid) es) by_stream (es_streams s)"
  note dget_new = batch_streams(2) [OF stored(3,5)]
  have ok: "batch_ok c items (roots, canonical, by_stream)" by (rule batch_streams(1) [OF stored(3,5)])
  have old: "stream_ok k (dget (es_streams s) k [])" for k using assms unfolding es_inv_def by blast
  have "stream_ok (t, sid) (dget ?streams (t, sid) [])" for t sid
  proof (cases "t = ?t \<and> (\<exists>item \<in> set items. st_session_id item = sid)")
    case True
    then obtain item where item: "item \<in> set items" "st_session_id item = sid" and t: "t = ?t" by blast
    have "st_expected_version item = int (length (dget (es_streams s) (t, sid) []))"
      using check_versions [OF stored(4) item(1)] item t by (simp add: stream_of_def)
    then show ?thesis
      using ok old [of "(t, sid)"] item t
      by (auto simp: dget_new batch_ok_def stream_ok_def contiguous_from_append)
  next
    case False
    have "filter (of_stream (t, sid)) canonical = []"
    proof (cases "t = ?t")
      case True
      then have "sid \<notin> set (dkeys by_stream)" using False ok by (auto simp: batch_ok_def)
      then have "dget by_stream sid [] = []" using map_of_None_dkeys [of by_stream sid] by (simp add: dget_def)
      with True ok show ?thesis by (simp add: batch_ok_def)
    next
      case False
      with ok show ?thesis by (auto simp: batch_ok_def list_all_iff of_stream_def filter_empty_conv)
    qed
    then show ?thesis using old [of "(t, sid)"] by (simp add: dget_new)
  qed
  then have "es_inv (commit c cr canonical (s\<lparr>es_streams := ?streams\<rparr>))"
    using assms by (intro es_inv_commit [OF assms]) (auto simp: dget_new es_inv_def distinct_fold_extend)
  then show ?thesis using stored(6) by simp
qed

section \<open>The outbox operations keep the records\<close>

lemma update_first_core:
  "(\<And>r. ob_core (f r) = ob_core r) \<Longrightarrow> map ob_core (update_first p f ob) = map ob_core ob"
  by (induction ob) auto

lemma update_first_find:
  "find p xs = Some x \<Longrightarrow> g y = g x \<Longrightarrow> map g (update_first p (\<lambda>_. y) xs) = map g xs"
  by (induction xs) (auto split: if_splits)

lemma core_simps [simp]:
  "ob_core (release r) = ob_core r" "ob_core (take_claim w n d t r) = ob_core r"
  "ob_core (fail_record r) = ob_core r" "ob_core (r\<lparr>ob_published := b\<rparr>) = ob_core r"
  "ob_core (r\<lparr>ob_poisoned := b\<rparr>) = ob_core r" "ob_core (r\<lparr>ob_attempt := k\<rparr>) = ob_core r"
  by (simp_all add: ob_core_def release_def take_claim_def fail_record_def Let_def)

lemma dispose_core: "dispose dest d r = Some r' \<Longrightarrow> ob_core r' = ob_core r"
  by (auto simp: dispose_def split: if_splits)

lemma claim_loop_core:
  "map ob_core (fst (claim_loop dest w now ttl limit token blocked n ob)) = map ob_core ob"
  by (induction dest w now ttl limit token blocked n ob rule: claim_loop.induct)
     (auto simp: Let_def split: prod.splits)

datatype es_op =
    Append string string "string option" command_context "new_event list" payload "nat \<Rightarrow> string \<times> time"
  | Append_batch string command_context "stream_append list" payload "nat \<Rightarrow> string \<times> time"
  | Save_snapshot session_snapshot
  | Mark_published int
  | Mark_failed int
  | Claim string string int duration time "nat \<Rightarrow> string"
  | Disposition string string string string string time
  | Redrive string string

fun es_step :: "es_op \<Rightarrow> event_store \<Rightarrow> event_store" where
  "es_step (Append r sid run c evs cr st) s = fst (es_append r sid run c evs cr st s)"
| "es_step (Append_batch r c items cr st) s = fst (es_append_batch r c items cr st s)"
| "es_step (Save_snapshot n) s = es_save_snapshot n s"
| "es_step (Mark_published i) s = es_mark_outbox_published i s"
| "es_step (Mark_failed i) s = es_mark_outbox_failed i s"
| "es_step (Claim d w l ttl now tok) s = fst (es_claim_outbox_once d w l ttl now tok s)"
| "es_step (Disposition d w i tok disp now) s = fst (es_disposition_outbox d w i tok disp now s)"
| "es_step (Redrive d e) s = fst (es_redrive_outbox d e s)"

definition appends_only :: "es_op \<Rightarrow> bool" where
  "appends_only op = (case op of Append _ _ _ _ _ _ _ \<Rightarrow> True | Append_batch _ _ _ _ _ \<Rightarrow> True | _ \<Rightarrow> False)"

text \<open>An operation that appends nothing changes the outbox records' state and the snapshots at most.\<close>

lemma es_step_keeps:
  assumes "\<not> appends_only op"
  shows "es_streams (es_step op s) = es_streams s \<and> es_commands (es_step op s) = es_commands s \<and>
     map ob_core (es_outbox (es_step op s)) = map ob_core (es_outbox s)"
  using assms
proof (cases op)
  case (Disposition d w i tok disp now)
  then show ?thesis
    by (auto simp: es_disposition_outbox_def intro: update_first_find dest: dispose_core split: option.splits)
next
  case (Claim d w l ttl now tok)
  then show ?thesis
    using claim_loop_core [of d w now ttl l tok "[]" 0 "es_outbox s"]
    by (auto simp: es_claim_outbox_once_def split: prod.splits)
qed (auto simp: appends_only_def es_save_snapshot_def Let_def es_mark_outbox_published_def
      es_mark_outbox_failed_def es_redrive_outbox_def update_first_core split: option.splits)

lemma es_step_inv: "es_inv s \<Longrightarrow> es_inv (es_step op s)"
proof (cases "appends_only op")
  case True
  then show "es_inv s \<Longrightarrow> es_inv (es_step op s)"
    by (cases op) (auto simp: appends_only_def intro: es_append_inv es_append_batch_inv)
next
  case False
  assume inv: "es_inv s"
  have "es_inv ((es_step op s)\<lparr>es_outbox := es_outbox (es_step op s)\<rparr>) \<longleftrightarrow>
    es_inv (s\<lparr>es_outbox := es_outbox (es_step op s)\<rparr>)"
    using es_step_keeps [OF False, of s] by (simp add: es_inv_def)
  then show ?thesis using es_inv_outbox [OF inv] es_step_keeps [OF False, of s] by simp
qed

lemma es_inv_init: "es_inv es_init"
  by (simp add: es_inv_def es_init_def dget_def stream_ok_def ids_ok_def sent_def)

interpretation event_log: store_machine es_init es_step es_inv
  by unfold_locales (rule es_inv_init, rule es_step_inv)

text \<open>
  C9: in every state the event store can reach, the events of a Session carry the versions 1, 2, 3
  and so on without a gap, and the outbox holds for each destination exactly the events of the Session
  that the destination is told about, in the order of the stream: all of them for the projections,
  the trigger events for the delivery and the control plane.
\<close>

theorem streams_contiguous_and_outbox_complete:
  fixes ops t sid dest
  defines "s \<equiv> fold es_step ops es_init"
  shows "contiguous_from 0 (stream_of s t sid) \<and>
    sent dest (t, sid) (es_outbox s) = filter (wanted dest) (stream_of s t sid)"
  using event_log.inv_reachable [of ops] unfolding event_log.run_def s_def es_inv_def stream_of_def stream_ok_def
  by blast

section \<open>What an append does\<close>

lemma es_append_effect:
  assumes "es_append root_sid sid run c events cr stamp s = (s', r)"
  shows "(\<exists>e. r = Inl e) \<or> (\<exists>x. r = Inr x \<and> ar_deduplicated x) \<longrightarrow>
           es_commands s' = es_commands s \<and> es_outbox s' = es_outbox s \<and> es_snapshots s' = es_snapshots s \<and>
           (\<forall>t x. stream_of s' t x = stream_of s t x)"
    and "r = Inr x \<and> \<not> ar_deduplicated x \<longrightarrow>
           cc_expected_version c = int (length (stream_of s (cc_tenant_id c) sid)) \<and>
           ar_command_result x = cr \<and> map_of (es_commands s') = (map_of (es_commands s))(command_key c \<mapsto> cr) \<and>
           (\<forall>t y. stream_of s' t y = (if (t, y) = (cc_tenant_id c, sid)
              then stream_of s t y @ ar_events x else stream_of s t y))"
  using assms
  by (cases rule: es_append_cases [of s c root_sid sid run events cr stamp];
      auto simp: replayed_def stream_of_def dget_setdefault_empty commit_def dget_extend_stream dict_simps)+


section \<open>Nothing is lost\<close>

lemma commit_commands: "map_of (es_commands (commit c cr es s)) = (map_of (es_commands s))(command_key c \<mapsto> cr)"
  by (simp add: commit_def dict_simps)

definition grows :: "event_store \<Rightarrow> event_store \<Rightarrow> bool" where
  "grows s s' \<longleftrightarrow> (\<forall>t sid. prefix (stream_of s t sid) (stream_of s' t sid)) \<and> map_of (es_commands s) \<subseteq>\<^sub>m map_of (es_commands s')"

lemma grows_refl: "grows s s"
  by (simp add: grows_def)

lemma grows_trans: "grows s t \<Longrightarrow> grows t u \<Longrightarrow> grows s u"
  unfolding grows_def by (meson map_le_trans prefix_order.trans)

lemma grows_commands:
  "grows s s' \<Longrightarrow> map_of (es_commands s) k = Some v \<Longrightarrow> map_of (es_commands s') k = Some v"
  unfolding grows_def by (metis domI map_le_def)

lemma es_step_grows:
  assumes "es_inv s"
  shows "grows s (es_step op s)"
proof (cases "appends_only op")
  case False
  then show ?thesis using es_step_keeps [OF False, of s] by (simp add: grows_def stream_of_def)
next
  case True
  then consider root_sid sid run c evs cr st where "op = Append root_sid sid run c evs cr st"
    | root_sid c items cr st where "op = Append_batch root_sid c items cr st"
    by (cases op) (auto simp: appends_only_def)
  then show ?thesis
  proof cases
    case (1 root_sid sid run c evs cr st)
    show ?thesis unfolding 1
      by (cases rule: es_append_cases [of s c root_sid sid run evs cr st])
         (auto simp: grows_def map_le_def stream_of_def dget_setdefault_empty commit_def dget_extend_stream dict_simps)
  next
    case (2 root_sid c items cr st)
    show ?thesis unfolding 2
    proof (cases rule: es_append_batch_cases [of root_sid c items cr st s])
      case (stored roots canonical by_stream u)
      then show "grows s (es_step (Append_batch root_sid c items cr st) s)"
        using batch_streams(2) [OF stored(3,5)] by (auto simp: grows_def map_le_def stream_of_def commit_def dict_simps)
    qed (simp add: grows_refl)
  qed
qed

lemma es_run_grows: "es_inv s \<Longrightarrow> grows s (fold es_step ops s)"
  unfolding event_log.run_def [symmetric]
  by (rule event_log.run_relation [where R = grows]) (auto intro: grows_refl grows_trans es_step_grows)

text \<open>
  C11: streams are append-only. Whatever operations run later, the events that a Session has stay
  where they are: its stream is a prefix of its later stream.
\<close>

theorem streams_append_only:
  "prefix (stream_of (fold es_step ops es_init) t sid) (stream_of (fold es_step (ops @ later) es_init) t sid)"
  using es_run_grows [OF event_log.inv_reachable [of ops], of later] by (simp add: event_log.run_def grows_def)

text \<open>
  C12: commands are idempotent. Once an append for a command succeeded, the same command with the same
  request fingerprint, repeated at any later time, stores nothing and returns the recorded result.
\<close>

theorem command_replay_idempotent:
  assumes "es_inv s" "es_append root_sid sid run c events cr stamp s = (s1, Inr x)" "\<not> ar_deduplicated x"
    and "py_eq (pget cr' ''_request_fingerprint'') (pget cr ''_request_fingerprint'')"
    and "command_key c' = command_key c"
  shows "es_append root_sid' sid' run' c' events' cr' stamp' (fold es_step ops s1) =
     (fold es_step ops s1, Inr \<lparr>ar_events = [], ar_command_result = cr, ar_deduplicated = True\<rparr>)"
proof -
  have "es_inv s1" using es_append_inv [OF assms(1), of root_sid sid run c events cr stamp] assms(2) by simp
  moreover have "map_of (es_commands s1) (command_key c) = Some cr"
    using es_append_effect(2) [OF assms(2), of x] assms(3) by simp
  ultimately have "map_of (es_commands (fold es_step ops s1)) (command_key c') = Some cr"
    using grows_commands [OF es_run_grows] assms(5) by simp
  then show ?thesis using assms(4) by (simp add: es_append_def replayed_def)
qed

section \<open>Claims\<close>

definition open_for :: "string \<Rightarrow> outbox_record \<Rightarrow> bool" where
  "open_for dest r \<longleftrightarrow> ob_destination r = dest \<and> \<not> ob_published r"

definition same_lane :: "outbox_record \<Rightarrow> outbox_record \<Rightarrow> bool" where
  "same_lane r r' \<longleftrightarrow> ob_destination r = ob_destination r' \<and> session_key r = session_key r'"

lemma claim_loop_length:
  "length (snd (claim_loop dest w now ttl limit token blocked n ob)) \<le> nat (max 1 (limit - int n))"
  by (induction dest w now ttl limit token blocked n ob rule: claim_loop.induct)
     (auto simp: Let_def split: prod.splits)

definition claimed_key :: "claimed_outbox_record \<Rightarrow> stream_key" where
  "claimed_key c = (ce_tenant_id (co_event c), ce_session_id (co_event c))"

text \<open>The claimed record stands in the outbox and nothing of its Session is open before it.\<close>

definition claimable ::
  "string \<Rightarrow> string \<Rightarrow> time \<Rightarrow> duration \<Rightarrow> outbox_record list \<Rightarrow> claimed_outbox_record \<Rightarrow> bool" where
  "claimable dest w now ttl ob c \<longleftrightarrow>
     (\<exists>xs r ys t. ob = xs @ r # ys \<and> c = claimed_of (take_claim w now ttl t r) \<and>
        open_for dest r \<and> \<not> ob_poisoned r \<and> claim_available now r \<and>
        (\<forall>x \<in> set xs. open_for dest x \<longrightarrow> session_key x \<noteq> claimed_key c))"

lemma claimable_here:
  "open_for dest r \<Longrightarrow> \<not> ob_poisoned r \<Longrightarrow> claim_available now r \<Longrightarrow>
   claimable dest w now ttl (r # rs) (claimed_of (take_claim w now ttl t r))"
  unfolding claimable_def by (rule exI [of _ "[]"]) auto

lemma claimable_later:
  assumes "claimable dest w now ttl rs c" "open_for dest r \<Longrightarrow> session_key r \<noteq> claimed_key c"
  shows "claimable dest w now ttl (r # rs) c"
proof -
  obtain xs r' ys t where "rs = xs @ r' # ys" "c = claimed_of (take_claim w now ttl t r')"
    "open_for dest r'" "\<not> ob_poisoned r'" "claim_available now r'"
    "\<forall>x \<in> set xs. open_for dest x \<longrightarrow> session_key x \<noteq> claimed_key c"
    using assms(1) unfolding claimable_def by blast
  then show ?thesis
    using assms(2) unfolding claimable_def by (intro exI [of _ "r # xs"] exI [of _ r'] exI [of _ ys] exI [of _ t]) simp
qed

lemma claimed_key_claim: "claimed_key (claimed_of (take_claim w now ttl t r)) = session_key r"
  by (simp add: claimed_key_def claimed_of_def take_claim_def session_key_def)

lemma claim_loop_cases:
  obtains (skip) "ob_destination r \<noteq> dest \<or> ob_published r \<or> session_key r \<in> set blocked"
      "claim_loop dest w now ttl limit token blocked n (r # rs) =
        (r # fst (claim_loop dest w now ttl limit token blocked n rs), snd (claim_loop dest w now ttl limit token blocked n rs))"
  | (busy) "open_for dest r" "session_key r \<notin> set blocked" "ob_poisoned r \<or> \<not> claim_available now r"
      "claim_loop dest w now ttl limit token blocked n (r # rs) =
        (r # fst (claim_loop dest w now ttl limit token (session_key r # blocked) n rs),
         snd (claim_loop dest w now ttl limit token (session_key r # blocked) n rs))"
  | (last) "open_for dest r" "session_key r \<notin> set blocked" "\<not> ob_poisoned r" "claim_available now r"
      "claim_loop dest w now ttl limit token blocked n (r # rs) =
        (take_claim w now ttl (token n) r # rs, [claimed_of (take_claim w now ttl (token n) r)])"
  | (more) "open_for dest r" "session_key r \<notin> set blocked" "\<not> ob_poisoned r" "claim_available now r"
      "claim_loop dest w now ttl limit token blocked n (r # rs) =
        (take_claim w now ttl (token n) r # fst (claim_loop dest w now ttl limit token (session_key r # blocked) (Suc n) rs),
         claimed_of (take_claim w now ttl (token n) r) #
           snd (claim_loop dest w now ttl limit token (session_key r # blocked) (Suc n) rs))"
proof (cases "ob_destination r \<noteq> dest \<or> ob_published r \<or> session_key r \<in> set blocked")
  case True
  then show ?thesis using that(1) by (auto split: prod.splits)
next
  case o: False
  then have op: "open_for dest r" "session_key r \<notin> set blocked" by (auto simp: open_for_def)
  show ?thesis
  proof (cases "ob_poisoned r \<or> \<not> claim_available now r")
    case True
    then show ?thesis using that(2) op o by (auto split: prod.splits)
  next
    case b: False
    then show ?thesis
      using that(3,4) op o by (cases "limit \<le> int (Suc n)") (auto simp: Let_def split: prod.splits)
  qed
qed

lemma claim_loop_sessions:
  "distinct (map claimed_key (snd (claim_loop dest w now ttl limit token blocked n ob))) \<and>
   (\<forall>c \<in> set (snd (claim_loop dest w now ttl limit token blocked n ob)). claimed_key c \<notin> set blocked)"
proof (induction ob arbitrary: blocked n)
  case (Cons r rs)
  show ?case
    by (cases rule: claim_loop_cases [of r dest blocked w now ttl limit token n rs])
       (use Cons.IH [of blocked n] Cons.IH [of "session_key r # blocked" n]
          Cons.IH [of "session_key r # blocked" "Suc n"] in \<open>auto simp: claimed_key_claim\<close>)
qed simp

lemma claim_loop_claims:
  "\<forall>c \<in> set (snd (claim_loop dest w now ttl limit token blocked n ob)). claimable dest w now ttl ob c"
proof (induction ob arbitrary: blocked n)
  case (Cons r rs)
  have later: "\<forall>c \<in> set (snd (claim_loop dest w now ttl limit token (session_key r # blocked) m rs)).
      claimable dest w now ttl (r # rs) c" for m
    using Cons.IH [of "session_key r # blocked" m] claim_loop_sessions [of dest w now ttl limit token "session_key r # blocked" m rs]
    by (auto intro!: claimable_later)
  show ?case
  proof (cases rule: claim_loop_cases [of r dest blocked w now ttl limit token n rs])
    case skip
    have "claimable dest w now ttl (r # rs) c" if "c \<in> set (snd (claim_loop dest w now ttl limit token blocked n rs))" for c
    proof (rule claimable_later)
      show "claimable dest w now ttl rs c" using Cons.IH that by blast
      have "claimed_key c \<notin> set blocked" using claim_loop_sessions that by blast
      then show "open_for dest r \<Longrightarrow> session_key r \<noteq> claimed_key c" using skip(1) by (auto simp: open_for_def)
    qed
    then show ?thesis using skip(2) by simp
  next
    case busy
    then show ?thesis using later by simp
  next
    case last
    then show ?thesis using claimable_here by simp
  next
    case more
    then show ?thesis using claimable_here [OF more(1,3,4)] later by simp
  qed
qed simp

text \<open>
  C13: one poll claims at most \<open>max 1 limit\<close> records, at most one of each Session, and each claimed
  record is the first one of its Session, for the destination, that is not published; it is neither
  poisoned nor under a live claim.
\<close>

theorem claim_takes_first_open:
  assumes "es_claim_outbox_once dest worker limit ttl now token s = (s', claimed)"
  shows "int (length claimed) \<le> max 1 limit \<and>
    distinct (map claimed_key claimed) \<and>
    (\<forall>c \<in> set claimed. \<exists>xs r ys. es_outbox s = xs @ r # ys \<and> co_outbox_id c = show_int (ob_id r) \<and>
       co_event c = ob_event r \<and> ob_destination r = dest \<and> \<not> ob_published r \<and> \<not> ob_poisoned r \<and>
       claim_available now r \<and>
       (\<forall>x \<in> set xs. ob_destination x = dest \<and> session_key x = session_key r \<longrightarrow> ob_published x))"
proof -
  have cl: "claimed = snd (claim_loop dest worker now ttl limit token [] 0 (es_outbox s))"
    using assms by (auto simp: es_claim_outbox_once_def split: prod.splits)
  have "\<exists>xs r ys. es_outbox s = xs @ r # ys \<and> co_outbox_id c = show_int (ob_id r) \<and>
       co_event c = ob_event r \<and> ob_destination r = dest \<and> \<not> ob_published r \<and> \<not> ob_poisoned r \<and>
       claim_available now r \<and>
       (\<forall>x \<in> set xs. ob_destination x = dest \<and> session_key x = session_key r \<longrightarrow> ob_published x)"
    if c: "c \<in> set claimed" for c
  proof -
    obtain xs r ys t where "es_outbox s = xs @ r # ys" "c = claimed_of (take_claim worker now ttl t r)"
      "open_for dest r" "\<not> ob_poisoned r" "claim_available now r"
      "\<forall>x \<in> set xs. open_for dest x \<longrightarrow> session_key x \<noteq> claimed_key c"
      using claim_loop_claims [of dest worker now ttl limit token "[]" 0 "es_outbox s"] c
      unfolding cl claimable_def by blast
    moreover from this have "claimed_key c = session_key r" "co_outbox_id c = show_int (ob_id r)" "co_event c = ob_event r"
      by (simp_all add: claimed_key_claim) (simp_all add: claimed_of_def take_claim_def)
    ultimately show ?thesis by (fastforce simp: open_for_def)
  qed
  then show ?thesis
    using claim_loop_length [of dest worker now ttl limit token "[]" 0 "es_outbox s"]
      claim_loop_sessions [of dest worker now ttl limit token "[]" 0 "es_outbox s"] unfolding cl by auto
qed

section \<open>Publication in order\<close>

definition before_ok :: "outbox_record \<Rightarrow> outbox_record \<Rightarrow> bool" where
  "before_ok r r' \<longleftrightarrow> (same_lane r r' \<and> (ob_published r' \<or> ob_claimed_by r' \<noteq> None) \<longrightarrow> ob_published r)"

definition in_order :: "outbox_record list \<Rightarrow> bool" where
  "in_order ob = sorted_wrt before_ok ob"

text \<open>A change of a record that publishes and claims nothing new keeps the order.\<close>

definition milder :: "outbox_record \<Rightarrow> outbox_record \<Rightarrow> bool" where
  "milder r' r \<longleftrightarrow> ob_core r' = ob_core r \<and> (ob_published r \<longrightarrow> ob_published r') \<and>
     (ob_published r' \<or> ob_claimed_by r' \<noteq> None \<longrightarrow> ob_published r \<or> ob_claimed_by r \<noteq> None)"

lemma ob_core_lane: "ob_core r' = ob_core r \<Longrightarrow> same_lane r' x = same_lane r x \<and> same_lane x r' = same_lane x r"
  by (auto simp: ob_core_def same_lane_def session_key_def)

lemma milder_before: "milder r' r \<Longrightarrow> before_ok r x \<Longrightarrow> before_ok r' x" "milder r' r \<Longrightarrow> before_ok x r \<Longrightarrow> before_ok x r'"
  using ob_core_lane [of r' r] by (auto simp: milder_def before_ok_def)

lemma in_order_update_first:
  "(\<And>r. r \<in> set ob \<Longrightarrow> p r \<Longrightarrow> milder (f r) r) \<Longrightarrow> in_order ob \<Longrightarrow> in_order (update_first p f ob)"
proof (induction ob)
  case (Cons r ob)
  have sub: "\<exists>y \<in> set ob. x = y \<or> p y \<and> x = f y" if "x \<in> set (update_first p f ob)" for x
    using that by (induction ob) (auto split: if_splits)
  show ?case
  proof (cases "p r")
    case True
    then show ?thesis using Cons.prems milder_before(1) [of "f r" r] by (auto simp: in_order_def)
  next
    case False
    have "before_ok r x" if "x \<in> set (update_first p f ob)" for x
      using sub [OF that] Cons.prems milder_before(2) [of x _ r] by (auto simp: in_order_def)
    then show ?thesis using False Cons by (auto simp: in_order_def)
  qed
qed (simp add: in_order_def)

lemma in_order_entry: "in_order ob \<Longrightarrow> in_order (outbox_entry d e ob)"
  by (auto simp: in_order_def outbox_entry_def sorted_wrt_append before_ok_def)

lemma in_order_fold: "in_order ob \<Longrightarrow> in_order (fold append_outbox_records es ob)"
  by (induction es arbitrary: ob) (auto simp: append_outbox_records_def Let_def in_order_entry)

lemma take_claim_before:
  "before_ok (take_claim w now ttl t r) x = before_ok r x"
  by (simp add: before_ok_def same_lane_def take_claim_def session_key_def)

lemma claim_loop_in_order:
  assumes "in_order (pre @ ob)" "\<forall>x \<in> set pre. open_for dest x \<longrightarrow> session_key x \<in> set blocked"
  shows "in_order (pre @ fst (claim_loop dest w now ttl limit token blocked n ob))"
  using assms
proof (induction ob arbitrary: pre blocked n)
  case (Cons r rs)
  let ?r' = "take_claim w now ttl (token n) r"
  have swap: "in_order (pre @ ?r' # rs)" if "open_for dest r" "session_key r \<notin> set blocked"
  proof -
    have "before_ok x ?r'" if "x \<in> set pre" for x
      using that \<open>open_for dest r\<close> \<open>session_key r \<notin> set blocked\<close> Cons.prems(2)
      by (auto simp: before_ok_def same_lane_def open_for_def take_claim_def session_key_def)
    then show ?thesis using Cons.prems(1) by (auto simp: in_order_def sorted_wrt_append take_claim_before)
  qed
  have blk: "\<forall>x \<in> set (pre @ [y]). open_for dest x \<longrightarrow> session_key x \<in> set (session_key r # blocked)"
    if "session_key y = session_key r" for y
    using that Cons.prems(2) by auto
  have key': "session_key ?r' = session_key r" by (simp add: take_claim_def session_key_def)
  show ?case
  proof (cases rule: claim_loop_cases [of r dest blocked w now ttl limit token n rs])
    case skip
    have "\<forall>x \<in> set (pre @ [r]). open_for dest x \<longrightarrow> session_key x \<in> set blocked"
      using skip(1) Cons.prems(2) by (auto simp: open_for_def)
    with Cons.IH [of "pre @ [r]" blocked n] Cons.prems(1) skip(2) show ?thesis by simp
  next
    case busy
    then show ?thesis using Cons.IH [of "pre @ [r]", OF _ blk [OF refl]] Cons.prems(1) by simp
  next
    case last
    then show ?thesis using swap by simp
  next
    case more
    then show ?thesis using Cons.IH [of "pre @ [?r']", OF _ blk [OF key']] swap by simp
  qed
qed simp

fun marks :: "es_op \<Rightarrow> bool" where
  \<comment> \<open>\<open>mark_outbox_published\<close> bypasses the claims\<close>
  "marks (Mark_published _) = True"
| "marks _ = False"

lemma milder_simps:
  "milder (release r) r" "milder (fail_record r) r"
  "milder (release (r\<lparr>ob_poisoned := b\<rparr>)) r"
  "milder (release (r\<lparr>ob_poisoned := b, ob_attempt := k\<rparr>)) r"
  by (simp_all add: milder_def ob_core_def release_def fail_record_def Let_def)

lemma milder_dispose:
  "ob_claimed_by r \<noteq> None \<Longrightarrow> dispose dest d r = Some r' \<Longrightarrow> milder r' r"
  by (auto simp: dispose_def milder_def ob_core_def release_def split: if_splits)

lemma in_order_disposition:
  assumes "in_order (es_outbox s)"
  shows "in_order (es_outbox (fst (es_disposition_outbox dest w i token d now s)))"
proof (cases "find (\<lambda>r. show_int (ob_id r) = i) (es_outbox s)")
  case None
  then show ?thesis using assms by (simp add: es_disposition_outbox_def)
next
  case (Some r)
  have once: "in_order (update_first p (\<lambda>_. r') ob)"
    if "find p ob = Some r" "milder r' r" "in_order ob" for p r' and ob :: "outbox_record list"
  proof -
    have "update_first p (\<lambda>_. r') ob = update_first p (\<lambda>x. if x = r then r' else x) ob"
      using that(1) by (induction ob) (auto split: if_splits)
    also have "in_order \<dots>"
      by (rule in_order_update_first [OF _ that(3)]) (use that(2) in \<open>auto simp: milder_def\<close>)
    finally show ?thesis .
  qed
  show ?thesis
    using Some assms once milder_dispose [of r dest d]
    by (auto simp: es_disposition_outbox_def holds_claim_def split: option.splits)
qed

lemma es_step_in_order:
  assumes "in_order (es_outbox s)" "\<not> marks op"
  shows "in_order (es_outbox (es_step op s))"
proof (cases op)
  case (Append root_sid sid run c evs cr st)
  show ?thesis unfolding Append
    by (cases rule: es_append_cases [of s c root_sid sid run evs cr st])
       (auto simp: commit_def in_order_fold assms)
next
  case (Append_batch root_sid c items cr st)
  show ?thesis unfolding Append_batch
    by (cases rule: es_append_batch_cases [of root_sid c items cr st s])
       (auto simp: commit_def in_order_fold assms)
next
  case (Claim d w l ttl now tok)
  then show ?thesis
    using claim_loop_in_order [of "[]" "es_outbox s" d "[]" w now ttl l tok 0] assms
    by (auto simp: es_claim_outbox_once_def split: prod.splits)
next
  case (Disposition d w i tok disp now)
  then show ?thesis using in_order_disposition [OF assms(1)] by simp
qed (use assms in \<open>auto simp: es_save_snapshot_def Let_def es_mark_outbox_failed_def es_redrive_outbox_def
       in_order_update_first milder_simps split: option.splits\<close>)

lemma es_run_in_order:
  "in_order (es_outbox s) \<Longrightarrow> \<forall>op \<in> set ops. \<not> marks op \<Longrightarrow> in_order (es_outbox (fold es_step ops s))"
  by (induction ops arbitrary: s) (auto simp: es_step_in_order)


section \<open>Claims are exclusive\<close>

lemma claim_loop_live:
  assumes "r \<in> set ob" "\<not> claim_available now r"
  shows "r \<in> set (fst (claim_loop dest w now ttl limit token blocked n ob))"
  using assms
  by (induction dest w now ttl limit token blocked n ob rule: claim_loop.induct)
     (auto simp: Let_def split: prod.splits)

lemma ids_ok_distinct: "ids_ok ob \<Longrightarrow> distinct (map ob_id ob)"
  by (auto simp: ids_ok_def distinct_map inj_on_def)

text \<open>
  C15: a live claim is exclusive. While a record is claimed and the claim has not expired, no poll,
  for whatever destination or worker, claims it again or changes it, and a disposition that names
  another worker or another token is refused and changes nothing.
\<close>

theorem live_claim_exclusive:
  assumes "es_inv s" "r \<in> set (es_outbox s)" "ob_claimed_by r = Some w" "ob_claim_token r = Some tok"
    and "ob_claim_expires_at r = Some t" "now < t"
    and "es_claim_outbox_once dest w' limit ttl now token s = (s', claimed)"
    and "w'' \<noteq> w \<or> tok'' \<noteq> tok"
  shows "r \<in> set (es_outbox s') \<and> show_int (ob_id r) \<notin> co_outbox_id ` set claimed \<and>
     es_disposition_outbox dest w'' (show_int (ob_id r)) tok'' disposition now s = (s, False)"
proof -
  have busy: "\<not> claim_available now r" using assms(3,5,6) by (simp add: claim_available_def)
  have dist: "distinct (map ob_id (es_outbox s))" using assms(1) by (simp add: es_inv_def ids_ok_distinct)
  have same: "x = r" if "x \<in> set (es_outbox s)" "ob_id x = ob_id r" for x
    using dist that assms(2) by (auto simp: distinct_map dest: inj_onD)
  have cl: "claimed = snd (claim_loop dest w' now ttl limit token [] 0 (es_outbox s))"
    "es_outbox s' = fst (claim_loop dest w' now ttl limit token [] 0 (es_outbox s))"
    using assms(7) by (auto simp: es_claim_outbox_once_def split: prod.splits)
  have "co_outbox_id c \<noteq> show_int (ob_id r)" if c: "c \<in> set claimed" for c
  proof
    assume eq: "co_outbox_id c = show_int (ob_id r)"
    obtain xs x ys t' where x: "es_outbox s = xs @ x # ys" "c = claimed_of (take_claim w' now ttl t' x)" "claim_available now x"
      using claim_loop_claims [of dest w' now ttl limit token "[]" 0 "es_outbox s"] c
      unfolding cl claimable_def by blast
    then have "ob_id x = ob_id r" using eq by (simp add: claimed_of_def take_claim_def)
    then have "x = r" using same x(1) by auto
    with x(3) busy show False by simp
  qed
  then have "show_int (ob_id r) \<notin> co_outbox_id ` set claimed" by (metis imageE)
  moreover have "es_disposition_outbox dest w'' (show_int (ob_id r)) tok'' disposition now s = (s, False)"
  proof (cases "find (\<lambda>x. show_int (ob_id x) = show_int (ob_id r)) (es_outbox s)")
    case (Some x)
    then have "x = r" using same [of x] by (auto simp: find_Some_iff)
    then show ?thesis using Some assms(3,4,8) by (auto simp: es_disposition_outbox_def holds_claim_def)
  qed (simp add: es_disposition_outbox_def)
  ultimately show ?thesis using claim_loop_live [OF assms(2) busy] cl(2) by auto
qed

section \<open>A concrete store\<close>

definition demo_context :: command_context where
  "demo_context = \<lparr>cc_command_id = ''cmd1'', cc_tenant_id = ''t1'', cc_actor = \<lparr>actor_type = ''user'', actor_id = ''u1''\<rparr>,
     cc_correlation_id = ''c1'', cc_expected_version = 0, cc_operation = ''append'', cc_causation_id = None,
     cc_dept_id = None\<rparr>"

definition demo_events :: "new_event list" where
  "demo_events =
     [\<lparr>ne_type = ''run.requested'', ne_payload = [(''run_id'', PStr ''r1'')], ne_visibility = V_USER\<rparr>,
      \<lparr>ne_type = ''run.completed'', ne_payload = [], ne_visibility = V_USER\<rparr>]"

definition demo_stamp :: "nat \<Rightarrow> string \<times> time" where
  "demo_stamp i = (''evt'' @ show_nat i, int i)"

definition demo_result :: payload where
  "demo_result = [(''_request_fingerprint'', PStr ''f1'')]"

definition demo_append :: es_op where
  "demo_append = Append ''s1'' ''s1'' (Some ''r1'') demo_context demo_events demo_result demo_stamp"

definition demo_store :: event_store where
  "demo_store = es_step demo_append es_init"

lemma demo_store_append:
  "es_append ''s1'' ''s1'' (Some ''r1'') demo_context demo_events demo_result demo_stamp es_init =
   (demo_store, Inr \<lparr>ar_events = stream_of demo_store ''t1'' ''s1'', ar_command_result = demo_result, ar_deduplicated = False\<rparr>)"
  by code_simp


theorem command_replay_idempotent_witness:
  "es_append ''s1'' ''s1'' None demo_context [] demo_result demo_stamp (fold es_step [Mark_failed 1] demo_store) =
     (fold es_step [Mark_failed 1] demo_store,
      Inr \<lparr>ar_events = [], ar_command_result = demo_result, ar_deduplicated = True\<rparr>)"
  by (rule command_replay_idempotent [OF es_inv_init demo_store_append])
     (simp_all add: demo_result_def pget_Cons)

definition demo_token :: "nat \<Rightarrow> string" where
  "demo_token n = ''clm'' @ show_nat n"

definition demo_claim :: "event_store \<times> claimed_outbox_record list" where
  "demo_claim = es_claim_outbox_once ''projection'' ''w1'' 10 100 5 demo_token demo_store"

theorem claim_takes_first_open_witness:
  "int (length (snd demo_claim)) \<le> max 1 10 \<and> distinct (map claimed_key (snd demo_claim)) \<and>
   map co_outbox_id (snd demo_claim) = [''1'']"
proof -
  have "map co_outbox_id (snd demo_claim) = [''1'']" by code_simp
  then show ?thesis
    using claim_takes_first_open [of "''projection''" "''w1''" 10 100 5 demo_token demo_store "fst demo_claim" "snd demo_claim"]
    by (simp add: demo_claim_def)
qed

definition demo_ops :: "es_op list" where
  "demo_ops = [demo_append, Claim ''projection'' ''w1'' 10 100 5 demo_token,
     Disposition ''projection'' ''w1'' ''1'' ''clm0'' ''ack'' 6,
     Claim ''projection'' ''w1'' 10 100 7 demo_token,
     Disposition ''projection'' ''w1'' ''3'' ''clm0'' ''ack'' 8]"

definition demo_outbox :: "outbox_record list" where
  "demo_outbox = es_outbox (fold es_step demo_ops es_init)"


theorem live_claim_exclusive_witness:
  "es_disposition_outbox ''projection'' ''w2'' (show_int (ob_id (es_outbox (fst demo_claim) ! 0))) ''clm0'' ''ack'' 50
     (fst demo_claim) = (fst demo_claim, False)"
proof -
  have inv: "es_inv (fst demo_claim)"
    using es_step_inv [OF es_step_inv [OF es_inv_init], of "Claim ''projection'' ''w1'' 10 100 5 demo_token" demo_append]
    by (simp add: demo_claim_def demo_store_def)
  have "es_outbox (fst demo_claim) ! 0 \<in> set (es_outbox (fst demo_claim))"
    "ob_claimed_by (es_outbox (fst demo_claim) ! 0) = Some ''w1''"
    "ob_claim_token (es_outbox (fst demo_claim) ! 0) = Some ''clm0''"
    "ob_claim_expires_at (es_outbox (fst demo_claim) ! 0) = Some 105"
    by code_simp+
  then show ?thesis
    using live_claim_exclusive [OF inv, of "es_outbox (fst demo_claim) ! 0" "''w1''" "''clm0''" 105 50
      "''projection''" "''w2''" 1 100 demo_token
      "fst (es_claim_outbox_once ''projection'' ''w2'' 1 100 50 demo_token (fst demo_claim))"
      "snd (es_claim_outbox_once ''projection'' ''w2'' 1 100 50 demo_token (fst demo_claim))" "''w2''" "''clm0''" "''ack''"]
    by simp
qed

end
