(* ===== verification/Control_Store.thy ===== *)
theory Control_Store
  imports Event_Store
begin

text \<open>
  The control store (\<open>infrastructure/persistence/memory_control_store.py\<close>, with the records of
  \<open>control/ports.py\<close>): the queue of runnable tasks with its claims, the leases with their fencing
  tokens, the assignments of tasks to runtimes, checkpoints, capacity and cancellations. Every method
  runs under one lock and is one function on the store. A reading of the clock and a fresh identifier
  are arguments; a method that reads the clock twice has two. An instant is at least 0, which is
  \<open>datetime.min\<close>.

  Assignments are mutable objects in the code; the store holds one per task and the model keeps its
  value in the store.
\<close>

section \<open>Records\<close>

definition DEFAULT_RUNTIME_MAX_STEPS :: int where
  "DEFAULT_RUNTIME_MAX_STEPS = 48"

definition AGENT_RUNTIME_POOL :: string where
  "AGENT_RUNTIME_POOL = ''agent''"

definition ASSIGNMENT_RESOURCE_PROFILE_KEYS :: "string list" where
  "ASSIGNMENT_RESOURCE_PROFILE_KEYS =
     [''tool_permissions'', ''required_capabilities'', ''required_skills'', ''agent_profile_ids'',
      ''allowed_models'', ''allowed_harnesses'']"

definition runtime_requirements_from_profile :: "payload \<Rightarrow> payload" where
  "runtime_requirements_from_profile profile =
     (case pget profile ''runtime_requirements'' of
        PDict explicit \<Rightarrow> explicit
      | _ \<Rightarrow> filter (\<lambda>(k, v). k \<notin> set ASSIGNMENT_RESOURCE_PROFILE_KEYS \<and> \<not> prefix ''_auraclaw_'' k) profile)"

record runtime_budget =
  rb_max_steps :: int
  rb_max_output_tokens :: int
  rb_max_cost :: "pyfloat option"
  rb_policy_version :: string

record runtime_assignment =
  ra_tenant_id :: string
  ra_root_session_id :: string
  ra_session_id :: string
  ra_run_id :: string
  ra_runtime_id :: string
  ra_lease_id :: string
  ra_fencing_token :: int
  ra_role :: string
  ra_resource_profile :: payload
  ra_deadline :: "time option"
  ra_budget :: runtime_budget
  ra_lease_expires_at :: "time option"
  ra_lease_assertion :: "payload option"
  ra_user_id :: "string option"
  ra_dept_id :: "string option"
  ra_execution_claim_token :: "string option"
  ra_execution_claim_expires_at :: "time option"

record claimed_assignment =
  ca_task_id :: string
  ca_assignment :: runtime_assignment

record runnable_item =
  ri_task_id :: string
  ri_tenant_id :: string
  ri_root_session_id :: string
  ri_session_id :: string
  ri_run_id :: string
  ri_source_version :: int
  ri_priority :: int
  ri_queue_partition :: string
  ri_role :: string
  ri_required_capability :: payload
  ri_deadline :: "time option"
  ri_budget :: runtime_budget
  ri_user_id :: "string option"
  ri_dept_id :: "string option"

record claimed_runnable =
  cl_item :: runnable_item
  cl_claimed_by :: string
  cl_claim_token :: string
  cl_claim_expires_at :: time

record runtime_lease =
  le_resource_id :: string
  le_lease_id :: string
  le_owner :: string
  le_fencing_token :: int
  le_expires_at :: time

record runtime_instance =
  in_runtime_id :: string
  in_runtime_type :: string
  in_role :: string
  in_node_id :: string
  in_capabilities :: payload
  in_capacity :: int
  in_registration_id :: string

record runtime_checkpoint =
  cp_tenant_id :: string
  cp_session_id :: string
  cp_run_id :: string
  cp_fencing_token :: int
  cp_phase :: string
  cp_state :: payload
  cp_updated_at :: time

type_synonym run_key = "string \<times> string \<times> string"
type_synonym queue_entry = "runnable_item \<times> string \<times> string option"

record control_store =
  cs_queue :: "(string, queue_entry) dict"
  cs_queue_claims :: "(string, string \<times> time) dict"
  cs_queue_available_at :: "(string, time) dict"
  cs_leases :: "(string, runtime_lease) dict"
  cs_lease_counters :: "(string, int) dict"
  cs_assignments :: "(string, runtime_assignment \<times> string) dict"
  cs_assignment_started_at :: "(string, time) dict"
  cs_pending_wakes :: "string list"
  cs_runtimes :: "(string, runtime_instance \<times> time) dict"
  cs_capacity :: "(string, int) dict"
  cs_checkpoints :: "(run_key, runtime_checkpoint) dict"
  cs_cancellations :: "run_key list"

definition cs_init :: control_store where
  "cs_init = \<lparr>cs_queue = [], cs_queue_claims = [], cs_queue_available_at = [], cs_leases = [],
     cs_lease_counters = [], cs_assignments = [], cs_assignment_started_at = [], cs_pending_wakes = [],
     cs_runtimes = [], cs_capacity = [], cs_checkpoints = [], cs_cancellations = []\<rparr>"

definition stale_heartbeat_after :: duration where "stale_heartbeat_after = seconds 30"
definition execution_claim_ttl :: duration where "execution_claim_ttl = seconds 30"
definition assignment_lease_ttl :: duration where "assignment_lease_ttl = seconds 30"

definition resource_id :: "string \<Rightarrow> string \<Rightarrow> string" where
  \<comment> \<open>the resource of a Session's lease\<close>
  "resource_id tenant session = ''session:'' @ tenant @ '':'' @ session"

definition assignment_resource :: "runtime_assignment \<Rightarrow> string" where
  "assignment_resource a = resource_id (ra_tenant_id a) (ra_session_id a)"

definition set_queue :: "string \<Rightarrow> runnable_item \<Rightarrow> string \<Rightarrow> string option \<Rightarrow> control_store \<Rightarrow> control_store" where
  "set_queue task item status owner s = s\<lparr>cs_queue := AList.update task (item, status, owner) (cs_queue s)\<rparr>"

definition drop_claim :: "string \<Rightarrow> control_store \<Rightarrow> control_store" where
  \<comment> \<open>\<open>self._queue_claims.pop(task_id, None)\<close>\<close>
  "drop_claim task s = s\<lparr>cs_queue_claims := AList.delete task (cs_queue_claims s)\<rparr>"

definition set_assignment :: "string \<Rightarrow> runtime_assignment \<Rightarrow> string \<Rightarrow> control_store \<Rightarrow> control_store" where
  "set_assignment task a status s = s\<lparr>cs_assignments := AList.update task (a, status) (cs_assignments s)\<rparr>"

definition drop_started :: "string \<Rightarrow> control_store \<Rightarrow> control_store" where
  "drop_started task s = s\<lparr>cs_assignment_started_at := AList.delete task (cs_assignment_started_at s)\<rparr>"

definition set_lease :: "string \<Rightarrow> runtime_lease \<Rightarrow> control_store \<Rightarrow> control_store" where
  "set_lease r l s = s\<lparr>cs_leases := AList.update r l (cs_leases s)\<rparr>"

definition drop_lease :: "string \<Rightarrow> control_store \<Rightarrow> control_store" where
  "drop_lease r s = s\<lparr>cs_leases := AList.delete r (cs_leases s)\<rparr>"

definition drop_wake :: "string \<Rightarrow> control_store \<Rightarrow> control_store" where
  "drop_wake task s = s\<lparr>cs_pending_wakes := removeAll task (cs_pending_wakes s)\<rparr>"

definition requeue :: "string \<Rightarrow> control_store \<Rightarrow> control_store" where
  \<comment> \<open>put a known task back in the queue, without a claim\<close>
  "requeue task s =
     (case map_of (cs_queue s) task of
        None \<Rightarrow> s
      | Some (item, _, _) \<Rightarrow> drop_claim task (set_queue task item ''queued'' None s))"

section \<open>Queue\<close>

definition cs_enqueue :: "runnable_item \<Rightarrow> control_store \<Rightarrow> control_store \<times> bool" where
  "cs_enqueue item s =
     (case map_of (cs_queue s) (ri_task_id item) of
        Some _ \<Rightarrow> (s, False)
      | None \<Rightarrow> (set_queue (ri_task_id item) item ''queued'' None s, True))"

definition claim_candidate :: "time \<Rightarrow> control_store \<Rightarrow> queue_entry \<Rightarrow> bool" where
  "claim_candidate now s entry =
     (case entry of (item, status, _) \<Rightarrow>
        status = ''queued'' \<and> dget (cs_queue_available_at s) (ri_task_id item) now \<le> now \<or>
        status = ''claimed'' \<and> snd (dget (cs_queue_claims s) (ri_task_id item) ([], 0)) \<le> now)"

definition claim_order :: "control_store \<Rightarrow> time \<Rightarrow> runnable_item list" where
  "claim_order s now =
     sort_key (\<lambda>item. (- ri_priority item, ri_task_id item))
       (map fst (filter (claim_candidate now s) (dvalues (cs_queue s))))"

fun claim_items ::
  "string \<Rightarrow> time \<Rightarrow> (nat \<Rightarrow> string) \<Rightarrow> nat \<Rightarrow> runnable_item list \<Rightarrow> control_store \<Rightarrow>
   control_store \<times> claimed_runnable list" where
  "claim_items worker expires token n [] s = (s, [])"
| "claim_items worker expires token n (item # items) s =
     (let s1 = set_queue (ri_task_id item) item ''claimed'' (Some worker) s;
          s2 = s1\<lparr>cs_queue_claims := AList.update (ri_task_id item) (token n, expires) (cs_queue_claims s1)\<rparr>
      in case claim_items worker expires token (Suc n) items s2 of (s3, cs) \<Rightarrow>
           (s3, \<lparr>cl_item = item, cl_claimed_by = worker, cl_claim_token = token n, cl_claim_expires_at = expires\<rparr> # cs))"

definition cs_claim ::
  "string \<Rightarrow> int \<Rightarrow> duration \<Rightarrow> time \<Rightarrow> (nat \<Rightarrow> string) \<Rightarrow> control_store \<Rightarrow>
   control_store \<times> claimed_runnable list" where
  "cs_claim worker limit ttl now token s =
     claim_items worker (now + ttl) token 0 (slice_to (Some limit) (claim_order s now)) s"

definition owns_claim :: "string option \<Rightarrow> string option \<Rightarrow> time \<Rightarrow> string \<Rightarrow> control_store \<Rightarrow> string option \<Rightarrow> bool" where
  "owns_claim worker token now task s owner \<longleftrightarrow>
     owner = worker \<and>
     (case map_of (cs_queue_claims s) task of None \<Rightarrow> False | Some (t, e) \<Rightarrow> Some t = token \<and> now < e)"

definition cs_reschedule ::
  "string \<Rightarrow> string option \<Rightarrow> string option \<Rightarrow> duration \<Rightarrow> time \<Rightarrow> time \<Rightarrow> control_store \<Rightarrow> control_store" where
  "cs_reschedule task worker token delay now now' s =
     (let fail = (\<lambda>s. case map_of (cs_assignments s) task of
                        None \<Rightarrow> s | Some (a, _) \<Rightarrow> set_assignment task a ''failed'' s)
      in case map_of (cs_queue s) task of
           None \<Rightarrow> fail s
         | Some (item, _, owner) \<Rightarrow>
             if (worker \<noteq> None \<or> token \<noteq> None) \<and> \<not> owns_claim worker token now task s owner then s
             else fail (drop_claim task
                    ((set_queue task item ''queued'' None s)
                       \<lparr>cs_queue_available_at := AList.update task (now' + delay) (cs_queue_available_at s)\<rparr>)))"

section \<open>Leases\<close>

definition cs_acquire_lease ::
  "string \<Rightarrow> string \<Rightarrow> duration \<Rightarrow> time \<Rightarrow> string \<Rightarrow> control_store \<Rightarrow> control_store \<times> runtime_lease option" where
  "cs_acquire_lease r owner ttl now fresh s =
     (if (case map_of (cs_leases s) r of None \<Rightarrow> False | Some l \<Rightarrow> now < le_expires_at l) then (s, None)
      else let token = dget (cs_lease_counters s) r 0 + 1;
               lease = \<lparr>le_resource_id = r, le_lease_id = fresh, le_owner = owner, le_fencing_token = token,
                        le_expires_at = now + ttl\<rparr>
           in (set_lease r lease (s\<lparr>cs_lease_counters := AList.update r token (cs_lease_counters s)\<rparr>), Some lease))"

definition lease_conflict :: "string \<Rightarrow> aura_error" where
  "lease_conflict r = LeaseConflictError (''lease is no longer owned: '' @ r)"

definition cs_renew_lease ::
  "runtime_lease \<Rightarrow> duration \<Rightarrow> time \<Rightarrow> time \<Rightarrow> control_store \<Rightarrow> control_store \<times> runtime_lease result" where
  "cs_renew_lease lease ttl now now' s =
     (case map_of (cs_leases s) (le_resource_id lease) of
        None \<Rightarrow> (s, Inl (lease_conflict (le_resource_id lease)))
      | Some current \<Rightarrow>
          if le_lease_id current \<noteq> le_lease_id lease \<or> le_owner current \<noteq> le_owner lease \<or>
             le_fencing_token current \<noteq> le_fencing_token lease \<or> le_expires_at current \<le> now
          then (s, Inl (lease_conflict (le_resource_id lease)))
          else let renewed = current\<lparr>le_expires_at := now' + ttl\<rparr>
               in (set_lease (le_resource_id lease) renewed s, Inr renewed))"

definition cs_release_lease :: "runtime_lease \<Rightarrow> control_store \<Rightarrow> control_store" where
  "cs_release_lease lease s =
     (case map_of (cs_leases s) (le_resource_id lease) of
        None \<Rightarrow> s
      | Some current \<Rightarrow>
          if le_lease_id current = le_lease_id lease then drop_lease (le_resource_id lease) s else s)"

definition live_token :: "control_store \<Rightarrow> string \<Rightarrow> time \<Rightarrow> int \<Rightarrow> bool" where
  \<comment> \<open>the lease of the resource is live and has this fencing token\<close>
  "live_token s r now token =
     (case map_of (cs_leases s) r of
        None \<Rightarrow> False | Some l \<Rightarrow> now < le_expires_at l \<and> le_fencing_token l = token)"

definition cs_assert_fencing :: "string \<Rightarrow> int \<Rightarrow> time \<Rightarrow> control_store \<Rightarrow> unit result" where
  "cs_assert_fencing r token now s =
     raise_if (\<not> live_token s r now token)
       (FencingTokenError (''stale fencing token '' @ show_int token @ '' for '' @ r)) (Inr ())"

section \<open>Assignments\<close>

definition REASSIGNABLE :: "string list" where
  "REASSIGNABLE = [''expired'', ''completed'', ''failed'', ''waiting_children'', ''waiting_for_human'',
     ''waiting_for_tool'']"

definition WAITING :: "string list" where
  "WAITING = [''waiting_children'', ''waiting_for_human'', ''waiting_for_tool'']"

definition assign_allowed ::
  "string \<Rightarrow> runtime_assignment \<Rightarrow> string \<Rightarrow> time \<Rightarrow> time \<Rightarrow> control_store \<Rightarrow> bool" where
  "assign_allowed task a token now now' s =
     (case (map_of (cs_queue s) task, map_of (cs_queue_claims s) task,
            map_of (cs_leases s) (assignment_resource a)) of
        (Some (_, status, owner), Some (t, e), Some l) \<Rightarrow>
          status = ''claimed'' \<and> t = token \<and> now < e \<and> le_lease_id l = ra_lease_id a \<and>
          le_fencing_token l = ra_fencing_token a \<and> Some (le_owner l) = owner \<and> now' < le_expires_at l \<and>
          (case map_of (cs_assignments s) task of None \<Rightarrow> True | Some (_, st) \<Rightarrow> st \<in> set REASSIGNABLE)
      | _ \<Rightarrow> False)"

definition cs_assign ::
  "string \<Rightarrow> runtime_assignment \<Rightarrow> string \<Rightarrow> time \<Rightarrow> time \<Rightarrow> control_store \<Rightarrow> control_store \<times> bool" where
  "cs_assign task a token now now' s =
     (if \<not> assign_allowed task a token now now' s then (s, False)
      else let s1 = drop_wake task (set_assignment task a ''assigned'' s) in
           (case map_of (cs_queue s1) task of
              None \<Rightarrow> s1
            | Some (item, _, owner) \<Rightarrow> drop_claim task (set_queue task item ''assigned'' owner s1), True))"

definition cs_get_assignment :: "string \<Rightarrow> control_store \<Rightarrow> runtime_assignment option" where
  "cs_get_assignment task s = map_option fst (map_of (cs_assignments s) task)"

definition ACTIVE :: "string list" where
  "ACTIVE = [''assigned'', ''running'']"

definition active_count :: "control_store \<Rightarrow> string \<Rightarrow> int" where
  "active_count s runtime =
     int (length (filter (\<lambda>(a, status). ra_runtime_id a = runtime \<and> status \<in> set ACTIVE)
       (dvalues (cs_assignments s))))"

definition runtime_suits :: "control_store \<Rightarrow> runnable_item \<Rightarrow> time \<Rightarrow> runtime_instance \<times> time \<Rightarrow> bool" where
  "runtime_suits s item now entry =
     (case entry of (r, heartbeat_at) \<Rightarrow>
        (in_role r = AGENT_RUNTIME_POOL \<or> in_role r = ri_role item) \<and>
        now - seconds 30 < heartbeat_at \<and>
        (rb_policy_version (ri_budget item) = ''2'' \<longrightarrow>
           pget (in_capabilities r) ''runtime_governance_v2'' = PBool True) \<and>
        list_all (\<lambda>(k, v). py_eq (pget (in_capabilities r) k) v)
          (runtime_requirements_from_profile (ri_required_capability item)) \<and>
        active_count s (in_runtime_id r) < in_capacity r)"

fun first_min :: "('a \<Rightarrow> int) \<Rightarrow> 'a list \<Rightarrow> 'a option" where
  \<comment> \<open>\<open>min(xs, key=f)\<close>: the first of the smallest\<close>
  "first_min f [] = None"
| "first_min f (x # xs) =
     (case first_min f xs of None \<Rightarrow> Some x | Some y \<Rightarrow> Some (if f x \<le> f y then x else y))"

definition cs_select_runtime :: "runnable_item \<Rightarrow> (nat \<Rightarrow> time) \<Rightarrow> control_store \<Rightarrow> runtime_instance option" where
  "cs_select_runtime item clock s =
     first_min (\<lambda>r. active_count s (in_runtime_id r))
       (map (fst \<circ> snd)
         (filter (\<lambda>(i, entry). runtime_suits s item (clock i) entry)
           (enumerate 0 (dvalues (cs_runtimes s)))))"

definition claimable_assignment ::
  "string \<Rightarrow> runtime_instance \<Rightarrow> time \<Rightarrow> control_store \<Rightarrow> runtime_assignment \<times> string \<Rightarrow> bool" where
  "claimable_assignment runtime r now s entry =
     (case entry of (a, status) \<Rightarrow>
        ra_runtime_id a = runtime \<and> status = ''assigned'' \<and>
        (rb_policy_version (ra_budget a) = ''2'' \<longrightarrow>
           pget (in_capabilities r) ''runtime_governance_v2'' = PBool True) \<and>
        live_token s (assignment_resource a) now (ra_fencing_token a))"

definition start_assignment ::
  "string \<Rightarrow> runtime_assignment \<Rightarrow> runtime_lease \<Rightarrow> time \<Rightarrow> string \<Rightarrow> control_store \<Rightarrow> control_store \<times> runtime_assignment" where
  "start_assignment task a lease now token s =
     (let expires = min (le_expires_at lease) (now + assignment_lease_ttl);
          a' = a\<lparr>ra_execution_claim_token := Some token,
                 ra_execution_claim_expires_at := Some (now + execution_claim_ttl),
                 ra_lease_expires_at := Some expires\<rparr>;
          s1 = set_assignment task a' ''running''
                 (set_lease (assignment_resource a) (lease\<lparr>le_expires_at := expires\<rparr>) s)
      in (s1\<lparr>cs_assignment_started_at := setdefault task now (cs_assignment_started_at s1)\<rparr>, a'))"

fun claim_assignment_loop ::
  "string \<Rightarrow> runtime_instance \<Rightarrow> time \<Rightarrow> int \<Rightarrow> (nat \<Rightarrow> string) \<Rightarrow> nat \<Rightarrow>
   (string \<times> runtime_assignment \<times> string) list \<Rightarrow> control_store \<Rightarrow> control_store \<times> claimed_assignment list" where
  "claim_assignment_loop runtime r now limit token n [] s = (s, [])"
| "claim_assignment_loop runtime r now limit token n ((task, a, status) # rest) s =
     (if \<not> claimable_assignment runtime r now s (a, status)
      then claim_assignment_loop runtime r now limit token n rest s
      else (case map_of (cs_leases s) (assignment_resource a) of
              None \<Rightarrow> claim_assignment_loop runtime r now limit token n rest s
            | Some lease \<Rightarrow>
                (case start_assignment task a lease now (token n) s of (s1, a') \<Rightarrow>
                   if limit \<le> int (Suc n) then (s1, [\<lparr>ca_task_id = task, ca_assignment = a'\<rparr>])
                   else (case claim_assignment_loop runtime r now limit token (Suc n) rest s1 of
                           (s2, cs) \<Rightarrow> (s2, \<lparr>ca_task_id = task, ca_assignment = a'\<rparr> # cs)))))"

definition cs_claim_assignments ::
  "string \<Rightarrow> string \<Rightarrow> string \<Rightarrow> int \<Rightarrow> time \<Rightarrow> (nat \<Rightarrow> string) \<Rightarrow> control_store \<Rightarrow>
   control_store \<times> claimed_assignment list" where
  "cs_claim_assignments runtime role registration limit now token s =
     (case map_of (cs_runtimes s) runtime of
        None \<Rightarrow> (s, [])
      | Some (r, _) \<Rightarrow>
          if in_role r \<noteq> role \<or> in_registration_id r \<noteq> registration then (s, [])
          else claim_assignment_loop runtime r now limit token 0 (cs_assignments s) s)"

definition cs_renew_assignment_claim ::
  "string \<Rightarrow> string \<Rightarrow> string \<Rightarrow> string \<Rightarrow> string \<Rightarrow> int \<Rightarrow> time \<Rightarrow> control_store \<Rightarrow>
   control_store \<times> runtime_assignment result" where
  "cs_renew_assignment_claim task runtime registration token lease_id fencing now s =
     (case (map_of (cs_assignments s) task, map_of (cs_runtimes s) runtime) of
        (Some (a, status), Some (r, _)) \<Rightarrow>
          let gone = (s, Inl (LeaseConflictError ''execution claim is no longer owned'')) in
          (case map_of (cs_leases s) (assignment_resource a) of
             None \<Rightarrow> gone
           | Some lease \<Rightarrow>
               if status \<noteq> ''running'' \<or> in_registration_id r \<noteq> registration \<or> ra_runtime_id a \<noteq> runtime \<or>
                  ra_execution_claim_token a \<noteq> Some token \<or>
                  (case ra_execution_claim_expires_at a of None \<Rightarrow> True | Some e \<Rightarrow> e \<le> now) \<or>
                  ra_lease_id a \<noteq> lease_id \<or> ra_fencing_token a \<noteq> fencing \<or>
                  le_lease_id lease \<noteq> lease_id \<or> le_fencing_token lease \<noteq> fencing \<or> le_expires_at lease \<le> now
               then gone
               else let expires = now + assignment_lease_ttl;
                        a' = a\<lparr>ra_lease_expires_at := Some expires,
                               ra_execution_claim_expires_at := Some (now + execution_claim_ttl)\<rparr>;
                        s1 = set_assignment task a' status
                               (set_lease (assignment_resource a) (lease\<lparr>le_expires_at := expires\<rparr>) s)
                    in (s1\<lparr>cs_runtimes := AList.update runtime (r, now) (cs_runtimes s1)\<rparr>, Inr a'))
      | _ \<Rightarrow> (s, Inl (LeaseConflictError ''execution claim is unavailable'')))"

definition SETTLED :: "string list" where
  "SETTLED = [''expired'', ''completed'', ''failed'', ''cancelled'', ''waiting_children'',
     ''waiting_for_human'', ''waiting_for_tool'']"

definition expire_assignment :: "string \<Rightarrow> runtime_assignment \<Rightarrow> control_store \<Rightarrow> control_store" where
  "expire_assignment task a s = requeue task (drop_started task (set_assignment task a ''expired'' s))"

definition cs_abandon_stale_assignment ::
  "string \<Rightarrow> string \<Rightarrow> string \<Rightarrow> int \<Rightarrow> time \<Rightarrow> control_store \<Rightarrow> control_store \<times> bool" where
  "cs_abandon_stale_assignment task runtime lease_id fencing now s =
     (case map_of (cs_assignments s) task of
        None \<Rightarrow> (s, False)
      | Some (a, status) \<Rightarrow>
          if ra_runtime_id a \<noteq> runtime \<or> ra_lease_id a \<noteq> lease_id \<or> ra_fencing_token a \<noteq> fencing
          then (s, False)
          else if status \<in> set SETTLED then (s, True)
          else if live_token s (assignment_resource a) now fencing then (s, False)
          else (expire_assignment task a s, True))"

definition FINISHED :: "string list" where
  "FINISHED = [''completed'', ''failed'', ''cancelled'', ''waiting_children'', ''waiting_for_human'',
     ''waiting_for_tool'']"

definition park :: "string \<Rightarrow> bool \<Rightarrow> control_store \<Rightarrow> control_store" where
  \<comment> \<open>leave the queue, or go back to it when a wake-up came in meanwhile\<close>
  "park task wake s =
     (case map_of (cs_queue s) task of
        None \<Rightarrow> s
      | Some (item, _, owner) \<Rightarrow>
          if wake then drop_claim task (set_queue task item ''queued'' None s)
          else set_queue task item ''acked'' owner s)"

definition cs_finish_assignment :: "string \<Rightarrow> string \<Rightarrow> control_store \<Rightarrow> control_store" where
  "cs_finish_assignment task outcome s =
     (let wake = (outcome \<in> set WAITING \<and> task \<in> set (cs_pending_wakes s));
          s1 = (case map_of (cs_assignments s) task of
                  None \<Rightarrow> s
                | Some (a, _) \<Rightarrow>
                    let s' = set_assignment task a outcome s in
                    if outcome \<in> set FINISHED
                    then let s'' = drop_started task s' in
                         (case map_of (cs_leases s'') (assignment_resource a) of
                            None \<Rightarrow> s''
                          | Some l \<Rightarrow> if le_lease_id l = ra_lease_id a
                                     then drop_lease (assignment_resource a) s'' else s'')
                    else s')
      in drop_wake task (park task wake s1))"

definition unsupported_suspension :: "string \<Rightarrow> aura_error" where
  "unsupported_suspension reason = ValueError (''unsupported assignment suspension: '' @ reason)"

definition cs_suspend_assignment :: "string \<Rightarrow> string \<Rightarrow> control_store \<Rightarrow> control_store result" where
  "cs_suspend_assignment task reason s =
     raise_if (reason \<notin> set WAITING) (unsupported_suspension reason) (Inr (cs_finish_assignment task reason s))"

definition checkpoint_key :: "runtime_checkpoint \<Rightarrow> run_key" where
  "checkpoint_key c = (cp_tenant_id c, cp_session_id c, cp_run_id c)"

definition checkpoint_resource :: "runtime_checkpoint \<Rightarrow> string" where
  "checkpoint_resource c = resource_id (cp_tenant_id c) (cp_session_id c)"

definition stale_suspension :: aura_error where
  "stale_suspension = FencingTokenError ''checkpoint suspension rejected for stale Runtime''"

definition newer_checkpoint :: "control_store \<Rightarrow> runtime_checkpoint \<Rightarrow> bool" where
  \<comment> \<open>a checkpoint with a larger fencing token is stored\<close>
  "newer_checkpoint s c =
     (case map_of (cs_checkpoints s) (checkpoint_key c) of
        None \<Rightarrow> False | Some p \<Rightarrow> cp_fencing_token c < cp_fencing_token p)"

definition cs_suspend_with_checkpoint ::
  "string \<Rightarrow> runtime_checkpoint \<Rightarrow> string \<Rightarrow> time \<Rightarrow> control_store \<Rightarrow> control_store result" where
  "cs_suspend_with_checkpoint task c reason now s =
     raise_if (reason \<notin> set WAITING) (unsupported_suspension reason)
     (case map_of (cs_assignments s) task of
        None \<Rightarrow> Inl stale_suspension
      | Some (a, _) \<Rightarrow>
          raise_if (ra_run_id a \<noteq> cp_run_id c \<or> \<not> live_token s (checkpoint_resource c) now (cp_fencing_token c))
            stale_suspension
          (raise_if (newer_checkpoint s c) stale_suspension
          (let s1 = drop_lease (checkpoint_resource c) (drop_started task (set_assignment task a reason
                      (s\<lparr>cs_checkpoints := AList.update (checkpoint_key c) c (cs_checkpoints s)\<rparr>)))
           in Inr (drop_wake task (park task (task \<in> set (cs_pending_wakes s)) s1)))))"

definition cs_wake_assignment :: "string \<Rightarrow> control_store \<Rightarrow> control_store \<times> bool" where
  "cs_wake_assignment task s =
     (case (map_of (cs_assignments s) task, map_of (cs_queue s) task) of
        (Some (_, status), Some (item, qstatus, _)) \<Rightarrow>
          if status \<in> set ACTIVE
          then (s\<lparr>cs_pending_wakes := List.insert task (cs_pending_wakes s)\<rparr>, False)
          else if status \<notin> set WAITING then (s, False)
          else if qstatus \<noteq> ''acked'' then (s, False)
          else (drop_wake task (drop_claim task (set_queue task item ''queued'' None s)), True)
      | _ \<Rightarrow> (s, False))"

definition cs_list_waiting_assignments :: "int \<Rightarrow> string \<Rightarrow> control_store \<Rightarrow> runtime_assignment list" where
  "cs_list_waiting_assignments limit status s =
     take (nat (max 0 limit))
       (map (\<lambda>(_, a, _). a)
         (filter (\<lambda>(task, _, st). st = status \<and>
            (case map_of (cs_queue s) task of None \<Rightarrow> False | Some (_, q, _) \<Rightarrow> q = ''acked'')) (cs_assignments s)))"

section \<open>Runtimes, capacity, checkpoints, cancellation\<close>

definition cs_register_runtime :: "runtime_instance \<Rightarrow> time \<Rightarrow> time \<Rightarrow> control_store \<Rightarrow> control_store result" where
  "cs_register_runtime i now now' s =
     raise_if (case map_of (cs_runtimes s) (in_runtime_id i) of
                 None \<Rightarrow> False
               | Some (r, beat) \<Rightarrow> in_registration_id r \<noteq> in_registration_id i \<and> now - stale_heartbeat_after < beat)
       (LeaseConflictError (''runtime id is already registered: '' @ in_runtime_id i))
       (Inr (s\<lparr>cs_runtimes := AList.update (in_runtime_id i) (i, now') (cs_runtimes s)\<rparr>))"

definition cs_heartbeat ::
  "string \<Rightarrow> int option \<Rightarrow> string \<Rightarrow> time \<Rightarrow> control_store \<Rightarrow> control_store result" where
  "cs_heartbeat runtime fencing registration now s =
     (case map_of (cs_runtimes s) runtime of
        None \<Rightarrow> Inl (LeaseConflictError (''unknown runtime: '' @ runtime))
      | Some (r, _) \<Rightarrow>
          raise_if (in_registration_id r \<noteq> registration)
            (LeaseConflictError (''runtime registration is stale: '' @ runtime))
          (raise_if (case fencing of None \<Rightarrow> False
                     | Some f \<Rightarrow> (case find (\<lambda>(a, _). ra_runtime_id a = runtime) (dvalues (cs_assignments s)) of
                                    None \<Rightarrow> True | Some (a, _) \<Rightarrow> ra_fencing_token a \<noteq> f))
             (FencingTokenError (''stale runtime heartbeat: '' @ runtime))
          (Inr (s\<lparr>cs_runtimes := AList.update runtime (r, now) (cs_runtimes s)\<rparr>))))"

definition cs_reserve_capacity :: "string \<Rightarrow> int \<Rightarrow> int \<Rightarrow> control_store \<Rightarrow> control_store \<times> bool" where
  "cs_reserve_capacity scope amount limit s =
     (let current = dget (cs_capacity s) scope 0 in
      if amount < 0 \<or> limit < current + amount then (s, False)
      else (s\<lparr>cs_capacity := AList.update scope (current + amount) (cs_capacity s)\<rparr>, True))"

definition cs_release_capacity :: "string \<Rightarrow> int \<Rightarrow> control_store \<Rightarrow> control_store" where
  "cs_release_capacity scope amount s =
     s\<lparr>cs_capacity := AList.update scope (max 0 (dget (cs_capacity s) scope 0 - amount)) (cs_capacity s)\<rparr>"

definition cs_save_checkpoint :: "runtime_checkpoint \<Rightarrow> time \<Rightarrow> control_store \<Rightarrow> control_store result" where
  "cs_save_checkpoint c now s =
     raise_if (\<not> live_token s (checkpoint_resource c) now (cp_fencing_token c))
       (FencingTokenError ''checkpoint rejected for stale Runtime'')
       (Inr (if newer_checkpoint s c then s
             else s\<lparr>cs_checkpoints := AList.update (checkpoint_key c) c (cs_checkpoints s)\<rparr>))"

definition cs_load_checkpoint :: "string \<Rightarrow> string \<Rightarrow> string \<Rightarrow> control_store \<Rightarrow> runtime_checkpoint option" where
  "cs_load_checkpoint tenant session run s = map_of (cs_checkpoints s) (tenant, session, run)"

definition cs_request_cancel :: "string \<Rightarrow> string \<Rightarrow> string \<Rightarrow> control_store \<Rightarrow> control_store" where
  "cs_request_cancel tenant session run s =
     s\<lparr>cs_cancellations := List.insert (tenant, session, run) (cs_cancellations s)\<rparr>"

definition cs_is_cancelled :: "string \<Rightarrow> string \<Rightarrow> string \<Rightarrow> control_store \<Rightarrow> bool" where
  "cs_is_cancelled tenant session run s \<longleftrightarrow> (tenant, session, run) \<in> set (cs_cancellations s)"

section \<open>Recovery\<close>

definition assignment_lost :: "time \<Rightarrow> control_store \<Rightarrow> runtime_assignment \<times> string \<Rightarrow> bool" where
  \<comment> \<open>an active assignment whose execution claim expired or whose runtime is gone or silent\<close>
  "assignment_lost now s entry =
     (case entry of (a, status) \<Rightarrow>
        status \<in> set ACTIVE \<and>
        (status = ''running'' \<and> (case ra_execution_claim_expires_at a of None \<Rightarrow> False | Some e \<Rightarrow> e \<le> now) \<or>
         (case map_of (cs_runtimes s) (ra_runtime_id a) of
            None \<Rightarrow> True | Some (_, beat) \<Rightarrow> beat \<le> now - stale_heartbeat_after)))"

definition expired_resources :: "time \<Rightarrow> control_store \<Rightarrow> string list" where
  "expired_resources now s =
     map fst (filter (\<lambda>(_, l). le_expires_at l \<le> now) (cs_leases s)) @
     map (assignment_resource \<circ> fst) (filter (assignment_lost now s) (dvalues (cs_assignments s)))"

fun expire_lost ::
  "string list \<Rightarrow> (string \<times> runtime_assignment \<times> string) list \<Rightarrow> control_store \<Rightarrow> control_store \<times> int" where
  "expire_lost lost [] s = (s, 0)"
| "expire_lost lost ((task, a, status) # rest) s =
     (if assignment_resource a \<in> set lost \<and> status \<in> set ACTIVE
      then (case expire_lost lost rest (expire_assignment task a s) of (s', n) \<Rightarrow> (s', n + 1))
      else expire_lost lost rest s)"

fun expire_claims ::
  "time \<Rightarrow> (string \<times> queue_entry) list \<Rightarrow> control_store \<Rightarrow> control_store \<times> int" where
  "expire_claims now [] s = (s, 0)"
| "expire_claims now ((task, item, status, owner) # rest) s =
     (if status = ''claimed'' \<and>
         (case map_of (cs_queue_claims s) task of None \<Rightarrow> False | Some (_, e) \<Rightarrow> e \<le> now)
      then (case expire_claims now rest (drop_claim task (set_queue task item ''queued'' None s)) of
              (s', n) \<Rightarrow> (s', n + 1))
      else expire_claims now rest s)"

definition cs_recover_expired :: "time \<Rightarrow> control_store \<Rightarrow> control_store \<times> int" where
  "cs_recover_expired now s =
     (let lost = expired_resources now s;
          s1 = fold drop_lease lost s
      in case expire_lost lost (cs_assignments s1) s1 of (s2, n) \<Rightarrow>
         (case expire_claims now (cs_queue s2) s2 of (s3, m) \<Rightarrow> (s3, n + m)))"

end
