(* ===== verification/Control_Store_Laws.thy ===== *)
theory Control_Store_Laws
  imports Control_Store Event_Store_Laws
begin

text \<open>
  Laws of the control store. The store is run as a machine over its methods (\<open>cs_op\<close>,
  \<open>cs_step\<close>), with two invariants by \<open>store_machine\<close>: the fencing counters
  dominate every lease (\<open>cs_inv\<close>), and queue and assignments are dictionaries keyed by task
  id (\<open>dicts_ok\<close>). On them rest the properties of leases, fencing, checkpoints, capacity,
  recovery, wake-ups, assignment and queue claims.
\<close>

section \<open>The store as a machine\<close>

datatype cs_op =
    Enqueue runnable_item
  | Claim_tasks string int duration time "nat \<Rightarrow> string"
  | Reschedule string "string option" "string option" duration time time
  | Acquire_lease string string duration time string
  | Renew_lease runtime_lease duration time time
  | Release_lease runtime_lease
  | Assign string runtime_assignment string time time
  | Claim_assignments string string string int time "nat \<Rightarrow> string"
  | Renew_claim string string string string string int time
  | Abandon string string string int time
  | Finish string string
  | Suspend string string
  | Suspend_checkpoint string runtime_checkpoint string time
  | Wake string
  | Register runtime_instance time time
  | Heartbeat string "int option" string time
  | Reserve string int int
  | Release string int
  | Save_checkpoint runtime_checkpoint time
  | Request_cancel string string string
  | Recover time

definition or_same :: "control_store \<Rightarrow> control_store result \<Rightarrow> control_store" where
  \<comment> \<open>a method that raises leaves the store as it was\<close>
  "or_same s r = (case r of Inl _ \<Rightarrow> s | Inr s' \<Rightarrow> s')"

fun cs_step :: "cs_op \<Rightarrow> control_store \<Rightarrow> control_store" where
  "cs_step (Enqueue item) s = fst (cs_enqueue item s)"
| "cs_step (Claim_tasks w l ttl now tok) s = fst (cs_claim w l ttl now tok s)"
| "cs_step (Reschedule t w tok d n n') s = cs_reschedule t w tok d n n' s"
| "cs_step (Acquire_lease r ow ttl now f) s = fst (cs_acquire_lease r ow ttl now f s)"
| "cs_step (Renew_lease l ttl n n') s = fst (cs_renew_lease l ttl n n' s)"
| "cs_step (Release_lease l) s = cs_release_lease l s"
| "cs_step (Assign t a tok n n') s = fst (cs_assign t a tok n n' s)"
| "cs_step (Claim_assignments r ro reg l n tok) s = fst (cs_claim_assignments r ro reg l n tok s)"
| "cs_step (Renew_claim t r reg tok lid f n) s = fst (cs_renew_assignment_claim t r reg tok lid f n s)"
| "cs_step (Abandon t r lid f n) s = fst (cs_abandon_stale_assignment t r lid f n s)"
| "cs_step (Finish t outc) s = cs_finish_assignment t outc s"
| "cs_step (Suspend t r) s = or_same s (cs_suspend_assignment t r s)"
| "cs_step (Suspend_checkpoint t c r n) s = or_same s (cs_suspend_with_checkpoint t c r n s)"
| "cs_step (Wake t) s = fst (cs_wake_assignment t s)"
| "cs_step (Register i n n') s = or_same s (cs_register_runtime i n n' s)"
| "cs_step (Heartbeat r f reg n) s = or_same s (cs_heartbeat r f reg n s)"
| "cs_step (Reserve sc a l) s = fst (cs_reserve_capacity sc a l s)"
| "cs_step (Release sc a) s = cs_release_capacity sc a s"
| "cs_step (Save_checkpoint c n) s = or_same s (cs_save_checkpoint c n s)"
| "cs_step (Request_cancel t ss r) s = cs_request_cancel t ss r s"
| "cs_step (Recover n) s = fst (cs_recover_expired n s)"

section \<open>What keeps the fencing tokens\<close>

text \<open>No counter moves, and a lease of the new store is one of the old, perhaps with another expiry.\<close>

definition tame :: "control_store \<Rightarrow> control_store \<Rightarrow> bool" where
  "tame s s' \<longleftrightarrow> cs_lease_counters s' = cs_lease_counters s \<and> cs_checkpoints s' = cs_checkpoints s \<and>
     cs_capacity s' = cs_capacity s \<and>
     (\<forall>r l'. map_of (cs_leases s') r = Some l' \<longrightarrow>
        (\<exists>l. map_of (cs_leases s) r = Some l \<and> le_fencing_token l' = le_fencing_token l \<and>
             le_resource_id l' = le_resource_id l))"

lemma tame_refl [simp]: "tame s s"
  by (simp add: tame_def)

lemma tame_trans: "tame s t \<Longrightarrow> tame t u \<Longrightarrow> tame s u"
  unfolding tame_def by (metis (no_types, lifting))

lemma tame_fields:
  "cs_lease_counters s' = cs_lease_counters s \<Longrightarrow> cs_checkpoints s' = cs_checkpoints s \<Longrightarrow>
   cs_capacity s' = cs_capacity s \<Longrightarrow> cs_leases s' = cs_leases s \<Longrightarrow> tame s s'"
  by (simp add: tame_def)

lemma tame_helpers [simp]:
  "tame s (set_queue t i st ow s)" "tame s (drop_claim t s)" "tame s (set_assignment t a st s)"
  "tame s (drop_started t s)" "tame s (drop_wake t s)" "tame s (drop_lease r s)"
  by (simp_all add: tame_def set_queue_def drop_claim_def set_assignment_def drop_started_def drop_wake_def
      drop_lease_def dict_simps)

lemma tame_set_lease:
  "map_of (cs_leases s) r = Some l \<Longrightarrow> tame s (set_lease r (l\<lparr>le_expires_at := e\<rparr>) s)"
  by (auto simp: tame_def set_lease_def dict_simps)

lemma tame_chain [simp]:
  assumes "tame s x"
  shows "tame s (set_queue t i st ow x)" "tame s (drop_claim t x)" "tame s (set_assignment t a st x)"
    "tame s (drop_started t x)" "tame s (drop_wake t x)" "tame s (drop_lease r x)"
  using assms tame_helpers tame_trans by blast+

lemma tame_other_fields [simp]:
  assumes "tame s x"
  shows "tame s (x\<lparr>cs_queue_claims := a\<rparr>)" "tame s (x\<lparr>cs_queue_available_at := b\<rparr>)"
    "tame s (x\<lparr>cs_assignment_started_at := c\<rparr>)" "tame s (x\<lparr>cs_runtimes := d\<rparr>)"
    "tame s (x\<lparr>cs_pending_wakes := e\<rparr>)" "tame s (x\<lparr>cs_cancellations := f\<rparr>)"
  using assms by (simp_all add: tame_def)

lemma tame_requeue [simp]: "tame s x \<Longrightarrow> tame s (requeue t x)"
  by (auto simp: requeue_def split: option.splits)

lemma tame_park [simp]: "tame s x \<Longrightarrow> tame s (park t w x)"
  by (auto simp: park_def split: option.splits)

lemma tame_expire [simp]: "tame s x \<Longrightarrow> tame s (expire_assignment t a x)"
  by (simp add: expire_assignment_def)

lemma tame_drop_leases: "tame s x \<Longrightarrow> tame s (fold drop_lease rs x)"
  by (induction rs arbitrary: x) simp_all

lemma tame_claim_items: "tame s x \<Longrightarrow> tame s (fst (claim_items w e tok n items x))"
  by (induction items arbitrary: n x) (simp_all add: Let_def case_prod_unfold)

lemma tame_start:
  "tame s x \<Longrightarrow> map_of (cs_leases x) (assignment_resource a) = Some l \<Longrightarrow>
   tame s (fst (start_assignment t a l n tok x))"
  unfolding start_assignment_def Let_def fst_conv
  by (intro tame_other_fields tame_chain) (rule tame_trans [OF _ tame_set_lease])

lemma tame_claim_assignment_loop:
  "tame s x \<Longrightarrow> tame s (fst (claim_assignment_loop rt r now limit tok n entries x))"
proof (induction entries arbitrary: n x)
  case (Cons entry entries)
  obtain task a status where e: "entry = (task, a, status)" by (cases entry) auto
  show ?case
  proof (cases "map_of (cs_leases x) (assignment_resource a)")
    case None
    then show ?thesis using Cons e by simp
  next
    case (Some l)
    have "tame s (fst (start_assignment task a l now (tok n) x))" by (rule tame_start [OF Cons.prems Some])
    then show ?thesis using Cons e Some by (simp add: case_prod_unfold)
  qed
qed simp

lemma tame_expire_lost: "tame s x \<Longrightarrow> tame s (fst (expire_lost lost entries x))"
  by (induction lost entries x rule: expire_lost.induct) (simp_all add: case_prod_unfold)

lemma tame_expire_claims: "tame s x \<Longrightarrow> tame s (fst (expire_claims now entries x))"
  by (induction now entries x rule: expire_claims.induct) (simp_all add: case_prod_unfold)

lemma tame_recover: "tame s (fst (cs_recover_expired now s))"
  unfolding cs_recover_expired_def Let_def case_prod_unfold fst_conv
  by (intro tame_expire_claims tame_expire_lost tame_drop_leases tame_refl)

lemma tame_finish: "tame s (cs_finish_assignment t outc s)"
  by (auto simp: cs_finish_assignment_def Let_def split: option.split)

fun token_op :: "cs_op \<Rightarrow> bool" where
  \<comment> \<open>the operations that move a counter, a checkpoint or a capacity\<close>
  "token_op (Acquire_lease _ _ _ _ _) = True"
| "token_op (Suspend_checkpoint _ _ _ _) = True"
| "token_op (Save_checkpoint _ _) = True"
| "token_op (Reserve _ _ _) = True"
| "token_op (Release _ _) = True"
| "token_op _ = False"

lemma cs_step_tame:
  assumes "\<not> token_op op"
  shows "tame s (cs_step op s)"
proof (cases op)
  case (Assign t a tok n n')
  then show ?thesis by (auto simp: cs_assign_def Let_def split: option.split)
next
  case (Claim_tasks w l ttl now tok)
  then show ?thesis by (simp add: cs_claim_def tame_claim_items)
next
  case (Renew_lease l ttl n n')
  then show ?thesis
    by (auto simp: cs_renew_lease_def Let_def split: option.splits intro: tame_set_lease)
next
  case (Claim_assignments r ro reg l n tok)
  then show ?thesis by (auto simp: cs_claim_assignments_def tame_claim_assignment_loop split: option.splits)
next
  case (Renew_claim t r reg tok lid f n)
  then show ?thesis
    by (auto simp: cs_renew_assignment_claim_def Let_def tame_set_lease split: option.splits prod.splits)
next
  case (Suspend t r)
  then show ?thesis by (simp add: tame_finish cs_suspend_assignment_def or_same_def raise_if_def)
next
  case (Reschedule t w tok d n n')
  then show ?thesis by (auto simp: cs_reschedule_def Let_def split: option.splits)
qed (use assms in \<open>auto simp: cs_enqueue_def cs_release_lease_def cs_abandon_stale_assignment_def
       cs_register_runtime_def cs_heartbeat_def cs_request_cancel_def cs_wake_assignment_def or_same_def raise_if_def
       tame_recover tame_finish split: option.splits\<close>)

section \<open>Fencing\<close>

definition counter :: "control_store \<Rightarrow> string \<Rightarrow> int" where
  "counter s r = dget (cs_lease_counters s) r 0"

definition cs_inv :: "control_store \<Rightarrow> bool" where
  "cs_inv s \<longleftrightarrow>
     (\<forall>r l. map_of (cs_leases s) r = Some l \<longrightarrow> le_fencing_token l = counter s r \<and> le_resource_id l = r) \<and>
     (\<forall>k c. map_of (cs_checkpoints s) k = Some c \<longrightarrow>
        checkpoint_key c = k \<and> cp_fencing_token c \<le> counter s (checkpoint_resource c)) \<and>
     (\<forall>scope. 0 \<le> dget (cs_capacity s) scope 0)"

lemma cs_inv_init: "cs_inv cs_init"
  by (simp add: cs_inv_def cs_init_def dget_def)

lemma tame_counter: "tame s s' \<Longrightarrow> counter s' r = counter s r"
  by (simp add: tame_def counter_def)

lemma tame_inv:
  assumes "cs_inv s" "tame s s'"
  shows "cs_inv s'"
proof -
  have c: "counter s' r = counter s r" for r by (rule tame_counter [OF assms(2)])
  have "le_fencing_token l' = counter s r \<and> le_resource_id l' = r" if r: "map_of (cs_leases s') r = Some l'" for r l'
  proof -
    obtain l where "map_of (cs_leases s) r = Some l" "le_fencing_token l' = le_fencing_token l"
      "le_resource_id l' = le_resource_id l"
      using assms(2) r unfolding tame_def by blast
    then show ?thesis using assms(1) by (simp add: cs_inv_def)
  qed
  moreover have "cs_checkpoints s' = cs_checkpoints s" "cs_capacity s' = cs_capacity s"
    using assms(2) by (simp_all add: tame_def)
  ultimately show ?thesis using assms(1) by (simp add: cs_inv_def c)
qed

lemma live_token_counter: "cs_inv s \<Longrightarrow> live_token s r now token \<Longrightarrow> token = counter s r"
  by (auto simp: live_token_def cs_inv_def split: option.splits)

lemma acquire_cases:
  obtains (refused) l where "map_of (cs_leases s) r = Some l" "now < le_expires_at l"
      "cs_acquire_lease r ow ttl now f s = (s, None)"
  | (granted) "cs_acquire_lease r ow ttl now f s =
      (set_lease r \<lparr>le_resource_id = r, le_lease_id = f, le_owner = ow, le_fencing_token = counter s r + 1,
          le_expires_at = now + ttl\<rparr>
        (s\<lparr>cs_lease_counters := AList.update r (counter s r + 1) (cs_lease_counters s)\<rparr>),
       Some \<lparr>le_resource_id = r, le_lease_id = f, le_owner = ow, le_fencing_token = counter s r + 1,
          le_expires_at = now + ttl\<rparr>)"
proof (cases "case map_of (cs_leases s) r of None \<Rightarrow> False | Some l \<Rightarrow> now < le_expires_at l")
  case True
  then obtain l where "map_of (cs_leases s) r = Some l" "now < le_expires_at l"
    by (auto split: option.splits)
  with True show ?thesis using that(1) by (simp add: cs_acquire_lease_def)
next
  case False
  then show ?thesis using that(2) by (simp add: cs_acquire_lease_def counter_def Let_def)
qed

lemma counter_update:
  "counter (set_lease r l (s\<lparr>cs_lease_counters := AList.update r n (cs_lease_counters s)\<rparr>)) r' =
   (if r' = r then n else counter s r')"
  by (simp add: counter_def set_lease_def dget_def dict_simps)

lemma acquire_inv: "cs_inv s \<Longrightarrow> cs_inv (fst (cs_acquire_lease r ow ttl now f s))"
proof (cases rule: acquire_cases [of s r now ow ttl f])
  case granted
  assume inv: "cs_inv s"
  let ?s' = "fst (cs_acquire_lease r ow ttl now f s)"
  have c: "counter ?s' r' = (if r' = r then counter s r + 1 else counter s r')" for r'
    unfolding granted by (simp add: counter_update)
  have mono: "x \<le> counter s r' \<Longrightarrow> x \<le> counter ?s' r'" for x r' by (auto simp: c)
  have "cs_checkpoints ?s' = cs_checkpoints s" "cs_capacity ?s' = cs_capacity s"
    unfolding granted by (simp_all add: set_lease_def)
  moreover have "le_fencing_token l = counter ?s' r' \<and> le_resource_id l = r'" if "map_of (cs_leases ?s') r' = Some l" for r' l
    using that inv unfolding c by (auto simp: granted set_lease_def dict_simps cs_inv_def split: if_splits)
  ultimately show ?thesis using inv mono by (simp add: cs_inv_def)
qed simp

lemma save_inv:
  assumes "cs_inv s" "live_token s (checkpoint_resource c) now (cp_fencing_token c)"
  shows "cs_inv (s\<lparr>cs_checkpoints := AList.update (checkpoint_key c) c (cs_checkpoints s)\<rparr>)"
  using assms(1) live_token_counter [OF assms]
  by (auto simp: cs_inv_def dict_simps counter_def)

lemma suspend_checkpoint_stores:
  assumes "cs_suspend_with_checkpoint t c r now s = Inr s'"
  shows "live_token s (checkpoint_resource c) now (cp_fencing_token c)" "\<not> newer_checkpoint s c"
    "tame (s\<lparr>cs_checkpoints := AList.update (checkpoint_key c) c (cs_checkpoints s)\<rparr>) s'"
  using assms by (auto simp: cs_suspend_with_checkpoint_def Let_def split: option.splits)

lemma cs_step_inv:
  assumes "cs_inv s"
  shows "cs_inv (cs_step op s)"
proof (cases "token_op op")
  case False
  then show ?thesis using cs_step_tame tame_inv assms by blast
next
  case True
  then show ?thesis
  proof (cases op)
    case (Acquire_lease r ow ttl now f)
    then show ?thesis using acquire_inv [OF assms] by simp
  next
    case (Suspend_checkpoint t c r n)
    show ?thesis
    proof (cases "cs_suspend_with_checkpoint t c r n s")
      case (Inr s')
      note st = suspend_checkpoint_stores [OF Inr]
      show ?thesis using tame_inv [OF save_inv [OF assms st(1)] st(3)] Inr Suspend_checkpoint by (simp add: or_same_def)
    qed (use assms Suspend_checkpoint in \<open>simp add: or_same_def\<close>)
  next
    case (Save_checkpoint c n)
    then show ?thesis using assms save_inv [OF assms] by (auto simp: or_same_def cs_save_checkpoint_def raise_if_def)
  next
    case (Reserve sc a l)
    then show ?thesis using assms
      by (auto simp: cs_inv_def cs_reserve_capacity_def Let_def counter_def dget_def dict_simps)
  next
    case (Release sc a)
    then show ?thesis using assms
      by (auto simp: cs_inv_def cs_release_capacity_def counter_def dget_def dict_simps)
  qed auto
qed

interpretation control: store_machine cs_init cs_step cs_inv
  by unfold_locales (rule cs_inv_init, rule cs_step_inv)

text \<open>Counters and stored checkpoints never go back.\<close>

definition advances :: "control_store \<Rightarrow> control_store \<Rightarrow> bool" where
  "advances s s' \<longleftrightarrow> (\<forall>r. counter s r \<le> counter s' r) \<and>
     (\<forall>k c. map_of (cs_checkpoints s) k = Some c \<longrightarrow>
        (\<exists>c'. map_of (cs_checkpoints s') k = Some c' \<and> cp_fencing_token c \<le> cp_fencing_token c'))"

lemma advances_refl: "advances s s"
  by (simp add: advances_def)

lemma advances_trans: "advances s t \<Longrightarrow> advances t u \<Longrightarrow> advances s u"
  unfolding advances_def by (meson order_trans)

lemma tame_advances: "tame s s' \<Longrightarrow> advances s s'"
  using tame_counter [of s s'] by (auto simp: advances_def tame_def)

lemma save_advances:
  "\<not> newer_checkpoint s c \<Longrightarrow>
   advances s (s\<lparr>cs_checkpoints := AList.update (checkpoint_key c) c (cs_checkpoints s)\<rparr>)"
  by (auto simp: advances_def newer_checkpoint_def counter_def dict_simps split: option.splits)

lemma cs_step_advances: "advances s (cs_step op s)"
proof (cases "token_op op")
  case False
  then show ?thesis using cs_step_tame tame_advances by blast
next
  case True
  then show ?thesis
  proof (cases op)
    case (Acquire_lease r ow ttl now f)
    show ?thesis
      by (cases rule: acquire_cases [of s r now ow ttl f])
         (simp_all add: Acquire_lease advances_def counter_update, simp add: set_lease_def)
  next
    case (Suspend_checkpoint t c r n)
    show ?thesis
    proof (cases "cs_suspend_with_checkpoint t c r n s")
      case (Inr s')
      note st = suspend_checkpoint_stores [OF Inr]
      show ?thesis using advances_trans [OF save_advances [OF st(2)] tame_advances [OF st(3)]] Inr Suspend_checkpoint
        by (simp add: or_same_def)
    qed (use Suspend_checkpoint in \<open>simp add: or_same_def advances_refl\<close>)
  next
    case (Save_checkpoint c n)
    then show ?thesis using save_advances
      by (auto simp: or_same_def cs_save_checkpoint_def raise_if_def advances_refl)
  qed (auto simp: advances_def cs_reserve_capacity_def cs_release_capacity_def Let_def counter_def)
qed

lemma cs_run_advances: "cs_inv s \<Longrightarrow> advances s (fold cs_step ops s)"
  unfolding control.run_def [symmetric]
  by (rule control.run_relation [where R = advances]) (auto intro: advances_refl advances_trans cs_step_advances)

text \<open>
  C16: a stale fencing token is never accepted again. When a resource's lease has been granted with
  some token, every smaller token is refused from then on, whatever operations run: fencing is
  refused, and so is a checkpoint of the Session with such a token, which leaves the store unchanged.
\<close>

theorem stale_token_never_accepted:
  fixes before
  defines "s \<equiv> fold cs_step before cs_init"
  assumes "cs_acquire_lease r ow ttl now f s = (s1, Some l)" "token < le_fencing_token l"
    and "r = checkpoint_resource c" "cp_fencing_token c = token"
  shows "\<exists>msg msg'. cs_assert_fencing r token now' (fold cs_step ops s1) = Inl (FencingTokenError msg) \<and>
     cs_save_checkpoint c now' (fold cs_step ops s1) = Inl (FencingTokenError msg')"
proof -
  have "cs_inv s" unfolding s_def using control.inv_reachable [of before] by (simp add: control.run_def)
  then have inv1: "cs_inv s1" using acquire_inv [of s r ow ttl now f] assms(2) by simp
  have "le_fencing_token l = counter s1 r"
    by (cases rule: acquire_cases [of s r now ow ttl f]) (use assms(2) in \<open>auto simp: counter_update\<close>)
  also have "\<dots> \<le> counter (fold cs_step ops s1) r"
    using cs_run_advances [OF inv1, of ops] by (simp add: advances_def)
  finally have "token \<noteq> counter (fold cs_step ops s1) r" using assms(3) by simp
  then have "\<not> live_token (fold cs_step ops s1) r now' token"
    using live_token_counter control.inv_run [OF inv1] unfolding control.run_def by blast
  then show ?thesis using assms(4,5) by (simp add: cs_assert_fencing_def cs_save_checkpoint_def)
qed

text \<open>
  C17: a lease is exclusive and its tokens grow. In every reachable state, while a lease of the resource
  has not expired nobody acquires another, and a lease that is granted has a token larger than the one
  of every lease the resource has had.
\<close>

theorem lease_exclusive_and_monotone:
  fixes ops later r
  defines "s \<equiv> fold cs_step ops cs_init"
  defines "s' \<equiv> fold cs_step later s"
  assumes "map_of (cs_leases s) r = Some l"
  shows "(\<forall>ow ttl now f. map_of (cs_leases s') r = Some l \<and> now < le_expires_at l \<longrightarrow>
            cs_acquire_lease r ow ttl now f s' = (s', None)) \<and>
         (\<forall>ow ttl now f s'' l'. cs_acquire_lease r ow ttl now f s' = (s'', Some l') \<longrightarrow>
            le_fencing_token l < le_fencing_token l')"
proof -
  have inv: "cs_inv s" unfolding s_def using control.inv_reachable [of ops] by (simp add: control.run_def)
  have "le_fencing_token l \<le> counter s' r"
    using inv assms(3) cs_run_advances [OF inv, of later] unfolding s'_def by (simp add: cs_inv_def advances_def)
  then have "le_fencing_token l < le_fencing_token l'"
    if "cs_acquire_lease r ow ttl now f s' = (s'', Some l')" for ow ttl now f s'' l'
    by (cases rule: acquire_cases [of s' r now ow ttl f]) (use that in auto)
  then show ?thesis by (auto simp: cs_acquire_lease_def)
qed

text \<open>
  C22: checkpoints do not go back. A stored checkpoint of a Run stays or is replaced by one whose
  fencing token is at least as large, so that a runtime that lost its lease never overwrites the
  progress of its successor.
\<close>

theorem checkpoints_monotone:
  assumes "cs_load_checkpoint t sid run (fold cs_step ops cs_init) = Some c"
  shows "\<exists>c'. cs_load_checkpoint t sid run (fold cs_step (ops @ later) cs_init) = Some c' \<and>
     cp_fencing_token c \<le> cp_fencing_token c'"
  using assms cs_run_advances [OF control.inv_reachable [of ops], of later]
  by (auto simp: control.run_def advances_def cs_load_checkpoint_def)

section \<open>Capacity\<close>

text \<open>
  C23: reserved capacity is never negative and stays within the limit. If every reservation of a scope
  names the same limit and no release is negative, the capacity taken in that scope is between zero and that limit in every
  reachable state, and a reservation that does not fit is refused without a trace.
\<close>

theorem capacity_within_limit:
  assumes "\<forall>op \<in> set ops. \<forall>a l. (op = Reserve scope a l \<longrightarrow> l = limit) \<and> (op = Release scope a \<longrightarrow> 0 \<le> a)"
    and "0 \<le> limit"
  shows "0 \<le> dget (cs_capacity (fold cs_step ops cs_init)) scope 0 \<and>
     dget (cs_capacity (fold cs_step ops cs_init)) scope 0 \<le> limit"
proof -
  have step: "dget (cs_capacity (cs_step op s)) scope 0 \<le> limit"
    if "dget (cs_capacity s) scope 0 \<le> limit" 
      "\<forall>a l. (op = Reserve scope a l \<longrightarrow> l = limit) \<and> (op = Release scope a \<longrightarrow> 0 \<le> a)" "cs_inv s" for op s
  proof (cases "\<exists>sc a l. op = Reserve sc a l \<or> op = Release sc a")
    case True
    then show ?thesis
      using that assms(2) by (auto simp: cs_reserve_capacity_def cs_release_capacity_def Let_def dget_def dict_simps cs_inv_def)
  next
    case False
    have "cs_capacity (cs_step op s) = cs_capacity s"
    proof (cases "token_op op")
      case True
      with False show ?thesis
      proof (cases op)
        case (Suspend_checkpoint t c r n)
        then show ?thesis using suspend_checkpoint_stores(3) [of t c r n s]
          by (cases "cs_suspend_with_checkpoint t c r n s") (auto simp: or_same_def tame_def)
      qed (auto simp: cs_acquire_lease_def Let_def set_lease_def or_same_def cs_save_checkpoint_def raise_if_def)
    next
      case False
      then show ?thesis using cs_step_tame [of op s] by (simp add: tame_def)
    qed
    then show ?thesis using that by simp
  qed
  have "dget (cs_capacity s) scope 0 \<le> limit \<Longrightarrow> cs_inv s \<Longrightarrow>
      \<forall>op \<in> set ops. \<forall>a l. (op = Reserve scope a l \<longrightarrow> l = limit) \<and> (op = Release scope a \<longrightarrow> 0 \<le> a) \<Longrightarrow>
      dget (cs_capacity (fold cs_step ops s)) scope 0 \<le> limit \<and> cs_inv (fold cs_step ops s)" for s
    by (induction ops arbitrary: s) (auto simp: step cs_step_inv)
  from this [of cs_init] show ?thesis
    using assms cs_inv_init by (simp add: cs_init_def dget_def cs_inv_def)
qed

section \<open>Tasks are keyed by their id\<close>

definition dicts_ok :: "control_store \<Rightarrow> bool" where
  "dicts_ok s \<longleftrightarrow> distinct (dkeys (cs_queue s)) \<and> distinct (dkeys (cs_assignments s)) \<and>
     (\<forall>(task, entry) \<in> set (cs_queue s). ri_task_id (fst entry) = task)"

lemma dicts_ok_queue: "dicts_ok s \<Longrightarrow> map_of (cs_queue s) t = Some (item, st, ow) \<Longrightarrow> ri_task_id item = t"
  by (auto simp: dicts_ok_def dest!: map_of_SomeD)

lemma dicts_ok_helpers [simp]:
  assumes "dicts_ok x"
  shows "dicts_ok (drop_claim t x)" "dicts_ok (set_assignment t a st x)" "dicts_ok (drop_started t x)"
    "dicts_ok (drop_wake t x)" "dicts_ok (drop_lease r x)" "dicts_ok (set_lease r l x)"
  using assms by (simp_all add: dicts_ok_def drop_claim_def set_assignment_def drop_started_def drop_wake_def
      drop_lease_def set_lease_def dict_simps)

lemma dicts_ok_fields [simp]:
  assumes "dicts_ok x"
  shows "dicts_ok (x\<lparr>cs_queue_claims := a\<rparr>)" "dicts_ok (x\<lparr>cs_queue_available_at := b\<rparr>)"
    "dicts_ok (x\<lparr>cs_assignment_started_at := c\<rparr>)" "dicts_ok (x\<lparr>cs_runtimes := d\<rparr>)"
    "dicts_ok (x\<lparr>cs_pending_wakes := e\<rparr>)" "dicts_ok (x\<lparr>cs_cancellations := f\<rparr>)"
    "dicts_ok (x\<lparr>cs_lease_counters := g\<rparr>)" "dicts_ok (x\<lparr>cs_checkpoints := h\<rparr>)" "dicts_ok (x\<lparr>cs_capacity := i\<rparr>)"
  using assms by (simp_all add: dicts_ok_def)

lemma dicts_ok_set_queue [simp]:
  "dicts_ok x \<Longrightarrow> ri_task_id i = t \<Longrightarrow> dicts_ok (set_queue t i st ow x)"
  using set_update_subset [of t "(i, st, ow)" "cs_queue x"]
  by (fastforce simp: dicts_ok_def set_queue_def dict_simps)

lemma dicts_ok_requeue [simp]: "dicts_ok x \<Longrightarrow> dicts_ok (requeue t x)"
  by (auto simp: requeue_def dicts_ok_queue split: option.splits)

lemma dicts_ok_park [simp]: "dicts_ok x \<Longrightarrow> dicts_ok (park t w x)"
  by (auto simp: park_def dicts_ok_queue split: option.splits)

lemma dicts_ok_expire [simp]: "dicts_ok x \<Longrightarrow> dicts_ok (expire_assignment t a x)"
  by (simp add: expire_assignment_def)

lemma dicts_ok_claim_items: "dicts_ok x \<Longrightarrow> dicts_ok (fst (claim_items w e tok n items x))"
  by (induction items arbitrary: n x) (simp_all add: Let_def case_prod_unfold)

lemma dicts_ok_claim_assignment_loop:
  "dicts_ok x \<Longrightarrow> dicts_ok (fst (claim_assignment_loop rt r now limit tok n entries x))"
proof (induction entries arbitrary: n x)
  case (Cons entry entries)
  obtain task a status where e: "entry = (task, a, status)" by (cases entry) auto
  have "dicts_ok (fst (start_assignment task a l now (tok n) x))" for l
    using Cons.prems by (simp add: start_assignment_def Let_def)
  then show ?case using Cons e by (auto simp: case_prod_unfold split: option.split)
qed simp

lemma dicts_ok_expire_lost: "dicts_ok x \<Longrightarrow> dicts_ok (fst (expire_lost lost entries x))"
  by (induction lost entries x rule: expire_lost.induct) (simp_all add: case_prod_unfold)

lemma dicts_ok_expire_claims:
  "dicts_ok x \<Longrightarrow> \<forall>(task, entry) \<in> set entries. ri_task_id (fst entry) = task \<Longrightarrow>
   dicts_ok (fst (expire_claims now entries x))"
  by (induction now entries x rule: expire_claims.induct) (auto simp: case_prod_unfold)

lemma dicts_ok_drop_leases: "dicts_ok x \<Longrightarrow> dicts_ok (fold drop_lease rs x)"
  by (induction rs arbitrary: x) simp_all

lemma dicts_ok_recover: "dicts_ok s \<Longrightarrow> dicts_ok (fst (cs_recover_expired now s))"
proof -
  assume ok: "dicts_ok s"
  let ?s2 = "fst (expire_lost (expired_resources now s)
     (cs_assignments (fold drop_lease (expired_resources now s) s)) (fold drop_lease (expired_resources now s) s))"
  have "dicts_ok ?s2" by (intro dicts_ok_expire_lost dicts_ok_drop_leases ok)
  then show ?thesis
    unfolding cs_recover_expired_def Let_def case_prod_unfold fst_conv
    by (intro dicts_ok_expire_claims) (simp_all add: dicts_ok_def case_prod_unfold)
qed

lemma dicts_ok_finish: "dicts_ok s \<Longrightarrow> dicts_ok (cs_finish_assignment t outc s)"
  by (auto simp: cs_finish_assignment_def Let_def split: option.split)

lemma cs_step_dicts:
  assumes "dicts_ok s"
  shows "dicts_ok (cs_step op s)"
proof (cases op)
  case (Claim_tasks w l ttl now tok)
  then show ?thesis using assms by (simp add: cs_claim_def dicts_ok_claim_items)
next
  case (Claim_assignments r ro reg l n tok)
  then show ?thesis using assms by (auto simp: cs_claim_assignments_def dicts_ok_claim_assignment_loop split: option.splits)
next
  case (Renew_claim t r reg tok lid f n)
  then show ?thesis using assms by (auto simp: cs_renew_assignment_claim_def Let_def split: option.splits prod.splits)
next
  case (Reschedule t w tok d n n')
  then show ?thesis using assms by (auto simp: cs_reschedule_def Let_def dicts_ok_queue split: option.splits)
next
  case (Suspend_checkpoint t c r n)
  then show ?thesis using assms
    by (auto simp: cs_suspend_with_checkpoint_def Let_def raise_if_def or_same_def split: option.splits)
next
  case (Assign t a tok n n')
  then show ?thesis using assms
    by (auto simp: cs_assign_def Let_def drop_wake_def set_assignment_def dict_simps intro!: dicts_ok_helpers dicts_ok_fields
         dicts_ok_set_queue dest: dicts_ok_queue split: option.split)
       (simp_all add: dicts_ok_def dict_simps)
next
  case (Wake t)
  then show ?thesis using assms by (auto simp: cs_wake_assignment_def dicts_ok_queue split: option.splits)
qed (use assms in \<open>auto simp: cs_enqueue_def cs_acquire_lease_def cs_renew_lease_def cs_release_lease_def
       cs_abandon_stale_assignment_def cs_suspend_assignment_def cs_register_runtime_def cs_heartbeat_def
       cs_reserve_capacity_def cs_release_capacity_def cs_save_checkpoint_def cs_request_cancel_def Let_def
       or_same_def raise_if_def dicts_ok_recover dicts_ok_finish split: option.splits\<close>)

interpretation control_dicts: store_machine cs_init cs_step dicts_ok
  by unfold_locales (simp add: dicts_ok_def cs_init_def, rule cs_step_dicts)

section \<open>Recovery\<close>

lemma drop_leases_set: "set (cs_leases (fold drop_lease rs s)) = {(r, l) \<in> set (cs_leases s). r \<notin> set rs}"
  by (induction rs arbitrary: s) (auto simp: drop_lease_def AList.delete_eq)

lemma drop_leases_other [simp]:
  "cs_assignments (fold drop_lease rs s) = cs_assignments s" "cs_queue (fold drop_lease rs s) = cs_queue s"
  "cs_runtimes (fold drop_lease rs s) = cs_runtimes s" "cs_queue_claims (fold drop_lease rs s) = cs_queue_claims s"
  by (induction rs arbitrary: s) (simp_all add: drop_lease_def)

lemma expire_assignment_fields [simp]:
  "map_of (cs_assignments (expire_assignment t a s)) = (map_of (cs_assignments s))(t \<mapsto> (a, ''expired''))"
  "cs_leases (expire_assignment t a s) = cs_leases s" "cs_runtimes (expire_assignment t a s) = cs_runtimes s"
  by (auto simp: expire_assignment_def requeue_def drop_claim_def set_queue_def drop_started_def set_assignment_def
      dict_simps split: option.splits)

lemma expire_assignment_queue:
  "map_of (cs_queue (expire_assignment t a s)) t' =
     (if t' = t then map_option (\<lambda>(i, _, _). (i, ''queued'', None)) (map_of (cs_queue s) t) else map_of (cs_queue s) t')"
  by (auto simp: expire_assignment_def requeue_def drop_claim_def set_queue_def drop_started_def set_assignment_def
      dict_simps split: option.splits)

lemma expire_lost_fields [simp]:
  "cs_leases (fst (expire_lost lost entries s)) = cs_leases s"
  "cs_runtimes (fst (expire_lost lost entries s)) = cs_runtimes s"
  by (induction lost entries s rule: expire_lost.induct) (simp_all add: case_prod_unfold)

definition to_expire :: "string list \<Rightarrow> (runtime_assignment \<times> string) option \<Rightarrow> bool" where
  "to_expire lost e = (case e of None \<Rightarrow> False
     | Some (a, st) \<Rightarrow> assignment_resource a \<in> set lost \<and> st \<in> set ACTIVE)"

lemma expire_lost_assignments:
  "distinct (dkeys entries) \<Longrightarrow>
   map_of (cs_assignments (fst (expire_lost lost entries s))) t =
     (if to_expire lost (map_of entries t) then map_option (\<lambda>(a, _). (a, ''expired'')) (map_of entries t)
      else map_of (cs_assignments s) t)"
proof (induction lost entries s rule: expire_lost.induct)
  case (2 lost task a status rest s)
  have "map_of rest task = None" using "2.prems" by (simp add: map_of_None_dkeys)
  then show ?case using 2 by (auto simp: case_prod_unfold to_expire_def)
qed (simp add: to_expire_def)

lemma expire_lost_queue:
  "distinct (dkeys entries) \<Longrightarrow>
   map_of (cs_queue (fst (expire_lost lost entries s))) t =
     (if to_expire lost (map_of entries t) then map_option (\<lambda>(i, _, _). (i, ''queued'', None)) (map_of (cs_queue s) t)
      else map_of (cs_queue s) t)"
proof (induction lost entries s rule: expire_lost.induct)
  case (2 lost task a status rest s)
  have "map_of rest task = None" using "2.prems" by (simp add: map_of_None_dkeys)
  then show ?case using 2 by (auto simp: case_prod_unfold to_expire_def expire_assignment_queue)
qed (simp add: to_expire_def)

lemma expire_claims_fields [simp]:
  "cs_leases (fst (expire_claims now entries s)) = cs_leases s"
  "cs_runtimes (fst (expire_claims now entries s)) = cs_runtimes s"
  "cs_assignments (fst (expire_claims now entries s)) = cs_assignments s"
  by (induction now entries s rule: expire_claims.induct) (simp_all add: case_prod_unfold drop_claim_def set_queue_def)

definition claim_dead :: "time \<Rightarrow> control_store \<Rightarrow> string \<Rightarrow> bool" where
  "claim_dead now s t = (case map_of (cs_queue_claims s) t of None \<Rightarrow> False | Some (_, e) \<Rightarrow> e \<le> now)"

lemma expire_claims_queue:
  assumes "distinct (dkeys entries)"
  shows "map_of (cs_queue (fst (expire_claims now entries s))) t =
     (case map_of entries t of
        Some (i, st, ow) \<Rightarrow> if st = ''claimed'' \<and> claim_dead now s t then Some (i, ''queued'', None) else map_of (cs_queue s) t
      | None \<Rightarrow> map_of (cs_queue s) t) \<and>
   map_of (cs_queue_claims (fst (expire_claims now entries s))) t =
     (case map_of entries t of
        Some (i, st, ow) \<Rightarrow> if st = ''claimed'' \<and> claim_dead now s t then None else map_of (cs_queue_claims s) t
      | None \<Rightarrow> map_of (cs_queue_claims s) t)"
  using assms
proof (induction now entries s rule: expire_claims.induct)
  case (2 now task item status owner rest s)
  have none: "map_of rest task = None" using "2.prems" by (simp add: map_of_None_dkeys)
  let ?s1 = "drop_claim task (set_queue task item ''queued'' None s)"
  have s1: "map_of (cs_queue ?s1) = (map_of (cs_queue s))(task \<mapsto> (item, ''queued'', None))"
    "map_of (cs_queue_claims ?s1) = (map_of (cs_queue_claims s))(task := None)"
    by (simp_all add: drop_claim_def set_queue_def dict_simps)
  have dead: "claim_dead now ?s1 t = (t \<noteq> task \<and> claim_dead now s t)" for t
    unfolding claim_dead_def s1 by simp
  show ?case
    using 2 none unfolding expire_claims.simps claim_dead_def [symmetric]
    by (auto simp: case_prod_unfold s1 dead split: option.splits)
qed simp

lemma expire_claims_none:
  "(\<And>task item ow. (task, item, ''claimed'', ow) \<in> set entries \<Longrightarrow> \<not> claim_dead now s task) \<Longrightarrow>
   expire_claims now entries s = (s, 0)"
  by (induction now entries s rule: expire_claims.induct) (auto simp: claim_dead_def)

lemma expire_lost_Nil: "expire_lost [] entries s = (s, 0)"
  by (induction "[] :: string list" entries s rule: expire_lost.induct) auto

lemma recovered:
  fixes now s
  assumes "dicts_ok s"
  defines "lost \<equiv> expired_resources now s"
  defines "s' \<equiv> fst (cs_recover_expired now s)"
  shows "map_of (cs_assignments s') t =
       (if to_expire lost (map_of (cs_assignments s) t)
        then map_option (\<lambda>(a, _). (a, ''expired'')) (map_of (cs_assignments s) t) else map_of (cs_assignments s) t)"
    and "set (cs_leases s') = {(r, l) \<in> set (cs_leases s). r \<notin> set lost}"
    and "cs_runtimes s' = cs_runtimes s"
    and "to_expire lost (map_of (cs_assignments s) t) \<Longrightarrow>
       map_of (cs_queue s') t = map_option (\<lambda>(i, _, _). (i, ''queued'', None)) (map_of (cs_queue s) t)"
    and "map_of (cs_queue s') t = Some (i, ''claimed'', ow) \<Longrightarrow> \<not> claim_dead now s' t"
proof -
  let ?s1 = "fold drop_lease lost s"
  let ?s2 = "fst (expire_lost lost (cs_assignments ?s1) ?s1)"
  have s': "s' = fst (expire_claims now (cs_queue ?s2) ?s2)"
    by (simp add: s'_def lost_def cs_recover_expired_def Let_def case_prod_unfold)
  have d: "distinct (dkeys (cs_assignments s))" "distinct (dkeys (cs_queue ?s2))"
    using assms(1) dicts_ok_expire_lost [OF dicts_ok_drop_leases [OF assms(1)]] by (simp_all add: dicts_ok_def)
  show "map_of (cs_assignments s') t =
       (if to_expire lost (map_of (cs_assignments s) t)
        then map_option (\<lambda>(a, _). (a, ''expired'')) (map_of (cs_assignments s) t) else map_of (cs_assignments s) t)"
    and "set (cs_leases s') = {(r, l) \<in> set (cs_leases s). r \<notin> set lost}"
    and "cs_runtimes s' = cs_runtimes s"
    unfolding s' using d(1) by (simp_all add: expire_lost_assignments drop_leases_set)
  note q = expire_claims_queue [OF d(2), of now ?s2, folded s']
  show "map_of (cs_queue s') t = map_option (\<lambda>(i, _, _). (i, ''queued'', None)) (map_of (cs_queue s) t)"
    if "to_expire lost (map_of (cs_assignments s) t)"
    using q [of t] expire_lost_queue [OF d(1), of lost ?s1 t] that
    by (cases "map_of (cs_queue s) t") (auto simp: case_prod_unfold)
  show "\<not> claim_dead now s' t" if "map_of (cs_queue s') t = Some (i, ''claimed'', ow)"
    using q [of t] that by (auto simp: claim_dead_def split: option.splits if_splits)
qed

lemma recovered_healthy:
  assumes ok: "dicts_ok s"
  shows "expired_resources now (fst (cs_recover_expired now s)) = []"
proof -
  let ?s' = "fst (cs_recover_expired now s)" and ?lost = "expired_resources now s"
  have "\<not> le_expires_at l \<le> now" if "(r, l) \<in> set (cs_leases ?s')" for r l
    using that unfolding recovered(2) [OF ok] by (force simp: expired_resources_def)
  moreover have "\<not> assignment_lost now ?s' e" if "e \<in> set (dvalues (cs_assignments ?s'))" for e
  proof
    assume lost: "assignment_lost now ?s' e"
    obtain a st where e: "e = (a, st)" by (cases e)
    from that obtain t where "(t, e) \<in> set (cs_assignments ?s')" by auto
    then have m: "map_of (cs_assignments ?s') t = Some (a, st)"
      using dicts_ok_recover [OF ok, of now] by (simp add: dicts_ok_def e)
    have st: "st \<in> set ACTIVE" using lost by (simp add: e assignment_lost_def)
    then have "\<not> to_expire ?lost (map_of (cs_assignments s) t)"
      using m unfolding recovered(1) [OF ok] by (auto simp: ACTIVE_def split: if_splits)
    then have m': "map_of (cs_assignments s) t = Some (a, st)" and "assignment_resource a \<notin> set ?lost"
      using m st unfolding recovered(1) [OF ok] by (simp_all add: to_expire_def)
    moreover have "assignment_lost now s (a, st)"
      using lost by (simp add: e assignment_lost_def recovered(3) [OF ok])
    ultimately show False
      using map_of_SomeD [OF m'] by (force simp: expired_resources_def)
  qed
  ultimately show ?thesis by (auto simp: expired_resources_def [of now ?s'] filter_empty_conv)
qed

lemma recover_again:
  assumes ok: "dicts_ok s"
  shows "cs_recover_expired now (fst (cs_recover_expired now s)) = (fst (cs_recover_expired now s), 0)"
proof -
  let ?s' = "fst (cs_recover_expired now s)"
  have "expire_claims now (cs_queue ?s') ?s' = (?s', 0)"
  proof (rule expire_claims_none)
    fix task item ow assume "(task, item, ''claimed'', ow) \<in> set (cs_queue ?s')"
    then have "map_of (cs_queue ?s') task = Some (item, ''claimed'', ow)"
      using dicts_ok_recover [OF ok, of now] by (simp add: dicts_ok_def)
    then show "\<not> claim_dead now ?s' task" by (rule recovered(5) [OF ok])
  qed
  then show ?thesis
    by (simp add: cs_recover_expired_def [of now ?s'] recovered_healthy [OF ok] expire_lost_Nil)
qed


section \<open>Wake-ups\<close>

lemma finish_settles:
  "map_of (cs_assignments (cs_finish_assignment t outc s)) t = map_option (\<lambda>(a, _). (a, outc)) (map_of (cs_assignments s) t)"
  "map_of (cs_queue (cs_finish_assignment t outc s)) t =
     map_option (\<lambda>(i, _, ow). if outc \<in> set WAITING \<and> t \<in> set (cs_pending_wakes s) then (i, ''queued'', None)
                               else (i, ''acked'', ow)) (map_of (cs_queue s) t)"
  by (simp_all add: cs_finish_assignment_def Let_def park_def set_assignment_def drop_started_def drop_lease_def
      drop_wake_def drop_claim_def set_queue_def dict_simps split: option.split) blast

text \<open>
  C20: no wake-up is lost. When a running task is suspended to wait and its wake-up arrives before or
  after the suspension, the task is queued again either way.
\<close>

theorem wake_never_lost:
  assumes "map_of (cs_assignments s) t = Some (a, st)" "st \<in> set ACTIVE" "map_of (cs_queue s) t = Some (item, q, ow)"
    and "reason \<in> set WAITING"
  shows "\<exists>s1 s2. cs_suspend_assignment t reason (fst (cs_wake_assignment t s)) = Inr s1 \<and>
     cs_suspend_assignment t reason s = Inr s2 \<and>
     map_of (cs_queue s1) t = Some (item, ''queued'', None) \<and>
     map_of (cs_queue (fst (cs_wake_assignment t s2))) t = Some (item, ''queued'', None)"
proof -
  have wait: "cs_suspend_assignment t reason x = Inr (cs_finish_assignment t reason x)" for x
    using assms(4) by (simp add: cs_suspend_assignment_def raise_if_def)
  have wake: "fst (cs_wake_assignment t s) = s\<lparr>cs_pending_wakes := List.insert t (cs_pending_wakes s)\<rparr>"
    using assms(1-3) by (simp add: cs_wake_assignment_def)
  have "reason \<notin> set ACTIVE" using assms(4) by (auto simp: ACTIVE_def WAITING_def)
  then have "map_of (cs_queue (fst (cs_wake_assignment t (cs_finish_assignment t reason s)))) t = Some (item, ''queued'', None)"
    using assms by (simp add: cs_wake_assignment_def finish_settles drop_wake_def drop_claim_def set_queue_def dict_simps)
  then show ?thesis using assms(3,4) by (simp add: wait wake finish_settles)
qed

section \<open>Assignment\<close>


section \<open>The queue\<close>

lemma claim_items_result: "map cl_item (snd (claim_items w e tok n items s)) = items"
  by (induction items arbitrary: n s) (simp_all add: Let_def case_prod_unfold)

lemma claim_items_stored:
  "t \<in> ri_task_id ` set items \<Longrightarrow>
   (\<exists>item ow. map_of (cs_queue (fst (claim_items w e tok n items s))) t = Some (item, ''claimed'', ow)) \<and>
   (\<exists>tk. map_of (cs_queue_claims (fst (claim_items w e tok n items s))) t = Some (tk, e))"
  "t \<notin> ri_task_id ` set items \<Longrightarrow>
   map_of (cs_queue (fst (claim_items w e tok n items s))) t = map_of (cs_queue s) t \<and>
   map_of (cs_queue_claims (fst (claim_items w e tok n items s))) t = map_of (cs_queue_claims s) t"
proof -
  show "(\<exists>item ow. map_of (cs_queue (fst (claim_items w e tok n items s))) t = Some (item, ''claimed'', ow)) \<and>
   (\<exists>tk. map_of (cs_queue_claims (fst (claim_items w e tok n items s))) t = Some (tk, e))" if "t \<in> ri_task_id ` set items"
    using that
  proof (induction items arbitrary: n s)
    case (Cons i items)
    have un: "t \<notin> ri_task_id ` set items \<Longrightarrow>
      map_of (cs_queue (fst (claim_items w e tok n items s))) t = map_of (cs_queue s) t \<and>
      map_of (cs_queue_claims (fst (claim_items w e tok n items s))) t = map_of (cs_queue_claims s) t" for n s
      by (induction items arbitrary: n s) (simp_all add: Let_def case_prod_unfold set_queue_def dict_simps)
    show ?case
      using Cons un by (cases "t \<in> ri_task_id ` set items")
        (auto simp: Let_def case_prod_unfold set_queue_def dict_simps)
  qed simp
  show "map_of (cs_queue (fst (claim_items w e tok n items s))) t = map_of (cs_queue s) t \<and>
   map_of (cs_queue_claims (fst (claim_items w e tok n items s))) t = map_of (cs_queue_claims s) t"
    if "t \<notin> ri_task_id ` set items"
    using that by (induction items arbitrary: n s) (simp_all add: Let_def case_prod_unfold set_queue_def dict_simps)
qed

lemma claim_order_queue:
  assumes "dicts_ok s" "item \<in> set (claim_order s now)"
  obtains st ow where "map_of (cs_queue s) (ri_task_id item) = Some (item, st, ow)" "claim_candidate now s (item, st, ow)"
proof -
  from assms(2) obtain t st ow where m: "(t, item, st, ow) \<in> set (cs_queue s)" "claim_candidate now s (item, st, ow)"
    by (auto simp: claim_order_def)
  then have "ri_task_id item = t" using assms(1) by (auto simp: dicts_ok_def)
  with m show thesis using that assms(1) by (auto simp: dicts_ok_def)
qed

lemma distinct_map_sort_key: "distinct (map f (sort_key g xs)) = distinct (map f xs)"
  by (simp add: distinct_map)

lemma claim_order_distinct: "dicts_ok s \<Longrightarrow> distinct (map ri_task_id (claim_order s now))"
proof -
  assume ok: "dicts_ok s"
  have "map (\<lambda>e. ri_task_id (fst e)) (dvalues (cs_queue s)) = dkeys (cs_queue s)"
    using ok by (auto simp: dicts_ok_def)
  then have "distinct (map (\<lambda>e. ri_task_id (fst e)) (dvalues (cs_queue s)))"
    using ok unfolding dicts_ok_def by (simp only:)
  then have "distinct (map ri_task_id (map fst (filter (claim_candidate now s) (dvalues (cs_queue s)))))"
    by (simp add: distinct_map_filter comp_def)
  then show ?thesis unfolding claim_order_def by (simp only: distinct_map_sort_key)
qed

text \<open>
  C19: a claim takes the most urgent tasks, and nobody else gets them while it lives. A claim with a
  limit of at least zero returns at most that many distinct tasks in the order of their priority and
  id, and a task it leaves behind is not more urgent than one it took; until the claim expires, another
  claim returns none of these tasks.
\<close>

theorem queue_claim_exclusive:
  fixes ops
  defines "s \<equiv> fold cs_step ops cs_init"
  assumes "cs_claim w limit ttl now tok s = (s1, cs)" "0 \<le> limit" "now' < now + ttl"
  shows "int (length cs) \<le> limit \<and> distinct (map (ri_task_id \<circ> cl_item) cs) \<and>
     (\<exists>rest. claim_order s now = map cl_item cs @ rest \<and>
        (\<forall>c \<in> set cs. \<forall>i \<in> set rest. (- ri_priority (cl_item c), ri_task_id (cl_item c)) \<le> (- ri_priority i, ri_task_id i))) \<and>
     (\<forall>c \<in> set cs. \<forall>c' \<in> set (snd (cs_claim w' limit' ttl' now' tok' s1)). ri_task_id (cl_item c) \<noteq> ri_task_id (cl_item c'))"
proof -
  have ok: "dicts_ok s" unfolding s_def using control_dicts.inv_reachable [of ops] by (simp add: control_dicts.run_def)
  let ?items = "take (nat limit) (claim_order s now)"
  have cl: "claim_items w (now + ttl) tok 0 ?items s = (s1, cs)"
    using assms(2,3) by (simp add: cs_claim_def slice_to_def)
  have cs: "map cl_item cs = ?items" using claim_items_result [of w "now + ttl" tok 0 ?items s] cl by simp
  have ok1: "dicts_ok s1" using dicts_ok_claim_items [OF ok, of w "now + ttl" tok 0 ?items] cl by simp
  have "length cs = length ?items" using cs by (metis length_map)
  then have len: "int (length cs) \<le> limit" using assms(3) by simp
  have dist: "distinct (map (ri_task_id \<circ> cl_item) cs)"
    using claim_order_distinct [OF ok, of now] unfolding map_map [symmetric] cs
    by (metis append_take_drop_id distinct_append map_append)
  let ?k = "\<lambda>i. (- ri_priority i, ri_task_id i)"
  have "sorted (map ?k (claim_order s now))" by (simp add: claim_order_def)
  then have "sorted (map ?k ?items @ map ?k (drop (nat limit) (claim_order s now)))"
    by (simp flip: map_append)
  then have ord: "\<forall>c \<in> set cs. \<forall>i \<in> set (drop (nat limit) (claim_order s now)). ?k (cl_item c) \<le> ?k i"
    unfolding sorted_append cs [symmetric] by simp
  have "ri_task_id (cl_item c) \<noteq> ri_task_id (cl_item c')"
    if c: "c \<in> set cs" and c': "c' \<in> set (snd (cs_claim w' limit' ttl' now' tok' s1))" for c c'
  proof
    assume eq: "ri_task_id (cl_item c) = ri_task_id (cl_item c')"
    have "cl_item c' \<in> set (map cl_item (snd (cs_claim w' limit' ttl' now' tok' s1)))" using c' by simp
    then have "cl_item c' \<in> set (claim_order s1 now')"
      unfolding cs_claim_def claim_items_result slice_to_def by (auto split: if_splits dest: in_set_takeD)
    then obtain st ow where q: "map_of (cs_queue s1) (ri_task_id (cl_item c')) = Some (cl_item c', st, ow)"
      and cand: "claim_candidate now' s1 (cl_item c', st, ow)"
      by (rule claim_order_queue [OF ok1])
    have "ri_task_id (cl_item c') \<in> ri_task_id ` set ?items" unfolding cs [symmetric] eq [symmetric] using c by simp
    from claim_items_stored(1) [OF this, of w "now + ttl" tok 0 s] cl q
    have "st = ''claimed''" "\<exists>tk. map_of (cs_queue_claims s1) (ri_task_id (cl_item c')) = Some (tk, now + ttl)" by auto
    with cand assms(4) show False by (auto simp: claim_candidate_def dget_def)
  qed
  moreover have "claim_order s now = map cl_item cs @ drop (nat limit) (claim_order s now)" by (simp add: cs)
  ultimately show ?thesis using len dist ord by blast
qed

section \<open>Concrete runs\<close>

definition sample_item :: "string \<Rightarrow> int \<Rightarrow> runnable_item" where
  "sample_item task priority =
     \<lparr>ri_task_id = task, ri_tenant_id = ''t'', ri_root_session_id = ''s'', ri_session_id = ''s'', ri_run_id = ''r'',
      ri_source_version = 1, ri_priority = priority, ri_queue_partition = ''p'', ri_role = ''agent'',
      ri_required_capability = [], ri_deadline = None,
      ri_budget = \<lparr>rb_max_steps = 10, rb_max_output_tokens = 10, rb_max_cost = None, rb_policy_version = ''1''\<rparr>,
      ri_user_id = None, ri_dept_id = None\<rparr>"

definition sample_assignment :: runtime_assignment where
  "sample_assignment =
     \<lparr>ra_tenant_id = ''t'', ra_root_session_id = ''s'', ra_session_id = ''s'', ra_run_id = ''r'', ra_runtime_id = ''rt'',
      ra_lease_id = ''l1'', ra_fencing_token = 1, ra_role = ''agent'', ra_resource_profile = [], ra_deadline = None,
      ra_budget = ri_budget (sample_item ''a'' 1), ra_lease_expires_at = None, ra_lease_assertion = None,
      ra_user_id = None, ra_dept_id = None, ra_execution_claim_token = None, ra_execution_claim_expires_at = None\<rparr>"

definition sample_checkpoint :: "int \<Rightarrow> runtime_checkpoint" where
  "sample_checkpoint token =
     \<lparr>cp_tenant_id = ''t'', cp_session_id = ''s'', cp_run_id = ''r'', cp_fencing_token = token, cp_phase = ''p'',
      cp_state = [], cp_updated_at = 0\<rparr>"

definition sample_ops :: "cs_op list" where
  "sample_ops =
     [Enqueue (sample_item ''a'' 1), Enqueue (sample_item ''b'' 5), Enqueue (sample_item ''c'' 3),
      Claim_tasks ''w'' 3 (seconds 10) 1 (\<lambda>_. ''tok''), Acquire_lease ''session:t:s'' ''w'' (seconds 30) 2 ''l1'',
      Assign ''a'' sample_assignment ''tok'' 3 4]"

theorem stale_token_never_accepted_witness:
  "\<exists>msg msg'. cs_assert_fencing ''session:t:s'' 0 5 (fold cs_step [Recover 6]
       (fst (cs_acquire_lease ''session:t:s'' ''w'' (seconds 30) 2 ''l1'' cs_init))) = Inl (FencingTokenError msg) \<and>
     cs_save_checkpoint (sample_checkpoint 0) 5 (fold cs_step [Recover 6]
       (fst (cs_acquire_lease ''session:t:s'' ''w'' (seconds 30) 2 ''l1'' cs_init))) = Inl (FencingTokenError msg')"
proof -
  have a: "cs_acquire_lease ''session:t:s'' ''w'' (seconds 30) 2 ''l1'' (fold cs_step [] cs_init) =
    (fst (cs_acquire_lease ''session:t:s'' ''w'' (seconds 30) 2 ''l1'' cs_init),
     Some \<lparr>le_resource_id = ''session:t:s'', le_lease_id = ''l1'', le_owner = ''w'', le_fencing_token = 1,
       le_expires_at = 2 + seconds 30\<rparr>)"
    by (simp add: cs_acquire_lease_def cs_init_def dget_def Let_def)
  show ?thesis
    by (rule stale_token_never_accepted [OF a])
       (simp_all add: sample_checkpoint_def checkpoint_resource_def resource_id_def)
qed

theorem lease_exclusive_and_monotone_witness:
  "cs_acquire_lease ''session:t:s'' ''v'' 1 3 ''l2'' (fold cs_step [Request_cancel ''t'' ''s'' ''r''] (fold cs_step sample_ops cs_init)) =
     (fold cs_step [Request_cancel ''t'' ''s'' ''r''] (fold cs_step sample_ops cs_init), None)"
proof -
  have l: "map_of (cs_leases (fold cs_step sample_ops cs_init)) ''session:t:s'' =
     Some \<lparr>le_resource_id = ''session:t:s'', le_lease_id = ''l1'', le_owner = ''w'', le_fencing_token = 1,
       le_expires_at = 2 + seconds 30\<rparr>"
    by code_simp
  have "map_of (cs_leases (fold cs_step [Request_cancel ''t'' ''s'' ''r''] (fold cs_step sample_ops cs_init))) ''session:t:s'' =
     Some \<lparr>le_resource_id = ''session:t:s'', le_lease_id = ''l1'', le_owner = ''w'', le_fencing_token = 1,
       le_expires_at = 2 + seconds 30\<rparr>"
    by code_simp
  then show ?thesis
    using lease_exclusive_and_monotone [OF l, of "[Request_cancel ''t'' ''s'' ''r'']"] by (simp add: seconds_def)
qed

theorem checkpoints_monotone_witness:
  "\<exists>c'. cs_load_checkpoint ''t'' ''s'' ''r'' (fold cs_step ((sample_ops @ [Save_checkpoint (sample_checkpoint 1) 5]) @
       [Recover 100]) cs_init) = Some c' \<and> 1 \<le> cp_fencing_token c'"
proof -
  have c: "cs_load_checkpoint ''t'' ''s'' ''r'' (fold cs_step (sample_ops @ [Save_checkpoint (sample_checkpoint 1) 5]) cs_init)
      = Some (sample_checkpoint 1)"
    by code_simp
  have "cp_fencing_token (sample_checkpoint 1) = 1" by (simp add: sample_checkpoint_def)
  then show ?thesis using checkpoints_monotone [OF c, of "[Recover 100]"] by simp
qed

theorem capacity_within_limit_witness:
  "dget (cs_capacity (fold cs_step [Reserve ''x'' 3 5, Reserve ''x'' 3 5, Release ''x'' 1] cs_init)) ''x'' 0 = 2 \<and>
   dget (cs_capacity (fold cs_step [Reserve ''x'' 3 5, Reserve ''x'' 3 5, Release ''x'' 1] cs_init)) ''x'' 0 \<le> 5"
  using capacity_within_limit [of "[Reserve ''x'' 3 5, Reserve ''x'' 3 5, Release ''x'' 1]" "''x''" 5]
  by (simp add: cs_reserve_capacity_def cs_release_capacity_def cs_init_def dget_def Let_def)


theorem wake_never_lost_witness:
  "\<exists>s1 s2. cs_suspend_assignment ''a'' ''waiting_for_tool'' (fst (cs_wake_assignment ''a'' (fold cs_step sample_ops cs_init))) = Inr s1 \<and>
     cs_suspend_assignment ''a'' ''waiting_for_tool'' (fold cs_step sample_ops cs_init) = Inr s2 \<and>
     map_of (cs_queue s1) ''a'' = Some (sample_item ''a'' 1, ''queued'', None) \<and>
     map_of (cs_queue (fst (cs_wake_assignment ''a'' s2))) ''a'' = Some (sample_item ''a'' 1, ''queued'', None)"
proof (rule wake_never_lost)
  show "map_of (cs_assignments (fold cs_step sample_ops cs_init)) ''a'' = Some (sample_assignment, ''assigned'')"
    by code_simp
  show "map_of (cs_queue (fold cs_step sample_ops cs_init)) ''a'' = Some (sample_item ''a'' 1, ''assigned'', Some ''w'')"
    by code_simp
qed (simp_all add: ACTIVE_def WAITING_def)


theorem queue_claim_exclusive_witness:
  "map (ri_task_id \<circ> cl_item) (snd (cs_claim ''w'' 2 (seconds 10) 1 (\<lambda>_. ''x'') (fold cs_step (take 3 sample_ops) cs_init))) = [''b'', ''c''] \<and>
   int (length (snd (cs_claim ''w'' 2 (seconds 10) 1 (\<lambda>_. ''x'') (fold cs_step (take 3 sample_ops) cs_init)))) \<le> 2"
proof -
  let ?r = "cs_claim ''w'' 2 (seconds 10) 1 (\<lambda>_. ''x'') (fold cs_step (take 3 sample_ops) cs_init)"
  have "map (ri_task_id \<circ> cl_item) (snd ?r) = [''b'', ''c'']" by code_simp
  then show ?thesis
    using queue_claim_exclusive [of "''w''" 2 "seconds 10" 1 "\<lambda>_. ''x''" "take 3 sample_ops" "fst ?r" "snd ?r" 2]
    by (simp add: seconds_def)
qed

end
