(* ===== verification/Py_Iso.thy ===== *)
theory Py_Iso
  imports Py_Time
begin

text \<open>
  \<open>datetime.fromisoformat\<close> as CPython 3.11 implements it (calendar and week dates, extended and
  basic format, an offset from UTC) and \<open>isoformat(timespec="microseconds")\<close>, with the round trip:
  what \<open>isoformat\<close> writes is read back as the same instant.
\<close>

section \<open>\<open>datetime.fromisoformat\<close>\<close>

definition is_leap :: "nat \<Rightarrow> bool" where
  "is_leap y \<longleftrightarrow> 4 dvd y \<and> (\<not> 100 dvd y \<or> 400 dvd y)"

definition days_before_year :: "nat \<Rightarrow> nat" where
  "days_before_year y = (y - 1) * 365 + (y - 1) div 4 - (y - 1) div 100 + (y - 1) div 400"

definition ymd2ord :: "nat \<times> nat \<times> nat \<Rightarrow> nat" where
  \<comment> \<open>days since 0001-01-01\<close>
  "ymd2ord ymd = (case ymd of (y, m, d) \<Rightarrow>
     days_before_year y + (days_before_month m + (if 2 < m \<and> is_leap y then 1 else 0)) + d - 1)"

definition digits :: "nat \<Rightarrow> string \<Rightarrow> nat option" where
  "digits k s = (if length s = k \<and> list_all is_digit s then Some (read_nat s) else None)"

definition calendar_date :: "nat \<Rightarrow> nat \<Rightarrow> nat \<Rightarrow> nat option" where
  "calendar_date y m d =
     (if 1 \<le> y \<and> 1 \<le> m \<and> m \<le> 12 \<and> 1 \<le> d \<and> d \<le> days_in_month (is_leap y) m then Some (ymd2ord (y, m, d)) else None)"

definition week_date :: "nat \<Rightarrow> nat \<Rightarrow> nat \<Rightarrow> nat option" where
  \<comment> \<open>\<open>_isoweek_to_gregorian\<close>\<close>
  "week_date y w d =
     (let first = days_before_year y; weekday = first mod 7;
          long = (weekday = 3 \<or> weekday = 2 \<and> is_leap y);
          monday = int first - int weekday + (if 3 < weekday then 7 else 0);
          day = monday + int ((w - 1) * 7 + (d - 1))
      in if 1 \<le> y \<and> y \<le> 9999 \<and> 1 \<le> w \<and> (w \<le> 52 \<or> w = 53 \<and> long) \<and> 1 \<le> d \<and> d \<le> 7 \<and> 0 \<le> day \<and> day < 3652059
         then Some (nat day) else None)"

definition date_length :: "string \<Rightarrow> nat" where
  \<comment> \<open>\<open>_find_isoformat_datetime_separator\<close>\<close>
  "date_length s =
     (if length s = 7 then 7
      else if s ! 4 = CHR ''-''
      then (if s ! 5 = CHR ''W''
            then (if 8 < length s \<and> s ! 8 = CHR ''-''
                  then (if 10 < length s \<and> is_digit (s ! 10) then 8 else 10) else 8)
            else 10)
      else if s ! 4 = CHR ''W''
      then (let idx = 7 + length (takeWhile is_digit (drop 7 s))
            in if idx < 9 then idx else if even idx then 7 else 8)
      else 8)"

definition parse_date :: "string \<Rightarrow> nat option" where
  \<comment> \<open>\<open>_parse_isoformat_date\<close>\<close>
  "parse_date s =
     (let sep = (s ! 4 = CHR ''-''); dash = (if sep then 1 else 0); r = drop (4 + dash) s
      in Option.bind (digits 4 (take 4 s)) (\<lambda>y.
         if take 1 r = ''W''
         then Option.bind (digits 2 (take 2 (drop 1 r))) (\<lambda>w.
                if drop 3 r = [] then week_date y w 1
                else if (r ! 3 = CHR ''-'') \<noteq> sep then None
                else Option.bind (digits 1 (drop (3 + dash) r)) (week_date y w))
         else Option.bind (digits 2 (take 2 r)) (\<lambda>m.
                if (take 1 (drop 2 r) = ''-'') \<noteq> sep then None
                else Option.bind (digits 2 (drop (2 + dash) r)) (calendar_date y m))))"

definition fraction :: "string \<Rightarrow> nat option" where
  \<comment> \<open>microseconds; further digits are dropped\<close>
  "fraction s = (if s \<noteq> [] \<and> list_all is_digit s then Some (read_nat (take 6 s) * 10 ^ (6 - length s)) else None)"

definition parse_hms :: "string \<Rightarrow> (nat \<times> nat \<times> nat \<times> nat) option" where
  \<comment> \<open>\<open>_parse_hh_mm_ss_ff\<close>: hours, minutes, seconds, microseconds\<close>
  "parse_hms s =
     Option.bind (digits 2 (take 2 s)) (\<lambda>h. let s1 = drop 2 s; sep = (take 1 s1 = '':''); colon = (if sep then 1 else 0) in
     if s1 = [] then Some (h, 0, 0, 0)
     else let s2 = drop colon s1 in
     Option.bind (digits 2 (take 2 s2)) (\<lambda>m. let s3 = drop 2 s2 in
     if s3 = [] then Some (h, m, 0, 0)
     else if sep \<and> hd s3 \<noteq> CHR '':'' then None
     else let s4 = drop colon s3 in
     Option.bind (digits 2 (take 2 s4)) (\<lambda>sec. let s5 = drop 2 s4 in
     if s5 = [] then Some (h, m, sec, 0)
     else if hd s5 = CHR ''.'' \<or> hd s5 = CHR '','' then Option.bind (fraction (tl s5)) (\<lambda>us. Some (h, m, sec, us))
     else None)))"

definition hms_us :: "nat \<times> nat \<times> nat \<times> nat \<Rightarrow> int" where
  "hms_us t = (case t of (h, m, s, us) \<Rightarrow> int (((h * 60 + m) * 60 + s) * 1000000 + us))"

definition tz_char :: "string \<Rightarrow> char option" where
  \<comment> \<open>the character that starts the offset\<close>
  "tz_char s = find (\<lambda>c. c \<in> set s) [CHR ''-'', CHR ''+'', CHR ''Z'']"

definition parse_time :: "string \<Rightarrow> (int \<times> int option) option" where
  \<comment> \<open>\<open>_parse_isoformat_time\<close>: microseconds of the day, offset in microseconds\<close>
  "parse_time s =
     (let tz = tz_char s;
          clock = (case tz of None \<Rightarrow> s | Some c \<Rightarrow> takeWhile (\<lambda>x. x \<noteq> c) s);
          zone = drop (Suc (length clock)) s
      in Option.bind (parse_hms clock) (\<lambda>t. case t of (h, m, sec, us) \<Rightarrow>
         if \<not> (h < 24 \<and> m < 60 \<and> sec < 60) then None
         else (case tz of
           None \<Rightarrow> Some (hms_us t, None)
         | Some c \<Rightarrow>
             if c = CHR ''Z'' then (if zone = [] then Some (hms_us t, Some 0) else None)
             else Option.bind (parse_hms zone) (\<lambda>z.
               if hms_us z < 86400000000 then Some (hms_us t, Some (if c = CHR ''-'' then - hms_us z else hms_us z))
               else None))))"

definition fromisoformat :: "string \<Rightarrow> (time \<times> int option) option" where
  \<comment> \<open>the local time and the offset from UTC when there is one\<close>
  "fromisoformat s =
     (if length s < 7 then None
      else let n = date_length s in
        Option.bind (parse_date (take n s)) (\<lambda>d.
          let rest = drop (Suc n) s in
          if rest = [] then Some (int d * 86400000000, None)
          else Option.bind (parse_time rest) (\<lambda>(us, offset). Some (int d * 86400000000 + us, offset))))"

definition isoformat_us :: "time \<Rightarrow> string" where
  \<comment> \<open>\<open>isoformat(timespec="microseconds")\<close>\<close>
  "isoformat_us t =
     (let us = nat (t mod 86400000000); days = nat (t div 86400000000);
          secs = us div 1000000; frac = us mod 1000000
      in case ord2ymd days of (y, m, d) \<Rightarrow>
           show_pad 4 y @ ''-'' @ show_pad 2 m @ ''-'' @ show_pad 2 d @ ''T'' @
           show_pad 2 (secs div 3600) @ '':'' @ show_pad 2 (secs div 60 mod 60) @ '':'' @
           show_pad 2 (secs mod 60) @ ''.'' @ show_pad 6 frac @ ''+00:00'')"

section \<open>Reading back what \<open>isoformat\<close> writes\<close>

lemma days_before_year_cycles:
  assumes "b \<le> 3" "c \<le> 24" "e \<le> 3"
  shows "days_before_year (400 * a + 100 * b + 4 * c + e + 1) = 146097 * a + 36524 * b + 1461 * c + 365 * e"
proof -
  let ?y = "400 * a + 100 * b + 4 * c + e"
  have "?y div 4 = 100 * a + 25 * b + c" "?y div 100 = 4 * a + b" "?y div 400 = a" using assms by linarith+
  then show ?thesis unfolding days_before_year_def using assms by simp
qed

lemma dvd_bounded: "0 < x \<Longrightarrow> x \<le> k \<Longrightarrow> k dvd x \<longleftrightarrow> x = (k :: nat)"
  by (auto dest: dvd_imp_le)

lemma is_leap_cycles:
  assumes "b \<le> 3" "c \<le> 24" "e \<le> 3"
  shows "is_leap (400 * a + 100 * b + 4 * c + e + 1) \<longleftrightarrow> e = 3 \<and> (c \<noteq> 24 \<or> b = 3)"
proof -
  have "4 dvd 4 * (100 * a + 25 * b + c) + (e + 1) \<longleftrightarrow> e + 1 = 4"
    "100 dvd 100 * (4 * a + b) + (4 * c + e + 1) \<longleftrightarrow> 4 * c + e + 1 = 100"
    "400 dvd 400 * a + (100 * b + 4 * c + e + 1) \<longleftrightarrow> 100 * b + 4 * c + e + 1 = 400"
    using assms by (simp_all only: dvd_add_right_iff [OF dvd_triv_left] dvd_bounded)
  moreover have "4 * (100 * a + 25 * b + c) + (e + 1) = 400 * a + 100 * b + 4 * c + e + 1"
    "100 * (4 * a + b) + (4 * c + e + 1) = 400 * a + 100 * b + 4 * c + e + 1"
    "400 * a + (100 * b + 4 * c + e + 1) = 400 * a + 100 * b + 4 * c + e + 1" by simp_all
  ultimately show ?thesis using assms unfolding is_leap_def by (simp only:) linarith
qed

definition month_of :: "bool \<Rightarrow> nat \<Rightarrow> nat \<times> nat" where
  "month_of leap n =
     (let m0 = (n + 50) div 32;
          p0 = days_before_month m0 + (if 2 < m0 \<and> leap then 1 else 0);
          m = (if n < p0 then m0 - 1 else m0);
          p = (if n < p0 then p0 - days_in_month leap m else p0)
      in (m, n - p + 1))"

definition month_ok :: "bool \<Rightarrow> nat \<Rightarrow> bool" where
  "month_ok leap n = (case month_of leap n of (m, d) \<Rightarrow>
     1 \<le> m \<and> m \<le> 12 \<and> 1 \<le> d \<and> d \<le> days_in_month leap m \<and>
     days_before_month m + (if 2 < m \<and> leap then 1 else 0) + d = n + 1)"

lemma month_ok_all:
  assumes "n < 365"
  shows "month_ok leap n"
proof -
  define m0 where "m0 = (n + 50) div 32"
  have m0: "32 * m0 \<le> n + 50" "n + 50 < 32 * m0 + 32" unfolding m0_def by linarith+
  have "m0 \<in> set [1..<13]" using m0 assms by simp
  then consider "m0 = 1" | "m0 = 2" | "m0 = 3" | "m0 = 4" | "m0 = 5" | "m0 = 6" | "m0 = 7" | "m0 = 8"
    | "m0 = 9" | "m0 = 10" | "m0 = 11" | "m0 = 12" by (auto simp: upt_rec)
  then show ?thesis
    unfolding month_ok_def month_of_def m0_def [symmetric] Let_def
    by cases (use m0 assms in \<open>auto simp: days_before_month_def days_in_month_def\<close>)
qed

lemma ord2ymd_month:
  "ord2ymd days =
     (let n400 = days div 146097; r400 = days mod 146097;
          n100 = r400 div 36524; r100 = r400 mod 36524;
          n4 = r100 div 1461; r4 = r100 mod 1461;
          n1 = r4 div 365; n = r4 mod 365;
          year = n400 * 400 + 1 + n100 * 100 + n4 * 4 + n1
      in if n1 = 4 \<or> n100 = 4 then (year - 1, 12, 31)
         else (year, month_of (n1 = 3 \<and> (n4 \<noteq> 24 \<or> n100 = 3)) n))"
  unfolding ord2ymd_def month_of_def Let_def by (rule refl)

lemma ord2ymd_inverse:
  assumes "ord2ymd days = (y, m, d)"
  shows "calendar_date y m d = Some days" and "days < 3652059 \<Longrightarrow> y \<le> 9999" and "1 \<le> y"
proof -
  define a r b r' c r'' e n where "a = days div 146097" and "r = days mod 146097" and "b = r div 36524"
    and "r' = r mod 36524" and "c = r' div 1461" and "r'' = r' mod 1461" and "e = r'' div 365" and "n = r'' mod 365"
  note defs = a_def r_def b_def r'_def c_def r''_def e_def n_def
  have eqs: "days = 146097 * a + r" "r = 36524 * b + r'" "r' = 1461 * c + r''" "r'' = 365 * e + n"
    by (simp_all add: defs)
  then have days: "days = 146097 * a + 36524 * b + 1461 * c + 365 * e + n" by simp
  have less: "r < 146097" "r' < 36524" "r'' < 1461" "n < 365" by (simp_all add: defs)
  have bounds: "b \<le> 4" "c \<le> 24" "e \<le> 4" "n < 365" using eqs less by linarith+
  have b4: "c = 0 \<and> e = 0 \<and> n = 0" if "b = 4" using that eqs less by simp
  have e4: "c \<le> 23 \<and> n = 0" if "e = 4" using that eqs less by simp
  have o: "ord2ymd days = (if e = 4 \<or> b = 4 then (a * 400 + b * 100 + c * 4 + e, 12, 31)
      else (a * 400 + 1 + b * 100 + c * 4 + e, month_of (e = 3 \<and> (c \<noteq> 24 \<or> b = 3)) n))"
    unfolding ord2ymd_month Let_def defs [symmetric] by simp
  consider "b = 4" | "b \<le> 3" "e = 4" | "b \<le> 3" "e \<le> 3" using bounds by linarith
  then have "calendar_date y m d = Some days \<and> 1 \<le> y \<and> (days < 3652059 \<longrightarrow> y \<le> 9999)"
  proof cases
    case 1
    have *: "y = 400 * a + 100 * 3 + 4 * 24 + 3 + 1" "m = 12" "d = 31" using o assms b4 1 by auto
    have "is_leap y" unfolding * by (subst is_leap_cycles) auto
    moreover have "days_before_year y = 146097 * a + 145731"
      unfolding * by (subst days_before_year_cycles) auto
    ultimately show ?thesis using * b4 1 days
      by (auto simp: calendar_date_def ymd2ord_def days_in_month_def days_before_month_def)
  next
    case 2
    have *: "y = 400 * a + 100 * b + 4 * c + 3 + 1" "m = 12" "d = 31" using o assms 2 by auto
    have "is_leap y" unfolding * using 2 e4 by (subst is_leap_cycles) auto
    moreover have "days_before_year y = 146097 * a + 36524 * b + 1461 * c + 365 * 3"
      unfolding * using 2 bounds by (subst days_before_year_cycles) auto
    ultimately show ?thesis using * e4 2 days
      by (auto simp: calendar_date_def ymd2ord_def days_in_month_def days_before_month_def)
  next
    case 3
    have *: "y = 400 * a + 100 * b + 4 * c + e + 1" "(m, d) = month_of (is_leap y) n"
      using o assms 3 bounds is_leap_cycles [of b c e a] by (auto simp: algebra_simps)
    have "days_before_year y = 146097 * a + 36524 * b + 1461 * c + 365 * e"
      unfolding *(1) using 3 bounds by (subst days_before_year_cycles) auto
    then show ?thesis using * month_ok_all [OF bounds(4), of "is_leap y"] days 3 bounds
      by (auto simp: calendar_date_def ymd2ord_def month_ok_def split: prod.splits)
  qed
  then show "calendar_date y m d = Some days" "days < 3652059 \<Longrightarrow> y \<le> 9999" "1 \<le> y" by auto
qed

lemma show_nat_length: "n < 10 ^ w \<Longrightarrow> 0 < w \<Longrightarrow> length (show_nat n) \<le> w"
proof (induction n arbitrary: w rule: show_nat.induct)
  case (1 n)
  show ?case
  proof (cases "n < 10")
    case True then show ?thesis using "1.prems" by (simp add: show_nat.simps [of n])
  next
    case False
    then obtain v where w: "w = Suc v" "0 < v" using "1.prems" by (cases w; cases "w - 1") auto
    then have "n div 10 < 10 ^ v" using "1.prems" by auto
    then show ?thesis using "1.IH" [OF False, of v] False w by (simp add: show_nat.simps [of n])
  qed
qed

lemma read_nat_zeros: "read_nat (replicate k (CHR ''0'') @ s) = read_nat s"
  by (induction k) (simp_all add: read_nat_def digit_val_def)

lemma digits_show_pad:
  assumes "n < 10 ^ w" "0 < w"
  shows "digits w (show_pad w n) = Some n" "length (show_pad w n) = w" "\<forall>c \<in> set (show_pad w n). is_digit c"
  using show_nat_length [OF assms] show_nat_digits [of n]
  by (auto simp: show_pad_def digits_def Let_def read_nat_zeros list_all_iff is_digit_def)

lemma is_digit_neq:
  "is_digit c \<Longrightarrow> c \<noteq> CHR ''-'' \<and> c \<noteq> CHR '':'' \<and> c \<noteq> CHR ''+'' \<and> c \<noteq> CHR ''Z'' \<and> c \<noteq> CHR ''W'' \<and> c \<noteq> CHR ''.''"
  by (auto simp: is_digit_def)

lemma show_pad_2:
  assumes "n < 100"
  obtains a b where "show_pad 2 n = [a, b]" "is_digit a" "is_digit b" "digits 2 [a, b] = Some n"
proof -
  from digits_show_pad [of n 2] assms have l: "length (show_pad 2 n) = 2" "\<forall>c \<in> set (show_pad 2 n). is_digit c"
    "digits 2 (show_pad 2 n) = Some n" by auto
  then obtain a b where "show_pad 2 n = [a, b]" by (auto simp: length_Suc_conv numeral_eq_Suc)
  with l that show thesis by auto
qed

lemma show_pad_4:
  assumes "n < 10000"
  obtains a b c d where "show_pad 4 n = [a, b, c, d]" "is_digit a" "is_digit b" "is_digit c" "is_digit d"
    "digits 4 [a, b, c, d] = Some n"
proof -
  from digits_show_pad [of n 4] assms have l: "length (show_pad 4 n) = 4" "\<forall>c \<in> set (show_pad 4 n). is_digit c"
    "digits 4 (show_pad 4 n) = Some n" by auto
  then obtain a b c d where "show_pad 4 n = [a, b, c, d]" by (auto simp: length_Suc_conv numeral_eq_Suc)
  with l that show thesis by auto
qed

lemma fraction_show_pad: "us < 1000000 \<Longrightarrow> fraction (show_pad 6 us) = Some us"
  using digits_show_pad [of us 6] by (cases "show_pad 6 us") (auto simp: fraction_def digits_def list_all_iff split: if_splits)

definition iso_date :: "nat \<Rightarrow> nat \<Rightarrow> nat \<Rightarrow> string" where
  "iso_date y m d = show_pad 4 y @ ''-'' @ show_pad 2 m @ ''-'' @ show_pad 2 d"

definition iso_clock :: "nat \<Rightarrow> nat \<Rightarrow> nat \<Rightarrow> string \<Rightarrow> string" where
  "iso_clock h mi s f = show_pad 2 h @ '':'' @ show_pad 2 mi @ '':'' @ show_pad 2 s @ f"

lemma parse_iso_date:
  assumes "y < 10000" "calendar_date y m d = Some D"
  shows "length (iso_date y m d) = 10" "date_length (iso_date y m d @ r) = 10" "parse_date (iso_date y m d) = Some D"
proof -
  have md: "m < 100" "d < 100" using assms(2)
    by (auto simp: calendar_date_def days_in_month_def nth_Cons' split: if_splits)
  obtain y1 y2 y3 y4 where y: "show_pad 4 y = [y1, y2, y3, y4]" "digits 4 [y1, y2, y3, y4] = Some y"
    using show_pad_4 [OF assms(1)] by metis
  obtain m1 m2 where m: "show_pad 2 m = [m1, m2]" "is_digit m1" "digits 2 [m1, m2] = Some m" using show_pad_2 [OF md(1)] by metis
  obtain d1 d2 where d: "show_pad 2 d = [d1, d2]" "digits 2 [d1, d2] = Some d" using show_pad_2 [OF md(2)] by metis
  show "length (iso_date y m d) = 10" "date_length (iso_date y m d @ r) = 10" "parse_date (iso_date y m d) = Some D"
    using is_digit_neq [OF m(2)] assms(2) y(2) m(3) d(2)
    by (simp_all add: iso_date_def y(1) m(1) d(1) date_length_def parse_date_def)
qed

lemma parse_iso_clock:
  assumes "h < 24" "mi < 60" "s < 60" and f: "f = [] \<and> us = 0 \<or> f = CHR ''.'' # show_pad 6 us \<and> us < 1000000"
  shows "parse_hms (iso_clock h mi s f) = Some (h, mi, s, us)"
    and "CHR ''-'' \<notin> set (iso_clock h mi s f)" "CHR ''+'' \<notin> set (iso_clock h mi s f)" "CHR ''Z'' \<notin> set (iso_clock h mi s f)"
proof -
  have "h < 100" "mi < 100" "s < 100" using assms by simp_all
  obtain h1 h2 where h: "show_pad 2 h = [h1, h2]" "is_digit h1" "is_digit h2" "digits 2 [h1, h2] = Some h"
    using show_pad_2 [OF \<open>h < 100\<close>] by metis
  obtain m1 m2 where m: "show_pad 2 mi = [m1, m2]" "is_digit m1" "is_digit m2" "digits 2 [m1, m2] = Some mi"
    using show_pad_2 [OF \<open>mi < 100\<close>] by metis
  obtain s1 s2 where s: "show_pad 2 s = [s1, s2]" "is_digit s1" "is_digit s2" "digits 2 [s1, s2] = Some s"
    using show_pad_2 [OF \<open>s < 100\<close>] by metis
  show "parse_hms (iso_clock h mi s f) = Some (h, mi, s, us)"
    using h(4) m(4) s(4) f by (auto simp: iso_clock_def h(1) m(1) s(1) parse_hms_def fraction_show_pad)
  have "\<forall>c \<in> set f. is_digit c \<or> c = CHR ''.''" using f digits_show_pad(3) [of us 6] by auto
  then have "\<forall>c \<in> set (iso_clock h mi s f). is_digit c \<or> c = CHR ''.'' \<or> c = CHR '':''"
    using h m s by (auto simp: iso_clock_def)
  then show "CHR ''-'' \<notin> set (iso_clock h mi s f)" "CHR ''+'' \<notin> set (iso_clock h mi s f)" "CHR ''Z'' \<notin> set (iso_clock h mi s f)"
    by (auto dest: is_digit_neq)
qed

lemma parse_iso_time:
  assumes "h < 24" "mi < 60" "s < 60" "f = [] \<and> us = 0 \<or> f = CHR ''.'' # show_pad 6 us \<and> us < 1000000"
  shows "parse_time (iso_clock h mi s f @ ''+00:00'') = Some (hms_us (h, mi, s, us), Some 0)"
proof -
  note c = parse_iso_clock [OF assms]
  have tz: "tz_char (iso_clock h mi s f @ ''+00:00'') = Some (CHR ''+'')" using c by (simp add: tz_char_def)
  have tw: "takeWhile (\<lambda>x. x \<noteq> CHR ''+'') (iso_clock h mi s f @ ''+00:00'') = iso_clock h mi s f"
    using c(3) by (subst takeWhile_append2) auto
  have z: "parse_hms ''00:00'' = Some (0, 0, 0, 0)" by code_simp
  show ?thesis
    unfolding parse_time_def Let_def tz option.case tw c(1) using assms
    by (simp add: z) (simp add: hms_us_def)
qed

lemma fromisoformat_text:
  assumes "y < 10000" "calendar_date y m d = Some D" "h < 24" "mi < 60" "s < 60"
    and "f = [] \<and> us = 0 \<or> f = CHR ''.'' # show_pad 6 us \<and> us < 1000000"
  shows "fromisoformat (iso_date y m d @ ''T'' @ iso_clock h mi s f @ ''+00:00'') =
    Some (int D * 86400000000 + hms_us (h, mi, s, us), Some 0)"
  using parse_iso_date [OF assms(1,2)] parse_iso_time [OF assms(3-6)]
  by (simp add: fromisoformat_def)

lemma time_split:
  assumes "0 \<le> t"
  defines "us \<equiv> nat (t mod 86400000000)"
  defines "secs \<equiv> us div 1000000"
  shows "secs div 3600 < 24" "secs div 60 mod 60 < 60" "secs mod 60 < 60" "us mod 1000000 < 1000000"
    "int (nat (t div 86400000000)) * 86400000000 + hms_us (secs div 3600, secs div 60 mod 60, secs mod 60, us mod 1000000) = t"
proof -
  have u: "us < 86400000000" unfolding us_def by (simp add: nat_less_iff)
  then show "secs div 3600 < 24" unfolding secs_def by linarith
  show "secs div 60 mod 60 < 60" "secs mod 60 < 60" "us mod 1000000 < 1000000" by simp_all
  have "secs div 3600 = secs div 60 div 60" using div_mult2_eq [of secs 60 60] by simp
  then have "(secs div 3600 * 60 + secs div 60 mod 60) * 60 + secs mod 60 = secs"
    by (simp only: div_mult_mod_eq)
  then have "((secs div 3600 * 60 + secs div 60 mod 60) * 60 + secs mod 60) * 1000000 + us mod 1000000 = us"
    unfolding secs_def by (simp only: div_mult_mod_eq)
  then have "hms_us (secs div 3600, secs div 60 mod 60, secs mod 60, us mod 1000000) = int us"
    unfolding hms_us_def prod.case by (simp only:)
  then show "int (nat (t div 86400000000)) * 86400000000 + hms_us (secs div 3600, secs div 60 mod 60, secs mod 60, us mod 1000000) = t"
    using div_mult_mod_eq [of t 86400000000] assms(1) unfolding us_def
    by (simp only: nat_0_le pos_imp_zdiv_nonneg_iff pos_mod_sign zero_less_numeral)
qed

definition time_max :: time where
  \<comment> \<open>the first instant after \<open>datetime.max\<close>\<close>
  "time_max = 3652059 * 86400000000"

lemma fromisoformat_isoformat:
  assumes "0 \<le> t" "t < time_max"
  shows "fromisoformat (isoformat t) = Some (t, Some 0)" "fromisoformat (isoformat_us t) = Some (t, Some 0)"
proof -
  obtain y m d where o: "ord2ymd (nat (t div 86400000000)) = (y, m, d)" by (cases "ord2ymd (nat (t div 86400000000))")
  have "t div 86400000000 < 3652059"
    using div_mult_mod_eq [of t 86400000000] pos_mod_sign [of "86400000000 :: int" t] assms(2)
    unfolding time_max_def by linarith
  then have "nat (t div 86400000000) < 3652059" by linarith
  from ord2ymd_inverse(2) [OF o this] have y: "y < 10000" by linarith
  define us where "us = nat (t mod 86400000000)"
  define secs where "secs = us div 1000000"
  note sp = time_split [OF assms(1), folded us_def, folded secs_def]
  note tx = fromisoformat_text [OF y ord2ymd_inverse(1) [OF o] sp(1-3), of _ "us mod 1000000", unfolded sp(5)]
  have "isoformat t = iso_date y m d @ ''T'' @ iso_clock (secs div 3600) (secs div 60 mod 60) (secs mod 60)
      (if us mod 1000000 = 0 then [] else ''.'' @ show_pad 6 (us mod 1000000)) @ ''+00:00''"
    unfolding isoformat_def Let_def o prod.case iso_date_def iso_clock_def us_def secs_def by (simp only: append_assoc)
  then show "fromisoformat (isoformat t) = Some (t, Some 0)"
    using tx sp(4) by (simp split: if_splits)
  have "isoformat_us t = iso_date y m d @ ''T'' @ iso_clock (secs div 3600) (secs div 60 mod 60) (secs mod 60)
      (''.'' @ show_pad 6 (us mod 1000000)) @ ''+00:00''"
    unfolding isoformat_us_def Let_def o prod.case iso_date_def iso_clock_def us_def secs_def by (simp only: append_assoc)
  then show "fromisoformat (isoformat_us t) = Some (t, Some 0)"
    using tx sp(4) by simp
qed

end
