(* ===== verification/Py_Json.thy ===== *)
theory Py_Json
  imports Py_Iso "HOL-Library.Word" "HOL-Library.Char_ord" "HOL-Library.List_Lexorder"
begin

text \<open>
  The parts of the standard library the digests of the code are made of: \<open>json.dumps\<close> with
  sorted keys, \<open>str.encode\<close> and \<open>hashlib.sha256(...).hexdigest()\<close>. A character of the
  model is a code point below 256.
\<close>

unbundle bit_operations_syntax

section \<open>\<open>json.dumps\<close>\<close>

record json_style =
  js_ascii :: bool
  js_item_separator :: string
  js_key_separator :: string

definition json_compact :: json_style where
  \<comment> \<open>\<open>separators=(",", ":"), ensure_ascii=False\<close>\<close>
  "json_compact = \<lparr>js_ascii = False, js_item_separator = '','', js_key_separator = '':''\<rparr>"

definition json_compact_ascii :: json_style where
  \<comment> \<open>\<open>separators=(",", ":")\<close>\<close>
  "json_compact_ascii = \<lparr>js_ascii = True, js_item_separator = '','', js_key_separator = '':''\<rparr>"

definition json_default :: json_style where
  "json_default = \<lparr>js_ascii = True, js_item_separator = '', '', js_key_separator = '': ''\<rparr>"

definition json_escape :: "bool \<Rightarrow> char \<Rightarrow> string" where
  "json_escape ascii c =
     (let n = of_char c :: nat in
      if n = 34 then [CHR 0x5C, CHR 0x22]
      else if n = 92 then [CHR 0x5C, CHR 0x5C]
      else if n = 10 then [CHR 0x5C, CHR ''n'']
      else if n = 13 then [CHR 0x5C, CHR ''r'']
      else if n = 9 then [CHR 0x5C, CHR ''t'']
      else if n = 12 then [CHR 0x5C, CHR ''f'']
      else if n = 8 then [CHR 0x5C, CHR ''b'']
      else if n < 32 \<or> ascii \<and> 126 < n
      then [CHR 0x5C, CHR ''u'', CHR ''0'', CHR ''0'', hex_digit (n div 16), hex_digit (n mod 16)]
      else [c])"

definition json_string :: "bool \<Rightarrow> string \<Rightarrow> string" where
  "json_string ascii s = CHR 0x22 # concat (map (json_escape ascii) s) @ [CHR 0x22]"

fun join :: "string \<Rightarrow> string list \<Rightarrow> string" where
  \<comment> \<open>\<open>sep.join(xs)\<close>\<close>
  "join sep [] = []"
| "join sep [x] = x"
| "join sep (x # xs) = x @ sep @ join sep xs"

definition json_float :: "pyfloat \<Rightarrow> string" where
  "json_float f =
     (case f of NaN \<Rightarrow> ''NaN'' | PosInf \<Rightarrow> ''Infinity'' | NegInf \<Rightarrow> ''-Infinity'' | Fin _ \<Rightarrow> float_repr f)"

fun json_dumps :: "json_style \<Rightarrow> pyval \<Rightarrow> string" where
  \<comment> \<open>\<open>json.dumps(v, sort_keys=True, ...)\<close>\<close>
  "json_dumps st PNone = ''null''"
| "json_dumps st (PBool b) = (if b then ''true'' else ''false'')"
| "json_dumps st (PInt i) = show_int i"
| "json_dumps st (PFloat f) = json_float f"
| "json_dumps st (PStr s) = json_string (js_ascii st) s"
| "json_dumps st (PList xs) = ''['' @ join (js_item_separator st) (map (json_dumps st) xs) @ '']''"
| "json_dumps st (PDict d) =
     ''{'' @ join (js_item_separator st)
       (map (\<lambda>(k, t). json_string (js_ascii st) k @ js_key_separator st @ t)
         (sort_key fst (map (\<lambda>(k, v). (k, json_dumps st v)) d))) @ ''}''"

section \<open>\<open>str.encode\<close> and SHA-256\<close>

definition utf8 :: "string \<Rightarrow> nat list" where
  "utf8 s = concat (map (\<lambda>c. let n = of_char c :: nat in
     if n < 128 then [n] else [192 + n div 64, 128 + n mod 64]) s)"

text \<open>
  The constants of SHA-256 are the first 32 bits of the fractional parts of roots of small primes: cube
  roots for the rounds, square roots for the initial state. \<open>root_bits\<close> finds the largest number whose
  power is at most \<open>n\<close>, one bit at a time from bit \<open>b - 1\<close> down; 35 bits hold every root that is taken.
\<close>

fun root_bits :: "nat \<Rightarrow> nat \<Rightarrow> nat \<Rightarrow> nat \<Rightarrow> nat" where
  "root_bits k n r 0 = r"
| "root_bits k n r (Suc b) = root_bits k n (if (r + 2 ^ b) ^ k \<le> n then r + 2 ^ b else r) b"

definition primes_below :: "nat \<Rightarrow> nat list" where
  "primes_below n = filter (\<lambda>p. list_all (\<lambda>d. p mod d \<noteq> 0) [2..<p]) [2..<n]"

definition sha256_constant :: "nat \<Rightarrow> nat \<Rightarrow> 32 word" where
  "sha256_constant k p = of_nat (root_bits k (p * 2 ^ (32 * k)) 0 35)"

definition sha256_K :: "32 word list" where
  "sha256_K = map (sha256_constant 3) (primes_below 312)"

definition sha256_H0 :: "32 word list" where
  "sha256_H0 = map (sha256_constant 2) (primes_below 20)"

definition rotr :: "nat \<Rightarrow> 32 word \<Rightarrow> 32 word" where
  "rotr n w = (drop_bit n w OR push_bit (32 - n) w)"

definition be_bytes :: "nat \<Rightarrow> nat \<Rightarrow> nat list" where
  \<comment> \<open>the last \<open>k\<close> base-256 digits, most significant first\<close>
  "be_bytes k n = map (\<lambda>i. n div 256 ^ i mod 256) (rev [0..<k])"

definition sha256_pad :: "nat list \<Rightarrow> nat list" where
  "sha256_pad m = m @ 128 # replicate ((119 - length m mod 64) mod 64) 0 @ be_bytes 8 (8 * length m)"

fun words_of :: "nat list \<Rightarrow> 32 word list" where
  "words_of (a # b # c # d # rest) = of_nat (((a * 256 + b) * 256 + c) * 256 + d) # words_of rest"
| "words_of _ = []"

fun sha256_schedule :: "nat \<Rightarrow> 32 word list \<Rightarrow> 32 word list" where
  \<comment> \<open>extend the schedule by \<open>n\<close> words; the newest word is the first of the list\<close>
  "sha256_schedule 0 w = w"
| "sha256_schedule (Suc n) w =
     (let w15 = w ! 14; w2 = w ! 1;
          s0 = rotr 7 w15 XOR rotr 18 w15 XOR drop_bit 3 w15;
          s1 = rotr 17 w2 XOR rotr 19 w2 XOR drop_bit 10 w2
      in sha256_schedule n ((w ! 15 + s0 + w ! 6 + s1) # w))"

fun sha256_rounds :: "(32 word \<times> 32 word) list \<Rightarrow> 32 word list \<Rightarrow> 32 word list" where
  "sha256_rounds ((k, w) # kws) [a, b, c, d, e, f, g, h] =
     (let s1 = rotr 6 e XOR rotr 11 e XOR rotr 25 e;
          ch = (e AND f) XOR (NOT e AND g);
          t1 = h + s1 + ch + k + w;
          s0 = rotr 2 a XOR rotr 13 a XOR rotr 22 a;
          maj = (a AND b) XOR (a AND c) XOR (b AND c)
      in sha256_rounds kws [t1 + s0 + maj, a, b, c, d + t1, e, f, g])"
| "sha256_rounds kws st = st"

function sha256_blocks :: "32 word list \<Rightarrow> 32 word list \<Rightarrow> 32 word list" where
  "sha256_blocks ws st =
     (if length ws < 16 then st
      else sha256_blocks (drop 16 ws)
        (map2 (+) st (sha256_rounds (zip sha256_K (rev (sha256_schedule 48 (rev (take 16 ws))))) st)))"
  by pat_completeness auto
termination by (relation "measure (length \<circ> fst)") auto

declare sha256_blocks.simps [simp del]

definition hex_word :: "32 word \<Rightarrow> string" where
  "hex_word w = map (\<lambda>i. hex_digit (unat w div 16 ^ i mod 16)) (rev [0..<8])"

definition sha256_hex :: "string \<Rightarrow> string" where
  \<comment> \<open>\<open>hashlib.sha256(s.encode()).hexdigest()\<close>\<close>
  "sha256_hex s = concat (map hex_word (sha256_blocks (words_of (sha256_pad (utf8 s))) sha256_H0))"

section \<open>Encodings that can be read back\<close>

text \<open>A reader of one escaped character shows that a JSON string determines its contents.\<close>

definition hex_val :: "char \<Rightarrow> nat" where
  "hex_val c = (let n = of_char c in if n < 58 then n - 48 else n - 87)"

lemma hex_val_hex_digit: "n < 16 \<Longrightarrow> hex_val (hex_digit n) = n"
  by (cases "n < 10") (simp_all add: hex_val_def hex_digit_def)

definition json_read :: "string \<Rightarrow> char \<times> string" where
  "json_read s =
     (if hd s \<noteq> CHR 0x5C then (hd s, tl s)
      else let k = s ! 1 in
        if k = CHR ''u'' then (char_of (16 * hex_val (s ! 4) + hex_val (s ! 5)), drop 6 s)
        else (if k = CHR ''n'' then CHR 10 else if k = CHR ''r'' then CHR 13 else if k = CHR ''t'' then CHR 9
              else if k = CHR ''f'' then CHR 12 else if k = CHR ''b'' then CHR 8 else k, drop 2 s))"

lemma of_char_special:
  "(of_char c :: nat) \<in> {34, 92, 10, 13, 9, 12, 8} \<Longrightarrow>
   c \<in> {CHR 0x22, CHR 0x5C, CHR 10, CHR 13, CHR 9, CHR 12, CHR 8}"
proof -
  assume "(of_char c :: nat) \<in> {34, 92, 10, 13, 9, 12, 8}"
  then have "(of_char c :: nat) \<in> of_char ` {CHR 0x22, CHR 0x5C, CHR 10, CHR 13, CHR 9, CHR 12, CHR 8}" by simp
  then show ?thesis by (auto simp only: image_iff of_char_eq_iff)
qed

lemma json_read_escape: "json_read (json_escape a c @ r) = (c, r)"
proof -
  let ?n = "of_char c :: nat"
  have n: "?n < 256" using mod_less_divisor [of 256 ?n] by simp
  consider "?n \<in> {34, 92, 10, 13, 9, 12, 8}"
    | "?n \<notin> {34, 92, 10, 13, 9, 12, 8}" "?n < 32 \<or> a \<and> 126 < ?n"
    | "?n \<notin> {34, 92, 10, 13, 9, 12, 8}" "\<not> (?n < 32 \<or> a \<and> 126 < ?n)" by blast
  then show ?thesis
  proof cases
    case 1
    from of_char_special [OF this]
    show ?thesis by (auto simp: json_escape_def json_read_def)
  next
    case 2
    have "?n div 16 < 16" using n by linarith
    with 2 show ?thesis
      by (auto simp: json_escape_def json_read_def Let_def hex_val_hex_digit)
  next
    case 3
    then have "c \<noteq> CHR 0x5C" by auto
    with 3 show ?thesis by (auto simp: json_escape_def json_read_def Let_def)
  qed
qed

lemma json_escape_quote: "json_escape a c @ r \<noteq> CHR 0x22 # r'"
proof
  assume "json_escape a c @ r = CHR 0x22 # r'"
  then have "hd (json_escape a c @ r) = CHR 0x22" by simp
  then show False by (auto simp: json_escape_def Let_def split: if_splits)
qed

lemma json_string_inject:
  "json_string a s @ r = json_string a s' @ r' \<longleftrightarrow> s = s' \<and> r = r'"
proof -
  let ?e = "\<lambda>s. concat (map (json_escape a) s)"
  have "?e s @ CHR 0x22 # r = ?e s' @ CHR 0x22 # r' \<Longrightarrow> s = s' \<and> r = r'"
  proof (induction s arbitrary: s')
    case Nil
    then show ?case using json_escape_quote [THEN not_sym] by (cases s') simp_all
  next
    case (Cons c s)
    show ?case
    proof (cases s')
      case Nil
      then show ?thesis using Cons.prems json_escape_quote by simp
    next
      case s': (Cons c' t)
      have "json_read (json_escape a c @ ?e s @ CHR 0x22 # r) = json_read (json_escape a c' @ ?e t @ CHR 0x22 # r')"
        using Cons.prems s' by simp
      then have "c = c'" "?e s @ CHR 0x22 # r = ?e t @ CHR 0x22 # r'" by (simp_all only: json_read_escape prod.inject)
      then show ?thesis using Cons.IH s' by simp
    qed
  qed
  then show ?thesis by (auto simp: json_string_def)
qed

end
