(* ===== verification/Approval.thy ===== *)
theory Approval
  imports Session_Laws Py_Json
begin

text \<open>
  Approvals (\<open>domain/approval.py\<close>, with the records of \<open>contracts/tools.py\<close>): the digests
  an approval is bound to, the record of one approval, votes with quorum, validation before an action
  runs, and the record rebuilt from the events of a Session. An instant is an aware \<open>datetime\<close>;
  its representation in another time zone is not distinguished.
\<close>

section \<open>Contracts\<close>

datatype risk_level = RL_LOW | RL_MEDIUM | RL_HIGH | RL_CRITICAL

fun risk_level_value :: "risk_level \<Rightarrow> string" where
  "risk_level_value RL_LOW = ''low''"
| "risk_level_value RL_MEDIUM = ''medium''"
| "risk_level_value RL_HIGH = ''high''"
| "risk_level_value RL_CRITICAL = ''critical''"

datatype approval_status = AS_REQUESTED | AS_WAITING | AS_APPROVED | AS_REJECTED | AS_EXPIRED | AS_CANCELLED

fun approval_status_value :: "approval_status \<Rightarrow> string" where
  "approval_status_value AS_REQUESTED = ''requested''"
| "approval_status_value AS_WAITING = ''waiting''"
| "approval_status_value AS_APPROVED = ''approved''"
| "approval_status_value AS_REJECTED = ''rejected''"
| "approval_status_value AS_EXPIRED = ''expired''"
| "approval_status_value AS_CANCELLED = ''cancelled''"

definition risk_level_of :: "string \<Rightarrow> risk_level result" where
  "risk_level_of = enum_of risk_level_value [RL_LOW, RL_MEDIUM, RL_HIGH, RL_CRITICAL]"

definition approval_status_of :: "string \<Rightarrow> approval_status result" where
  "approval_status_of = enum_of approval_status_value
     [AS_REQUESTED, AS_WAITING, AS_APPROVED, AS_REJECTED, AS_EXPIRED, AS_CANCELLED]"

lemma risk_level_of_value [simp]: "risk_level_of (risk_level_value r) = Inr r"
  by (cases r) (simp_all add: risk_level_of_def enum_of_def)

lemma approval_status_of_value [simp]: "approval_status_of (approval_status_value s) = Inr s"
  by (cases s) (simp_all add: approval_status_of_def enum_of_def)

record capability_invocation_ref =
  ci_capability_id :: string
  ci_server_id :: string
  ci_version :: string
  ci_content_digest :: string
  ci_tenant_id :: "string option"
  ci_config_revision :: int

definition capability_ref_dump :: "capability_invocation_ref \<Rightarrow> pyval" where
  \<comment> \<open>\<open>capability_ref.model_dump(mode="json")\<close>\<close>
  "capability_ref_dump c =
     PDict [(''capability_id'', PStr (ci_capability_id c)), (''server_id'', PStr (ci_server_id c)),
       (''version'', PStr (ci_version c)), (''content_digest'', PStr (ci_content_digest c)),
       (''tenant_id'', opt_str (ci_tenant_id c)), (''config_revision'', PInt (ci_config_revision c))]"

record tool_invocation =
  ti_tool_invocation_id :: string
  ti_tenant_id :: string
  ti_root_session_id :: string
  ti_session_id :: string
  ti_run_id :: string
  ti_tool_name :: string
  ti_tool_version :: string
  ti_arguments :: payload
  ti_expected_side_effect :: string
  ti_idempotency_key :: string
  ti_deadline :: "time option"
  ti_fencing_token :: int
  ti_actor_id :: string
  ti_approval_id :: "string option"
  ti_credential_ref :: "string option"
  ti_user_id :: "string option"
  ti_actor_role :: "string option"
  ti_dept_id :: "string option"
  ti_capability_ref :: "capability_invocation_ref option"

text \<open>
  The tuples of a record rebuilt from a stored payload hold whatever the payload held, so they are
  lists of values; \<open>decision\<close> and \<open>feedback\<close> likewise.
\<close>

record approval_record =
  ap_approval_id :: string
  ap_tenant_id :: string
  ap_session_id :: string
  ap_run_id :: string
  ap_action_digest :: string
  ap_tool_name :: string
  ap_redacted_arguments :: payload
  ap_risk :: risk_level
  ap_reason :: string
  ap_expected_effect :: string
  ap_allowed_decisions :: "pyval list"
  ap_assigned_approvers :: "pyval list"
  ap_policy_version :: string
  ap_expires_at :: time
  ap_required_approvals :: int
  ap_votes :: "pyval list"
  ap_escalation_at :: "time option"
  ap_escalation_level :: int
  ap_status :: approval_status
  ap_decision :: pyval
  ap_feedback :: pyval

definition as_event_payload :: "approval_record \<Rightarrow> payload" where
  "as_event_payload r =
     [(''approval_id'', PStr (ap_approval_id r)), (''run_id'', PStr (ap_run_id r)),
      (''action_digest'', PStr (ap_action_digest r)), (''tool_name'', PStr (ap_tool_name r)),
      (''redacted_arguments'', PDict (ap_redacted_arguments r)), (''risk'', PStr (risk_level_value (ap_risk r))),
      (''reason'', PStr (ap_reason r)), (''expected_effect'', PStr (ap_expected_effect r)),
      (''allowed_decisions'', PList (ap_allowed_decisions r)),
      (''assigned_approvers'', PList (ap_assigned_approvers r)),
      (''policy_version'', PStr (ap_policy_version r)), (''expires_at'', PStr (isoformat (ap_expires_at r))),
      (''required_approvals'', PInt (ap_required_approvals r)), (''votes'', PList (ap_votes r)),
      (''escalation_at'', case ap_escalation_at r of None \<Rightarrow> PNone | Some t \<Rightarrow> PStr (isoformat t)),
      (''escalation_level'', PInt (ap_escalation_level r)),
      (''status'', PStr (approval_status_value (ap_status r)))]"

section \<open>Digests\<close>

definition aware_expires_at :: "pyval \<Rightarrow> time result" where
  \<comment> \<open>a naive value is taken as UTC\<close>
  "aware_expires_at v =
     (case fromisoformat (py_str v) of
        None \<Rightarrow> Inl (ValueError (''Invalid isoformat string: '' @ str_repr (py_str v)))
      | Some (t, None) \<Rightarrow> Inr t
      | Some (t, Some offset) \<Rightarrow> Inr (t - offset))"

definition action_digest :: "string \<Rightarrow> string \<Rightarrow> payload \<Rightarrow> string" where
  "action_digest tool_name tool_version arguments =
     sha256_hex (json_dumps json_compact
       (PDict [(''arguments'', PDict arguments), (''tool_name'', PStr tool_name), (''tool_version'', PStr tool_version)]))"

definition identity_payload :: "string \<Rightarrow> tool_invocation \<Rightarrow> payload" where
  "identity_payload digest i =
     [(''version'', PInt 2), (''action_digest'', PStr digest), (''tenant_id'', PStr (ti_tenant_id i)),
      (''root_session_id'', PStr (ti_root_session_id i)), (''session_id'', PStr (ti_session_id i)),
      (''user_id'', opt_str (ti_user_id i)), (''dept_id'', opt_str (ti_dept_id i)),
      (''actor_role'', opt_str (ti_actor_role i))] @
     (case ti_capability_ref i of None \<Rightarrow> [] | Some c \<Rightarrow> [(''capability_ref'', capability_ref_dump c)])"

definition invocation_action_digest :: "tool_invocation \<Rightarrow> string" where
  "invocation_action_digest i =
     (let digest = action_digest (ti_tool_name i) (ti_tool_version i) (ti_arguments i)
      in if ti_user_id i = None \<and> ti_dept_id i = None \<and> ti_capability_ref i = None then digest
         else sha256_hex (json_dumps json_compact_ascii (PDict (identity_payload digest i))))"

definition request_identity ::
  "string \<Rightarrow> string \<Rightarrow> string \<Rightarrow> string \<Rightarrow> string \<Rightarrow> string \<Rightarrow> time \<Rightarrow> string" where
  \<comment> \<open>the text that is hashed\<close>
  "request_identity tenant approval session run digest policy expires_at =
     json_dumps json_compact
       (PDict [(''action_digest'', PStr digest), (''approval_id'', PStr approval),
          (''expires_at'', PStr (isoformat_us expires_at)), (''policy_version'', PStr policy),
          (''run_id'', PStr run), (''session_id'', PStr session), (''tenant_id'', PStr tenant)])"

definition approval_request_digest ::
  "string \<Rightarrow> string \<Rightarrow> string \<Rightarrow> string \<Rightarrow> string \<Rightarrow> string \<Rightarrow> time \<Rightarrow> string" where
  "approval_request_digest tenant approval session run digest policy expires_at =
     sha256_hex (request_identity tenant approval session run digest policy expires_at)"

section \<open>Rebuilding a record from events\<close>

definition pget_or :: "payload \<Rightarrow> string \<Rightarrow> pyval \<Rightarrow> pyval" where
  \<comment> \<open>\<open>payload.get(k, default)\<close>\<close>
  "pget_or p k dflt = dget p k dflt"

definition opt_time :: "pyval \<Rightarrow> time option result" where
  \<comment> \<open>\<open>_aware_expires_at(v) if v else None\<close>\<close>
  "opt_time v = (if py_bool v then rbind (aware_expires_at v) (\<lambda>t. Inr (Some t)) else Inr None)"

definition run_of :: "canonical_event \<Rightarrow> string" where
  \<comment> \<open>\<open>str(payload.get("run_id") or event.run_id or "")\<close>\<close>
  "run_of e =
     (if py_bool (pget (ce_payload e) ''run_id'') then py_str (pget (ce_payload e) ''run_id'')
      else case ce_run_id e of None \<Rightarrow> [] | Some r \<Rightarrow> r)"

definition requested_record :: "string \<Rightarrow> canonical_event \<Rightarrow> approval_record result" where
  "requested_record approval e =
     (let p = ce_payload e in
      rbind (pitem p ''action_digest'') (\<lambda>digest.
      rbind (pitem p ''tool_name'') (\<lambda>tool.
      rbind (py_dict (pget_or p ''redacted_arguments'' (PDict []))) (\<lambda>args.
      rbind (rbind (pitem p ''risk'') (\<lambda>r. risk_level_of (py_str r))) (\<lambda>risk.
      rbind (py_list (pget_or p ''allowed_decisions'' (PList []))) (\<lambda>allowed.
      rbind (py_list (pget_or p ''assigned_approvers'' (PList []))) (\<lambda>assigned.
      rbind (pitem p ''policy_version'') (\<lambda>policy.
      rbind (rbind (pitem p ''expires_at'') aware_expires_at) (\<lambda>expires.
      rbind (py_int (pget_or p ''required_approvals'' (PInt 1))) (\<lambda>required.
      rbind (py_list (pget_or p ''votes'' (PList []))) (\<lambda>votes.
      rbind (opt_time (pget p ''escalation_at'')) (\<lambda>escalation.
      rbind (py_int (pget_or p ''escalation_level'' (PInt 0))) (\<lambda>level.
      rbind (approval_status_of (py_str (pget_or p ''status'' (PStr ''waiting'')))) (\<lambda>status.
      Inr \<lparr>ap_approval_id = approval, ap_tenant_id = ce_tenant_id e, ap_session_id = ce_session_id e,
           ap_run_id = run_of e, ap_action_digest = py_str digest, ap_tool_name = py_str tool,
           ap_redacted_arguments = args, ap_risk = risk, ap_reason = py_str (pget_or p ''reason'' (PStr [])),
           ap_expected_effect = py_str (pget_or p ''expected_effect'' (PStr [])),
           ap_allowed_decisions = allowed, ap_assigned_approvers = assigned, ap_policy_version = py_str policy,
           ap_expires_at = expires, ap_required_approvals = max 1 required, ap_votes = votes,
           ap_escalation_at = escalation, ap_escalation_level = level, ap_status = status,
           ap_decision = PNone, ap_feedback = PNone\<rparr>))))))))))))))"

definition hashable :: "pyval \<Rightarrow> bool" where
  "hashable v = (case v of PList _ \<Rightarrow> False | PDict _ \<Rightarrow> False | _ \<Rightarrow> True)"

fun dedupe :: "pyval list \<Rightarrow> pyval list \<Rightarrow> pyval list" where
  "dedupe seen [] = seen"
| "dedupe seen (x # xs) = (if list_ex (py_eq x) seen then dedupe seen xs else dedupe (seen @ [x]) xs)"

definition py_fromkeys :: "pyval list \<Rightarrow> pyval list result" where
  \<comment> \<open>\<open>tuple(dict.fromkeys(xs))\<close>\<close>
  "py_fromkeys xs =
     (if list_all hashable xs then Inr (dedupe [] xs) else Inl (TypeError ''unhashable type''))"

definition recorded_vote :: "string \<Rightarrow> string \<Rightarrow> pyval \<Rightarrow> time \<Rightarrow> pyval" where
  "recorded_vote actor decision feedback recorded =
     PDict [(''actor_id'', PStr actor), (''decision'', PStr decision), (''feedback'', feedback),
       (''recorded_at'', PStr (isoformat recorded))]"

definition voted_by :: "string \<Rightarrow> pyval list \<Rightarrow> bool result" where
  \<comment> \<open>\<open>any(str(vote.get("actor_id")) == actor_id for vote in votes)\<close>\<close>
  "voted_by actor votes =
     rfold (\<lambda>v found. if found then Inr True
       else rbind (py_get v ''actor_id'' PNone) (\<lambda>a. Inr (py_str a = actor))) votes False"

definition apply_vote :: "canonical_event \<Rightarrow> approval_record \<Rightarrow> approval_record result" where
  "apply_vote e r =
     rbind (pitem (ce_payload e) ''actor_id'') (\<lambda>actor.
     rbind (pitem (ce_payload e) ''decision'') (\<lambda>decision.
     Inr (r\<lparr>ap_votes := ap_votes r @
       [recorded_vote (py_str actor) (py_str decision) (pget (ce_payload e) ''feedback'') (ce_occurred_at e)]\<rparr>)))"

definition apply_delegated :: "canonical_event \<Rightarrow> approval_record \<Rightarrow> approval_record result" where
  "apply_delegated e r =
     rbind (pitem (ce_payload e) ''from_approver'') (\<lambda>previous.
     rbind (pitem (ce_payload e) ''to_approver'') (\<lambda>replacement.
     rbind (py_fromkeys (map (\<lambda>v. if py_eq v (PStr (py_str previous)) then PStr (py_str replacement) else v)
       (ap_assigned_approvers r))) (\<lambda>approvers.
     Inr (r\<lparr>ap_assigned_approvers := approvers\<rparr>))))"

definition apply_escalated :: "canonical_event \<Rightarrow> approval_record \<Rightarrow> approval_record result" where
  "apply_escalated e r =
     rbind (rbind (pitem (ce_payload e) ''approvers'') py_list) (\<lambda>additions.
     rbind (py_fromkeys (ap_assigned_approvers r @ map (PStr \<circ> py_str) additions)) (\<lambda>approvers.
     rbind (rbind (pitem (ce_payload e) ''escalation_level'') py_int) (\<lambda>level.
     rbind (opt_time (pget (ce_payload e) ''next_escalation_at'')) (\<lambda>next_at.
     Inr (r\<lparr>ap_assigned_approvers := approvers, ap_escalation_level := level, ap_escalation_at := next_at\<rparr>)))))"

definition apply_decided :: "canonical_event \<Rightarrow> approval_record \<Rightarrow> approval_record result" where
  "apply_decided e r =
     (let p = ce_payload e in
      rbind (approval_status_of (drop (length ''approval.'') (ce_type e))) (\<lambda>status.
      rbind (if pget p ''actor_id'' = PNone then Inr (ap_votes r)
             else rbind (voted_by (py_str (pget p ''actor_id'')) (ap_votes r)) (\<lambda>voted.
               Inr (if voted then ap_votes r
                    else ap_votes r @ [recorded_vote (py_str (pget p ''actor_id''))
                      (py_str (pget_or p ''decision'' (PStr (approval_status_value status))))
                      (pget p ''feedback'') (ce_occurred_at e)]))) (\<lambda>votes.
      Inr (r\<lparr>ap_status := status, ap_votes := votes, ap_decision := pget p ''decision'',
             ap_feedback := pget p ''feedback''\<rparr>))))"

definition approval_event ::
  "string \<Rightarrow> string \<Rightarrow> string \<Rightarrow> approval_record option \<Rightarrow> canonical_event \<Rightarrow> approval_record option result" where
  "approval_event tenant session approval rec e =
     (if ce_tenant_id e \<noteq> tenant \<or> ce_session_id e \<noteq> session then Inr rec
      else if py_str (pget_or (ce_payload e) ''approval_id'' (PStr [])) \<noteq> approval then Inr rec
      else if ce_type e = ''approval.requested'' then rbind (requested_record approval e) (Inr \<circ> Some)
      else case rec of
        None \<Rightarrow> Inr None
      | Some r \<Rightarrow>
          if \<not> prefix ''approval.'' (ce_type e) then Inr (Some r)
          else rbind (if ce_type e = ''approval.vote.recorded'' then apply_vote e r
                      else if ce_type e = ''approval.delegated'' then apply_delegated e r
                      else if ce_type e = ''approval.escalated'' then apply_escalated e r
                      else apply_decided e r) (Inr \<circ> Some))"

definition approval_from_events ::
  "canonical_event list \<Rightarrow> string \<Rightarrow> string \<Rightarrow> string \<Rightarrow> approval_record option result" where
  "approval_from_events events tenant session approval =
     rfold (\<lambda>e rec. approval_event tenant session approval rec e) events None"

section \<open>Requesting, voting, validating\<close>

definition approval_request ::
  "string \<Rightarrow> string \<Rightarrow> string \<Rightarrow> string \<Rightarrow> string \<Rightarrow> payload \<Rightarrow> risk_level \<Rightarrow> string \<Rightarrow> string \<Rightarrow> string \<Rightarrow>
   string list \<Rightarrow> int \<Rightarrow> duration option \<Rightarrow> duration \<Rightarrow> time \<Rightarrow> string \<Rightarrow> approval_record result" where
  "approval_request tenant session run digest tool args risk reason effect policy assigned required
     escalation_after ttl now fresh =
     raise_if (required < 1) (ApprovalValidationError ''approval quorum must be positive'')
     (raise_if (assigned \<noteq> [] \<and> int (card (set assigned)) < required)
        (ApprovalValidationError ''approval quorum exceeds assigned approvers'')
     (raise_if (ttl \<le> 0) (ApprovalValidationError ''approval TTL must be positive'')
     (raise_if (case escalation_after of None \<Rightarrow> False | Some d \<Rightarrow> d \<le> 0 \<or> ttl \<le> d)
        (ApprovalValidationError ''approval escalation must occur within its TTL'')
     (Inr \<lparr>ap_approval_id = ''apr_'' @ fresh, ap_tenant_id = tenant, ap_session_id = session, ap_run_id = run,
           ap_action_digest = digest, ap_tool_name = tool, ap_redacted_arguments = args, ap_risk = risk,
           ap_reason = reason, ap_expected_effect = effect,
           ap_allowed_decisions = [PStr ''approved'', PStr ''rejected''],
           ap_assigned_approvers = map PStr assigned, ap_policy_version = policy, ap_expires_at = now + ttl,
           ap_required_approvals = required, ap_votes = [],
           ap_escalation_at = map_option (\<lambda>d. now + d) escalation_after, ap_escalation_level = 0,
           ap_status = AS_WAITING, ap_decision = PNone, ap_feedback = PNone\<rparr>))))"

definition listed :: "string \<Rightarrow> pyval list \<Rightarrow> bool" where
  "listed s xs \<longleftrightarrow> PStr s \<in> set xs"

definition vote_decision :: "pyval \<Rightarrow> pyval result" where
  "vote_decision v = py_get v ''decision'' PNone"

definition approved_count :: "pyval list \<Rightarrow> int result" where
  "approved_count votes =
     rbind (rmap vote_decision votes) (\<lambda>ds. Inr (int (length (filter (\<lambda>d. d = PStr ''approved'') ds))))"

definition approval_vote ::
  "approval_record \<Rightarrow> string \<Rightarrow> string \<Rightarrow> string option \<Rightarrow> time \<Rightarrow> (approval_record \<times> bool) result" where
  "approval_vote r actor decision feedback now =
     raise_if (ap_status r \<notin> {AS_REQUESTED, AS_WAITING})
       (ApprovalValidationError (''approval is already '' @ approval_status_value (ap_status r)))
     (raise_if (ap_expires_at r \<le> now) (ApprovalValidationError ''approval has expired'')
     (raise_if (ap_assigned_approvers r \<noteq> [] \<and> \<not> listed actor (ap_assigned_approvers r))
        (ApprovalValidationError ''actor is not an assigned approver'')
     (raise_if (\<not> listed decision (ap_allowed_decisions r))
        (ApprovalValidationError (''unsupported approval decision: '' @ decision))
     (rbind (voted_by actor (ap_votes r)) (\<lambda>voted.
      raise_if voted (ApprovalValidationError ''actor has already voted on this approval'')
      (let votes = ap_votes r @ [recorded_vote actor decision (opt_str feedback) now];
           rejected = (decision = ''rejected'')
       in rbind (approved_count votes) (\<lambda>count.
          let terminal = (rejected \<or> ap_required_approvals r \<le> count);
              status = (if rejected then AS_REJECTED else if terminal then AS_APPROVED else AS_WAITING)
          in Inr (r\<lparr>ap_votes := votes, ap_status := status,
                    ap_decision := if terminal then PStr (approval_status_value status) else PNone,
                    ap_feedback := if terminal then opt_str feedback else PNone\<rparr>, terminal))))))))"

definition approval_respond ::
  "approval_record \<Rightarrow> string \<Rightarrow> string \<Rightarrow> string option \<Rightarrow> time \<Rightarrow> approval_record result" where
  "approval_respond r actor decision feedback now =
     rbind (approval_vote r actor decision feedback now) (\<lambda>(decided, terminal).
       raise_if (\<not> terminal) (ApprovalValidationError ''approval quorum has not been reached'') (Inr decided))"

definition approval_validate ::
  "approval_record \<Rightarrow> string \<Rightarrow> string \<Rightarrow> string \<Rightarrow> string \<Rightarrow> time \<Rightarrow> unit result" where
  "approval_validate r tenant session digest policy now =
     raise_if (ap_tenant_id r \<noteq> tenant \<or> ap_session_id r \<noteq> session)
       (ApprovalValidationError ''approval belongs to a different tenant or Session'')
     (raise_if (ap_action_digest r \<noteq> digest) (ApprovalValidationError ''approval action digest does not match'')
     (raise_if (ap_policy_version r \<noteq> policy) (ApprovalValidationError ''approval policy version does not match'')
     (raise_if (ap_status r \<noteq> AS_APPROVED)
        (ApprovalValidationError (''approval is '' @ approval_status_value (ap_status r) @ '', not approved''))
     (raise_if (ap_expires_at r \<le> now) (ApprovalValidationError ''approval has expired'') (Inr ())))))"

end
