(* ===== verification/Task_Service.thy ===== *)
theory Task_Service
  imports Approval Event_Store
begin

text \<open>
  The task service (\<open>session/task_service.py\<close>): the commands of a user on a Session. Each loads the
  aggregate (snapshot and tail, or the whole stream), runs the command of the aggregate, appends its
  events with the response as the recorded command result, saves a snapshot and lets the relay publish.

  The collaborators the constructor receives are a record of functions on the state \<open>'p\<close> behind the
  other ports: the relay, the admission controller, the task and approval views and the notifier. Fresh ids, the
  clock and the identifiers and times of stored events (\<open>stamp\<close>) are arguments. A command returns
  the new world together with its response or its exception.
\<close>

section \<open>Ports\<close>

record 'p world =
  w_store :: event_store
  w_view :: 'p

record read_refresh_grant =
  rg_capability_id :: string
  rg_max_calls :: int
  rg_min_interval_seconds :: int
  rg_duration_seconds :: int

record 'p ports =
  pt_codec :: approval_codec
  pt_runtime_budget :: "payload option"
  pt_admit :: "string \<Rightarrow> command_context \<Rightarrow> unit result"
  pt_govern_budget :: "(string \<Rightarrow> command_context \<Rightarrow> payload \<Rightarrow> payload result) option"
  pt_relay_once :: "'p world \<Rightarrow> 'p world"
  pt_approvals :: "('p \<Rightarrow> string \<Rightarrow> string \<Rightarrow> approval_record option) option"
  pt_list_due :: "'p \<Rightarrow> time \<Rightarrow> int \<Rightarrow> approval_record list"
  pt_notify :: "(approval_record \<Rightarrow> string \<Rightarrow> string option \<Rightarrow> string \<Rightarrow> 'p \<Rightarrow> 'p result) option"
  pt_get_task :: "'p \<Rightarrow> string \<Rightarrow> string \<Rightarrow> payload option"
  pt_validate_grant :: "pyval \<Rightarrow> read_refresh_grant result"

type_synonym stamps = "nat \<Rightarrow> string \<times> time"

definition public_dict :: "'p ports \<Rightarrow> approval_configuration \<Rightarrow> payload" where
  "public_dict P c = (case ac_dump (pt_codec P) c of PDict d \<Rightarrow> d | _ \<Rightarrow> [])"

definition grant_snapshot :: "time \<Rightarrow> read_refresh_grant \<Rightarrow> pyval" where
  \<comment> \<open>\<open>ReadRefreshGrant.snapshot\<close>\<close>
  "grant_snapshot now g =
     PDict [(''capability_id'', PStr (rg_capability_id g)), (''max_calls'', PInt (rg_max_calls g)),
       (''min_interval_seconds'', PInt (rg_min_interval_seconds g)),
       (''expires_at'', PStr (isoformat (now + seconds (rg_duration_seconds g))))]"

definition dict_of :: "payload \<Rightarrow> payload" where
  \<comment> \<open>a dictionary display: a later entry of a key replaces the earlier one in place\<close>
  "dict_of ps = dmerge [] ps"

definition run_opt :: "session_aggregate \<Rightarrow> string option" where
  "run_opt a = (case sa_run_id a of PStr r \<Rightarrow> Some r | _ \<Rightarrow> None)"

definition status_value :: "session_aggregate \<Rightarrow> pyval" where
  \<comment> \<open>\<open>session.status.value if session.status else "created"\<close>\<close>
  "status_value a = PStr (case sa_status a of None \<Rightarrow> ''created'' | Some s \<Rightarrow> session_status_value s)"

definition run_status_text :: "session_aggregate \<Rightarrow> pyval" where
  "run_status_text a = (case sa_run_status a of None \<Rightarrow> PNone | Some r \<Rightarrow> PStr (run_status_value r))"

definition without_fingerprint :: "payload \<Rightarrow> payload" where
  "without_fingerprint p = filter (\<lambda>(k, _). k \<noteq> ''_request_fingerprint'') p"

section \<open>Loading and storing\<close>

definition ts_load :: "'p ports \<Rightarrow> event_store \<Rightarrow> string \<Rightarrow> string \<Rightarrow> session_aggregate result" where
  "ts_load P s tenant session =
     (case es_get_snapshot s tenant session of
        Some n \<Rightarrow>
          rbind (sa_from_snapshot (pt_codec P) (sn_state n) (sn_aggregate_version n))
            (sa_replay (pt_codec P) (es_load s tenant session (sn_aggregate_version n + 1) None None))
      | None \<Rightarrow>
          let events = es_load s tenant session 1 None None in
          raise_if (events = []) (NotFoundError (''Session not found: '' @ session))
            (sa_from_events (pt_codec P) events))"

definition ts_after_append ::
  "'p ports \<Rightarrow> session_aggregate \<Rightarrow> append_result \<Rightarrow> 'p world \<Rightarrow> 'p world \<times> unit result" where
  "ts_after_append P a res w =
     (if ar_deduplicated res then (w, Inr ())
      else let a' = (if ar_events res = [] then a else a\<lparr>sa_version := ce_version (last (ar_events res))\<rparr>) in
        case sa_snapshot_state (pt_codec P) a' of
          Inl e \<Rightarrow> (w, Inl e)
        | Inr st \<Rightarrow>
            (pt_relay_once P (w\<lparr>w_store := es_save_snapshot
               \<lparr>sn_tenant_id = sa_tenant_id a', sn_session_id = sa_session_id a', sn_aggregate_version = sa_version a',
                sn_schema_version = 1, sn_state = st\<rparr> (w_store w)\<rparr>), Inr ()))"

definition ts_commit ::
  "'p ports \<Rightarrow> session_aggregate \<Rightarrow> string option \<Rightarrow> command_context \<Rightarrow> payload \<Rightarrow> stamps \<Rightarrow> 'p world \<Rightarrow>
   'p world \<times> append_result result" where
  \<comment> \<open>append the pending events of the aggregate, then \<open>_after_append\<close>\<close>
  "ts_commit P a run ctx response stamp w =
     (case sa_release_pending_events a of (events, a') \<Rightarrow>
        case es_append (sa_root_session_id a') (sa_session_id a') run ctx events response stamp (w_store w) of
          (s', Inl e) \<Rightarrow> (w\<lparr>w_store := s'\<rparr>, Inl e)
        | (s', Inr res) \<Rightarrow>
            (case ts_after_append P a' res (w\<lparr>w_store := s'\<rparr>) of
               (w', Inl e) \<Rightarrow> (w', Inl e) | (w', Inr _) \<Rightarrow> (w', Inr res)))"

definition answer :: "('p world \<times> append_result result) \<Rightarrow> 'p world \<times> payload result" where
  \<comment> \<open>\<open>return result.command_result\<close>\<close>
  "answer r = (case r of (w, res) \<Rightarrow> (w, rbind res (\<lambda>x. Inr (ar_command_result x))))"

section \<open>Admission\<close>

definition govern_runtime_budget :: "'p ports \<Rightarrow> string \<Rightarrow> command_context \<Rightarrow> payload option result" where
  "govern_runtime_budget P goal ctx =
     (case pt_govern_budget P of
        None \<Rightarrow> rbind (pt_admit P goal ctx) (\<lambda>_. Inr (pt_runtime_budget P))
      | Some g \<Rightarrow> rbind (g goal ctx (case pt_runtime_budget P of None \<Rightarrow> [] | Some b \<Rightarrow> b)) (\<lambda>b. Inr (Some b)))"

definition capability_ids :: "pyval list \<Rightarrow> pyval list result" where
  "capability_ids grants = rmap (\<lambda>g. py_get g ''capability_id'' PNone) grants"

definition refresh_snapshots :: "'p ports \<Rightarrow> pyval list option \<Rightarrow> (nat \<Rightarrow> time) \<Rightarrow> pyval list result" where
  "refresh_snapshots P grants clock =
     (case grants of None \<Rightarrow> Inr [] | Some gs \<Rightarrow>
        raise_if (gs \<noteq> [] \<and> pget (case pt_runtime_budget P of None \<Rightarrow> [] | Some b \<Rightarrow> b) ''policy_version'' \<noteq> PStr ''2'')
          (CollaborationValidationError ''read refresh requires runtime budget policy v2'')
        (rbind (if gs \<noteq> [] \<and> length gs \<le> 8 then rbind (capability_ids gs) py_fromkeys else Inr gs) (\<lambda>ids.
         raise_if (gs \<noteq> [] \<and> (8 < length gs \<or> length ids \<noteq> length gs))
           (CollaborationValidationError ''at most eight distinct read refresh grants are allowed'')
         (rmap (\<lambda>(i, g). rbind (pt_validate_grant P g) (\<lambda>x. Inr (grant_snapshot (clock i) x))) (enumerate 0 gs)))))"

section \<open>Commands\<close>

definition fingerprint :: "payload \<Rightarrow> string" where
  "fingerprint p = sha256_hex (json_dumps json_default (PDict (dict_of p)))"

record task_request =
  tr_goal :: string
  tr_source :: string
  tr_schedule_id :: "string option"
  tr_occurrence_id :: "string option"
  tr_interaction_mode :: "interaction_mode option"
  tr_approval_mode :: "approval_mode option"
  tr_read_refresh :: "pyval list option"
  tr_skill_names :: "string list option"

definition task_approval :: "task_request \<Rightarrow> approval_configuration" where
  "task_approval r =
     approval_resolve
       (if tr_source r = ''schedule'' then NON_STREAMING
        else case tr_interaction_mode r of None \<Rightarrow> STREAMING | Some i \<Rightarrow> i) (tr_approval_mode r)"

definition create_fingerprint :: "'p ports \<Rightarrow> task_request \<Rightarrow> string" where
  "create_fingerprint P r =
     fingerprint ([(''goal'', PStr (tr_goal r)), (''source'', PStr (tr_source r)),
       (''schedule_id'', opt_str (tr_schedule_id r)), (''occurrence_id'', opt_str (tr_occurrence_id r))] @
       public_dict P (task_approval r) @
       (case tr_read_refresh r of None \<Rightarrow> [] | Some gs \<Rightarrow> if gs = [] then [] else [(''read_refresh'', PList gs)]) @
       (case tr_skill_names r of None \<Rightarrow> [] | Some ns \<Rightarrow> if ns = [] then [] else [(''skill_names'', PList (map PStr ns))]))"

definition create_task ::
  "'p ports \<Rightarrow> task_request \<Rightarrow> command_context \<Rightarrow> string \<Rightarrow> string \<Rightarrow> (nat \<Rightarrow> time) \<Rightarrow> stamps \<Rightarrow> 'p world \<Rightarrow>
   'p world \<times> payload result" where
  "create_task P r ctx fresh_session fresh_run clock stamp w =
     (let sid = ''ses_'' @ fresh_session; rid = ''run_'' @ fresh_run; approval = task_approval r in
      case rbind (govern_runtime_budget P (tr_goal r) ctx) (\<lambda>budget.
           rbind (refresh_snapshots P (tr_read_refresh r) clock) (\<lambda>refresh.
           sa_create (pt_codec P)
             \<lparr>cr_goal = tr_goal r, cr_run_id = rid, cr_dept_id = cc_dept_id ctx, cr_source = tr_source r,
              cr_schedule_id = tr_schedule_id r, cr_occurrence_id = tr_occurrence_id r, cr_approval = Some approval,
              cr_runtime_budget = budget, cr_read_refresh = Some refresh, cr_skill_names = tr_skill_names r\<rparr>
             (sa_empty sid (cc_tenant_id ctx)))) of
        Inl e \<Rightarrow> (w, Inl e)
      | Inr a \<Rightarrow>
          (case answer (ts_commit P a (run_opt a) ctx
                  (dict_of ([(''session_id'', PStr sid), (''run_id'', PStr rid), (''status'', PStr ''pending''),
                     (''_request_fingerprint'', PStr (create_fingerprint P r))] @ public_dict P approval @
                     [(''status_url'', PStr (''/v1/tasks/'' @ sid)), (''result_url'', PStr (''/v1/tasks/'' @ sid @ ''/result'')),
                      (''stream_url'', PStr (''/v1/streams/'' @ sid))])) stamp w) of
             (w', res) \<Rightarrow> (w', rbind res (\<lambda>p. Inr (without_fingerprint p)))))"

definition status_response :: "'p ports \<Rightarrow> string \<Rightarrow> session_aggregate \<Rightarrow> pyval \<Rightarrow> payload" where
  "status_response P session a status =
     dict_of (public_dict P (sa_approval a) @ [(''session_id'', PStr session), (''run_id'', sa_run_id a),
       (''status'', status), (''run_status'', run_status_text a)])"

definition append_message ::
  "'p ports \<Rightarrow> string \<Rightarrow> string \<Rightarrow> command_context \<Rightarrow> stamps \<Rightarrow> 'p world \<Rightarrow> 'p world \<times> payload result" where
  "append_message P session message ctx stamp w =
     (case rbind (ts_load P (w_store w) (cc_tenant_id ctx) session) (sa_append_message (pt_codec P) message) of
        Inl e \<Rightarrow> (w, Inl e)
      | Inr a \<Rightarrow> answer (ts_commit P a (run_opt a) ctx (status_response P session a (status_value a)) stamp w))"

definition run_fingerprint :: "string \<Rightarrow> approval_mode option \<Rightarrow> pyval list option \<Rightarrow> string" where
  "run_fingerprint session mode refresh =
     fingerprint ([(''session_id'', PStr session), (''approval_mode'', opt_str (map_option approval_mode_value mode))] @
       (case refresh of None \<Rightarrow> [] | Some gs \<Rightarrow> if gs = [] then [] else [(''read_refresh'', PList gs)]))"

definition repeated_run ::
  "string \<Rightarrow> string \<Rightarrow> canonical_event \<Rightarrow> payload result" where
  \<comment> \<open>the answer to a repeated run command\<close>
  "repeated_run session fp e =
     raise_if (pget (ce_payload e) ''request_fingerprint'' \<noteq> PStr fp)
       (VersionConflictError ''Run command was reused with a different approval mode'')
     (rbind (pitem (ce_payload e) ''run_id'') (\<lambda>rid.
      rbind (case pget_or (ce_payload e) ''approval'' (PDict []) of PDict d \<Rightarrow> Inr d
             | _ \<Rightarrow> Inl (TypeError ''argument after ** must be a mapping'')) (\<lambda>approval.
      Inr (dict_of ([(''session_id'', PStr session), (''run_id'', rid), (''status'', PStr ''pending''),
             (''run_status'', PStr ''pending'')] @ approval)))))"

definition request_run ::
  "'p ports \<Rightarrow> string \<Rightarrow> approval_mode option \<Rightarrow> pyval list option \<Rightarrow> command_context \<Rightarrow> string \<Rightarrow> (nat \<Rightarrow> time) \<Rightarrow> stamps \<Rightarrow>
   'p world \<Rightarrow> 'p world \<times> payload result" where
  "request_run P session mode refresh ctx fresh clock stamp w =
     (let fp = run_fingerprint session mode refresh; rid = ''run_'' @ fresh in
      case find (\<lambda>e. pget (ce_payload e) ''command_id'' = PStr (cc_command_id ctx))
             (es_load (w_store w) (cc_tenant_id ctx) session 1 (Some [''run.requested'']) None) of
        Some e \<Rightarrow> (w, repeated_run session fp e)
      | None \<Rightarrow>
          (case rbind (ts_load P (w_store w) (cc_tenant_id ctx) session) (\<lambda>a.
                rbind (govern_runtime_budget P (if sa_goal a = [] then ''continue task'' else sa_goal a) ctx) (\<lambda>budget.
                rbind (refresh_snapshots P refresh clock) (\<lambda>snaps.
                sa_request_run (pt_codec P) rid mode (Some (cc_command_id ctx)) (Some fp) budget (Some snaps) a))) of
             Inl e \<Rightarrow> (w, Inl e)
           | Inr a \<Rightarrow>
               (case answer (ts_commit P a (Some rid) ctx
                       (dict_of ([(''session_id'', PStr session), (''run_id'', PStr rid), (''status'', PStr ''pending''),
                          (''run_status'', PStr ''pending''), (''_request_fingerprint'', PStr fp)] @
                          public_dict P (sa_approval a))) stamp w) of
                  (w', res) \<Rightarrow> (w', rbind res (\<lambda>p. Inr (without_fingerprint p))))))"

definition cancel_task ::
  "'p ports \<Rightarrow> string \<Rightarrow> string \<Rightarrow> command_context \<Rightarrow> stamps \<Rightarrow> 'p world \<Rightarrow> 'p world \<times> payload result" where
  "cancel_task P session reason ctx stamp w =
     (case rbind (ts_load P (w_store w) (cc_tenant_id ctx) session) (sa_cancel (pt_codec P) reason) of
        Inl e \<Rightarrow> (w, Inl e)
      | Inr a \<Rightarrow> answer (ts_commit P a (run_opt a) ctx (status_response P session a (status_value a)) stamp w))"

definition close_session ::
  "'p ports \<Rightarrow> string \<Rightarrow> string \<Rightarrow> command_context \<Rightarrow> stamps \<Rightarrow> 'p world \<Rightarrow> 'p world \<times> payload result" where
  "close_session P session reason ctx stamp w =
     (case rbind (ts_load P (w_store w) (cc_tenant_id ctx) session) (sa_close (pt_codec P) reason) of
        Inl e \<Rightarrow> (w, Inl e)
      | Inr a \<Rightarrow> answer (ts_commit P a (run_opt a) ctx (status_response P session a (PStr ''closed'')) stamp w))"

definition resume_task ::
  "'p ports \<Rightarrow> string \<Rightarrow> command_context \<Rightarrow> string \<Rightarrow> stamps \<Rightarrow> 'p world \<Rightarrow> 'p world \<times> payload result" where
  "resume_task P session ctx fresh stamp w =
     (let rid = ''run_'' @ fresh in
      case rbind (ts_load P (w_store w) (cc_tenant_id ctx) session) (sa_resume (pt_codec P) rid) of
        Inl e \<Rightarrow> (w, Inl e)
      | Inr a \<Rightarrow> answer (ts_commit P a (Some rid) ctx
          (dict_of (public_dict P (sa_approval a) @ [(''session_id'', PStr session), (''run_id'', PStr rid),
             (''status'', PStr ''pending''), (''run_status'', PStr ''pending'')])) stamp w))"

section \<open>Approvals\<close>

definition repeated_response ::
  "'p ports \<Rightarrow> string \<Rightarrow> string \<Rightarrow> string \<Rightarrow> string option \<Rightarrow> command_context \<Rightarrow> canonical_event list \<Rightarrow>
   canonical_event \<Rightarrow> event_store \<Rightarrow> payload result" where
  \<comment> \<open>the answer to a repeated approval response\<close>
  "repeated_response P session approval decision feedback ctx events e s =
     (let p = ce_payload e in
      raise_if (pget p ''approval_id'' \<noteq> PStr approval \<or> pget p ''actor_id'' \<noteq> PStr (actor_id (cc_actor ctx)) \<or>
          pget p ''decision'' \<noteq> PStr decision \<or> pget p ''feedback'' \<noteq> opt_str feedback)
        (VersionConflictError ''command was reused with a different request'')
      (let terminal = find (\<lambda>x. ce_causation_id x = cc_command_id ctx \<and>
             ce_type x \<in> set [''approval.approved'', ''approval.rejected'', ''approval.expired'', ''approval.cancelled'']) events;
           status = PStr (if terminal \<noteq> None then ''runnable'' else ''waiting_for_human'')
       in rbind (ts_load P s (cc_tenant_id ctx) session) (\<lambda>a.
          Inr (dict_of (public_dict P (sa_approval a) @
            [(''session_id'', PStr session), (''run_id'', opt_str (ce_run_id e)), (''status'', status),
             (''run_status'', status), (''approval_id'', PStr approval),
             (''decision'', PStr (case terminal of None \<Rightarrow> ''waiting'' | Some x \<Rightarrow> drop (length ''approval.'') (ce_type x)))])))))"

definition known_record ::
  "'p ports \<Rightarrow> string \<Rightarrow> string \<Rightarrow> command_context \<Rightarrow> canonical_event list \<Rightarrow> 'p \<Rightarrow> approval_record result" where
  \<comment> \<open>the record of the Session's events, or the projected one\<close>
  "known_record P session approval ctx events view =
     rbind (approval_from_events events (cc_tenant_id ctx) session approval) (\<lambda>rec.
       case rec of Some r \<Rightarrow> Inr r
       | None \<Rightarrow>
           (case pt_approvals P of None \<Rightarrow> Inl (NotFoundError (''Approval not found: '' @ approval))
            | Some view_get \<Rightarrow>
                (case view_get view (cc_tenant_id ctx) approval of
                   None \<Rightarrow> Inl (NotFoundError (''Approval not found: '' @ approval))
                 | Some r \<Rightarrow> raise_if (ap_session_id r \<noteq> session)
                     (NotFoundError (''Approval not found: '' @ approval)) (Inr r))))"

definition decide ::
  "'p ports \<Rightarrow> string \<Rightarrow> string \<Rightarrow> string option \<Rightarrow> command_context \<Rightarrow> time \<Rightarrow> approval_record \<Rightarrow> session_aggregate \<Rightarrow>
   (approval_record \<times> bool \<times> bool \<times> session_aggregate) result" where
  \<comment> \<open>the decided record, whether it is final, whether events were raised, the aggregate\<close>
  "decide P approval decision feedback ctx now r a =
     (if approval_status_value (ap_status r) = decision then Inr (r, True, False, a)
      else rbind (approval_vote r (actor_id (cc_actor ctx)) decision feedback now) (\<lambda>(decided, terminal).
           rbind (sa_record_human_response (pt_codec P) approval (actor_id (cc_actor ctx)) decision feedback terminal a)
             (\<lambda>a'. Inr (decided, terminal, True, a'))))"

definition notify_decision ::
  "'p ports \<Rightarrow> bool \<Rightarrow> approval_record \<Rightarrow> string \<Rightarrow> string option \<Rightarrow> string \<Rightarrow> payload \<Rightarrow> 'p world \<Rightarrow> 'p world \<times> payload result" where
  "notify_decision P terminal r decision feedback actor response w =
     (case pt_notify P of
        None \<Rightarrow> (w, Inr response)
      | Some notify \<Rightarrow>
          if \<not> terminal then (w, Inr response)
          else (case notify r decision feedback actor (w_view w) of
                  Inl e \<Rightarrow> (w, Inl e) | Inr view \<Rightarrow> (w\<lparr>w_view := view\<rparr>, Inr response)))"

definition record_approval_response ::
  "'p ports \<Rightarrow> string \<Rightarrow> string \<Rightarrow> string \<Rightarrow> string option \<Rightarrow> command_context \<Rightarrow> time \<Rightarrow> stamps \<Rightarrow> 'p world \<Rightarrow>
   'p world \<times> payload result" where
  "record_approval_response P session approval decision feedback ctx now stamp w =
     (let events = es_load (w_store w) (cc_tenant_id ctx) session 1 None None in
      case find (\<lambda>e. ce_type e = ''human.response.recorded'' \<and> ce_causation_id e = cc_command_id ctx) events of
        Some e \<Rightarrow> (w, repeated_response P session approval decision feedback ctx events e (w_store w))
      | None \<Rightarrow>
          (case rbind (known_record P session approval ctx events (w_view w)) (\<lambda>r.
                rbind (ts_load P (w_store w) (cc_tenant_id ctx) session) (\<lambda>a.
                rbind (decide P approval decision feedback ctx now r a) (\<lambda>d. Inr (r, d)))) of
             Inl e \<Rightarrow> (w, Inl e)
           | Inr (r, decided, terminal, append_required, a) \<Rightarrow>
               let response = dict_of (public_dict P (sa_approval a) @
                     [(''session_id'', PStr session), (''run_id'', sa_run_id a), (''status'', status_value a),
                      (''run_status'', run_status_text a), (''approval_id'', PStr approval),
                      (''decision'', PStr (approval_status_value (ap_status decided)))]);
                   decision' = approval_status_value (ap_status decided); actor = actor_id (cc_actor ctx)
               in if \<not> append_required then notify_decision P terminal r decision' feedback actor response w
                  else (case answer (ts_commit P a (run_opt a) ctx response stamp w) of
                          (w', Inl e) \<Rightarrow> (w', Inl e)
                        | (w', Inr recorded) \<Rightarrow> notify_decision P terminal r decision' feedback actor recorded w')))"

definition stored_record :: "string \<Rightarrow> string \<Rightarrow> string \<Rightarrow> event_store \<Rightarrow> approval_record result" where
  \<comment> \<open>\<open>_approval_record\<close>\<close>
  "stored_record tenant session approval s =
     rbind (approval_from_events (es_load s tenant session 1 None None) tenant session approval) (\<lambda>rec.
       case rec of None \<Rightarrow> Inl (NotFoundError (''Approval not found: '' @ approval)) | Some r \<Rightarrow> Inr r)"

definition repeated_delegation ::
  "string \<Rightarrow> string \<Rightarrow> string \<Rightarrow> string \<Rightarrow> command_context \<Rightarrow> canonical_event \<Rightarrow> event_store \<Rightarrow> payload result" where
  "repeated_delegation session approval to_approver reason ctx e s =
     (let p = ce_payload e in
      raise_if (pget p ''approval_id'' \<noteq> PStr approval \<or> pget p ''from_approver'' \<noteq> PStr (actor_id (cc_actor ctx)) \<or>
          pget p ''to_approver'' \<noteq> PStr to_approver \<or> pget p ''reason'' \<noteq> PStr reason)
        (VersionConflictError ''command was reused with a different request'')
      (rbind (stored_record (cc_tenant_id ctx) session approval s) (\<lambda>r.
       Inr [(''session_id'', PStr session), (''approval_id'', PStr approval), (''status'', PStr ''waiting''),
            (''assigned_approvers'', PList (ap_assigned_approvers r))])))"

definition may_delegate :: "string \<Rightarrow> string \<Rightarrow> approval_record \<Rightarrow> unit result" where
  "may_delegate actor to_approver r =
     raise_if (ap_status r \<notin> {AS_REQUESTED, AS_WAITING})
       (ApprovalValidationError ''only a waiting approval can be delegated'')
     (raise_if (\<not> listed actor (ap_assigned_approvers r))
        (ApprovalValidationError ''only an assigned approver may delegate'')
     (rbind (voted_by actor (ap_votes r)) (\<lambda>voted.
      raise_if voted (ApprovalValidationError ''an approver who already voted cannot delegate'')
      (raise_if (listed to_approver (ap_assigned_approvers r))
         (ApprovalValidationError ''delegate is already assigned'') (Inr ())))))"

definition delegate_approval ::
  "'p ports \<Rightarrow> string \<Rightarrow> string \<Rightarrow> string \<Rightarrow> string \<Rightarrow> command_context \<Rightarrow> stamps \<Rightarrow> 'p world \<Rightarrow> 'p world \<times> payload result" where
  "delegate_approval P session approval to_approver reason ctx stamp w =
     (let actor = actor_id (cc_actor ctx) in
      case find (\<lambda>e. ce_type e = ''approval.delegated'' \<and> ce_causation_id e = cc_command_id ctx)
             (es_load (w_store w) (cc_tenant_id ctx) session 1 None None) of
        Some e \<Rightarrow> (w, repeated_delegation session approval to_approver reason ctx e (w_store w))
      | None \<Rightarrow>
          (case rbind (stored_record (cc_tenant_id ctx) session approval (w_store w)) (\<lambda>r.
                rbind (may_delegate actor to_approver r) (\<lambda>_.
                rbind (ts_load P (w_store w) (cc_tenant_id ctx) session) (\<lambda>a.
                rbind (sa_delegate_approval (pt_codec P) approval actor to_approver actor reason a) (\<lambda>a'. Inr (r, a'))))) of
             Inl e \<Rightarrow> (w, Inl e)
           | Inr (r, a) \<Rightarrow>
               answer (ts_commit P a (run_opt a) ctx
                 [(''session_id'', PStr session), (''approval_id'', PStr approval), (''status'', PStr ''waiting''),
                  (''assigned_approvers'', PList (map (\<lambda>v. if v = PStr actor then PStr to_approver else v)
                     (ap_assigned_approvers r)))] stamp w)))"

definition repeated_escalation ::
  "string \<Rightarrow> string \<Rightarrow> string list \<Rightarrow> string \<Rightarrow> command_context \<Rightarrow> canonical_event \<Rightarrow> event_store \<Rightarrow> payload result" where
  "repeated_escalation session approval approvers reason ctx e s =
     (let p = ce_payload e in
      rbind (if pget p ''approval_id'' \<noteq> PStr approval then Inr []
             else py_list (pget_or p ''approvers'' (PList []))) (\<lambda>stored.
      raise_if (pget p ''approval_id'' \<noteq> PStr approval \<or> stored \<noteq> map PStr (fromkeys approvers) \<or>
          pget p ''reason'' \<noteq> PStr reason)
        (VersionConflictError ''command was reused with a different request'')
      (rbind (stored_record (cc_tenant_id ctx) session approval s) (\<lambda>r.
       Inr [(''session_id'', PStr session), (''approval_id'', PStr approval), (''status'', PStr ''waiting''),
            (''escalation_level'', PInt (ap_escalation_level r)),
            (''assigned_approvers'', PList (ap_assigned_approvers r))]))))"

definition may_escalate :: "string \<Rightarrow> string list \<Rightarrow> approval_record \<Rightarrow> unit result" where
  "may_escalate actor additions r =
     raise_if (ap_status r \<notin> {AS_REQUESTED, AS_WAITING})
       (ApprovalValidationError ''only a waiting approval can be escalated'')
     (raise_if (ap_assigned_approvers r \<noteq> [] \<and> \<not> listed actor (ap_assigned_approvers r))
        (ApprovalValidationError ''only an assigned approver may escalate'')
     (raise_if (list_ex (\<lambda>v. listed v (ap_assigned_approvers r)) additions)
        (ApprovalValidationError ''escalation approvers must be newly assigned'') (Inr ())))"

definition escalate_approval ::
  "'p ports \<Rightarrow> string \<Rightarrow> string \<Rightarrow> string list \<Rightarrow> string \<Rightarrow> command_context \<Rightarrow> stamps \<Rightarrow> 'p world \<Rightarrow> 'p world \<times> payload result" where
  "escalate_approval P session approval approvers reason ctx stamp w =
     (let actor = actor_id (cc_actor ctx); additions = fromkeys approvers in
      case find (\<lambda>e. ce_type e = ''approval.escalated'' \<and> ce_causation_id e = cc_command_id ctx)
             (es_load (w_store w) (cc_tenant_id ctx) session 1 None None) of
        Some e \<Rightarrow> (w, repeated_escalation session approval approvers reason ctx e (w_store w))
      | None \<Rightarrow>
          (case rbind (stored_record (cc_tenant_id ctx) session approval (w_store w)) (\<lambda>r.
                rbind (may_escalate actor additions r) (\<lambda>_.
                rbind (ts_load P (w_store w) (cc_tenant_id ctx) session) (\<lambda>a.
                rbind (sa_escalate_approval (pt_codec P) approval additions (ap_escalation_level r + 1) actor reason None a)
                  (\<lambda>a'. Inr (r, a'))))) of
             Inl e \<Rightarrow> (w, Inl e)
           | Inr (r, a) \<Rightarrow>
               answer (ts_commit P a (run_opt a) ctx
                 [(''session_id'', PStr session), (''approval_id'', PStr approval), (''status'', PStr ''waiting''),
                  (''escalation_level'', PInt (ap_escalation_level r + 1)),
                  (''assigned_approvers'', PList (ap_assigned_approvers r @ map PStr additions))] stamp w)))"

section \<open>Due approvals\<close>

definition sla_action ::
  "'p ports \<Rightarrow> time \<Rightarrow> approval_record \<Rightarrow> session_aggregate \<Rightarrow> (string \<times> time \<times> session_aggregate) option result" where
  \<comment> \<open>what is due for a record: its name, since when, and the aggregate with the event\<close>
  "sla_action P current r a =
     (if sa_status a \<noteq> Some S_WAITING_FOR_HUMAN then Inr None
      else if ap_expires_at r \<le> current
      then rbind (sa_expire_approval (pt_codec P) (ap_approval_id r) current a) (\<lambda>a'.
             Inr (Some (''expired'', ap_expires_at r, a')))
      else case ap_escalation_at r of
        None \<Rightarrow> Inr None
      | Some due \<Rightarrow>
          if current < due then Inr None
          else rbind (sa_escalate_approval (pt_codec P) (ap_approval_id r) [] (ap_escalation_level r + 1)
                  ''approval-sla-worker'' ''approval_sla_escalation'' None a) (\<lambda>a'.
               Inr (Some (''escalated'', due, a'))))"

definition sla_context :: "string \<Rightarrow> time \<Rightarrow> approval_record \<Rightarrow> session_aggregate \<Rightarrow> command_context" where
  "sla_context action due r a =
     \<lparr>cc_command_id = ''approval-sla:'' @ action @ '':'' @ ap_approval_id r @ '':'' @ isoformat due,
      cc_tenant_id = ap_tenant_id r, cc_actor = \<lparr>actor_type = ''system'', actor_id = ''approval-sla-worker''\<rparr>,
      cc_correlation_id = ap_run_id r, cc_expected_version = sa_version a,
      cc_operation = ''approval_sla_'' @ action, cc_causation_id = Some (ap_approval_id r), cc_dept_id = None\<rparr>"

fun sla_loop ::
  "'p ports \<Rightarrow> time \<Rightarrow> (nat \<Rightarrow> stamps) \<Rightarrow> nat \<Rightarrow> approval_record list \<Rightarrow> int \<Rightarrow> 'p world \<Rightarrow> 'p world \<times> int result" where
  "sla_loop P current stamp n [] processed w = (w, Inr processed)"
| "sla_loop P current stamp n (r # rs) processed w =
     (case rbind (ts_load P (w_store w) (ap_tenant_id r) (ap_session_id r)) (sla_action P current r) of
        Inl e \<Rightarrow> (w, Inl e)
      | Inr None \<Rightarrow> sla_loop P current stamp (Suc n) rs processed w
      | Inr (Some (action, due, a)) \<Rightarrow>
          (case ts_commit P a (run_opt a) (sla_context action due r a)
                  [(''session_id'', PStr (ap_session_id r)), (''approval_id'', PStr (ap_approval_id r)),
                   (''status'', PStr action)] (stamp n) w of
             (w', Inl e) \<Rightarrow> (w', Inl e)
           | (w', Inr res) \<Rightarrow>
               sla_loop P current stamp (Suc n) rs (if ar_deduplicated res then processed else processed + 1) w'))"

definition process_due_approval_slas ::
  "'p ports \<Rightarrow> time \<Rightarrow> int \<Rightarrow> (nat \<Rightarrow> stamps) \<Rightarrow> 'p world \<Rightarrow> 'p world \<times> int result" where
  "process_due_approval_slas P current limit stamp w =
     (if pt_approvals P = None then (w, Inr 0)
      else sla_loop P current stamp 0 (pt_list_due P (w_view w) current limit) 0 w)"

definition get_task :: "'p ports \<Rightarrow> string \<Rightarrow> string \<Rightarrow> 'p world \<Rightarrow> payload result" where
  "get_task P tenant session w =
     (case pt_get_task P (w_view w) tenant session of
        None \<Rightarrow> Inl (NotFoundError (''Session not found: '' @ session)) | Some t \<Rightarrow> Inr t)"

end
