(* ===== verification/Outbox_Relay.thy ===== *)
theory Outbox_Relay
  imports Event_Store_Laws
begin

text \<open>
  The relay from the outbox to the projectors (\<open>projection/relay.py\<close>): pending projection records are
  handed to the projector in order; one the projector refuses is counted as a failed attempt, one it
  accepts is marked published. The projector is a function on its own state that may raise.
\<close>

fun relay_records ::
  "(canonical_event list \<Rightarrow> 'p \<Rightarrow> 'p result) \<Rightarrow> outbox_record list \<Rightarrow> event_store \<Rightarrow> 'p \<Rightarrow> event_store \<times> 'p \<times> int" where
  "relay_records project [] s view = (s, view, 0)"
| "relay_records project (r # rs) s view =
     (case project [ob_event r] view of
        Inl _ \<Rightarrow> relay_records project rs (es_mark_outbox_failed (ob_id r) s) view
      | Inr view' \<Rightarrow>
          (case relay_records project rs (es_mark_outbox_published (ob_id r) s) view' of
             (s', view'', n) \<Rightarrow> (s', view'', n + 1)))"

definition relay_once ::
  "(canonical_event list \<Rightarrow> 'p \<Rightarrow> 'p result) \<Rightarrow> int \<Rightarrow> event_store \<Rightarrow> 'p \<Rightarrow> event_store \<times> 'p \<times> int" where
  "relay_once project limit s view = relay_records project (slice_to (Some limit) (es_pending_outbox s)) s view"

text \<open>The relay changes nothing but the state of outbox records.\<close>

definition same_log :: "event_store \<Rightarrow> event_store \<Rightarrow> bool" where
  "same_log s s' \<longleftrightarrow> es_streams s' = es_streams s \<and> es_commands s' = es_commands s \<and>
     es_snapshots s' = es_snapshots s \<and> map ob_core (es_outbox s') = map ob_core (es_outbox s)"

lemma same_log_refl: "same_log s s"
  by (simp add: same_log_def)

lemma es_mark_snapshots:
  "es_snapshots (es_mark_outbox_failed i s) = es_snapshots s" "es_snapshots (es_mark_outbox_published i s) = es_snapshots s"
  by (simp_all add: es_mark_outbox_failed_def es_mark_outbox_published_def)

lemma relay_records_same_log: "same_log s (fst (relay_records project rs s view))"
proof (induction project rs s view rule: relay_records.induct)
  case (2 project r rs s view)
  have "same_log s (es_mark_outbox_failed (ob_id r) s)" "same_log s (es_mark_outbox_published (ob_id r) s)"
    using es_step_keeps [of "Mark_failed (ob_id r)" s] es_step_keeps [of "Mark_published (ob_id r)" s]
    by (simp_all add: same_log_def appends_only_def es_mark_snapshots)
  then show ?case using 2 by (auto simp: same_log_def case_prod_unfold split: sum.splits)
qed (simp add: same_log_refl)

lemma relay_once_same_log: "same_log s (fst (relay_once project limit s view))"
  unfolding relay_once_def by (rule relay_records_same_log)

section \<open>The outbox drains\<close>

lemma pending_after_published:
  assumes "ids_ok (es_outbox s)" "es_pending_outbox s = r # rest"
  shows "es_pending_outbox (es_mark_outbox_published (ob_id r) s) = rest"
proof -
  let ?P = "\<lambda>r. \<not> ob_published r \<and> \<not> ob_poisoned r \<and> ob_destination r = ''projection''"
  have "filter ?P (update_first (\<lambda>x. ob_id x = ob_id r) (\<lambda>x. x\<lparr>ob_published := True\<rparr>) ob) = rest"
    if "filter ?P ob = r # rest" "distinct (map ob_id ob)" for ob
    using that
  proof (induction ob)
    case (Cons x ob)
    show ?case
    proof (cases "?P x")
      case True
      then show ?thesis using Cons.prems by simp
    next
      case False
      then have f: "filter ?P ob = r # rest" using Cons.prems by (simp del: de_Morgan_conj)
      then have "r \<in> set ob" using filter_is_subset [of ?P ob] by (metis list.set_intros(1) subsetD)
      then have "ob_id x \<noteq> ob_id r" using Cons.prems(2) by force
      with False f Cons show ?thesis by simp
    qed
  qed simp
  then show ?thesis
    using assms ids_ok_distinct [OF assms(1)]
    by (simp add: es_pending_outbox_def pending_for_def es_mark_outbox_published_def)
qed

lemma es_inv_ids: "es_inv s \<Longrightarrow> ids_ok (es_outbox s)"
  by (simp add: es_inv_def)

lemma es_inv_published: "es_inv s \<Longrightarrow> es_inv (es_mark_outbox_published i s)"
  using es_step_inv [of s "Mark_published i"] by simp

lemma relay_records_drain:
  assumes "es_inv s" "es_pending_outbox s = rs @ rest" "\<forall>e v. \<exists>v'. project [e] v = Inr v'"
  shows "\<exists>s' view'. relay_records project rs s view = (s', view', int (length rs)) \<and> es_pending_outbox s' = rest \<and>
     rfold (\<lambda>e. project [e]) (map ob_event rs) view = Inr view'"
  using assms
proof (induction rs arbitrary: s view)
  case (Cons r rs)
  obtain v where v: "project [ob_event r] view = Inr v" using Cons.prems(3) by blast
  let ?s1 = "es_mark_outbox_published (ob_id r) s"
  have "es_pending_outbox ?s1 = rs @ rest" using pending_after_published [OF es_inv_ids [OF Cons.prems(1)]] Cons.prems(2) by simp
  from Cons.IH [OF es_inv_published [OF Cons.prems(1)] this Cons.prems(3), of v] v
  show ?case by auto
qed simp



end
