(* ===== verification/Approval_Laws.thy ===== *)
theory Approval_Laws
  imports Approval "HOL-Library.Sublist"
begin

text \<open>
  Laws of approvals: a record is decided by the quorum of the ballots it accepted; a request survives
  the round trip through its event; a vote and the event a Session stores for it have the same effect;
  the text a request digest is taken of determines the request.
\<close>

section \<open>Votes\<close>

type_synonym ballot = "string \<times> string \<times> string option \<times> time"

definition vote_of :: "ballot \<Rightarrow> pyval" where
  "vote_of b = (case b of (actor, decision, feedback, now) \<Rightarrow> recorded_vote actor decision (opt_str feedback) now)"

fun vote_step :: "ballot \<Rightarrow> approval_record \<Rightarrow> approval_record" where
  \<comment> \<open>a vote that is refused leaves the record as it was\<close>
  "vote_step (actor, decision, feedback, now) r =
     (case approval_vote r actor decision feedback now of Inl _ \<Rightarrow> r | Inr (r', _) \<Rightarrow> r')"

lemma recorded_vote_fields:
  "py_get (recorded_vote a d f t) ''actor_id'' x = Inr (PStr a)"
  "vote_decision (recorded_vote a d f t) = Inr (PStr d)"
  by (simp_all add: recorded_vote_def py_get_def vote_decision_def dget_def)

lemma voted_by_ballots: "voted_by actor (map vote_of bs) = Inr (actor \<in> fst ` set bs)"
proof -
  have "rfold (\<lambda>v found. if found then Inr True
       else rbind (py_get v ''actor_id'' PNone) (\<lambda>a. Inr (py_str a = actor))) (map vote_of bs) b =
     (Inr (b \<or> actor \<in> fst ` set bs) :: bool result)" for b
    by (induction bs arbitrary: b) (auto simp: vote_of_def recorded_vote_fields split: prod.split)
  then show ?thesis by (simp add: voted_by_def)
qed

definition approvals :: "ballot list \<Rightarrow> int" where
  "approvals bs = int (length (filter (\<lambda>b. fst (snd b) = ''approved'') bs))"

lemma approved_count_ballots: "approved_count (map vote_of bs) = Inr (approvals bs)"
proof -
  have "rmap vote_decision (map vote_of bs) = Inr (map (\<lambda>b. PStr (fst (snd b))) bs)"
    by (induction bs) (auto simp: vote_of_def recorded_vote_fields split: prod.split)
  then show ?thesis by (simp add: approved_count_def approvals_def filter_map comp_def)
qed

definition tally :: "approval_record \<Rightarrow> ballot list \<Rightarrow> approval_status" where
  "tally r bs = (if \<exists>b \<in> set bs. fst (snd b) = ''rejected'' then AS_REJECTED
     else if ap_required_approvals r \<le> approvals bs then AS_APPROVED else AS_WAITING)"

definition cast_by :: "approval_record \<Rightarrow> ballot \<Rightarrow> bool" where
  \<comment> \<open>a ballot the record may accept: in time, by an approver, with an allowed decision\<close>
  "cast_by r b = (case b of (actor, decision, _, now) \<Rightarrow>
     now < ap_expires_at r \<and> (ap_assigned_approvers r = [] \<or> PStr actor \<in> set (ap_assigned_approvers r)) \<and>
     PStr decision \<in> set (ap_allowed_decisions r))"

definition voted :: "approval_record \<Rightarrow> ballot list \<Rightarrow> approval_record \<Rightarrow> bool" where
  \<comment> \<open>the record is the fresh one with these ballots counted\<close>
  "voted r0 bs r \<longleftrightarrow>
     ap_votes r = map vote_of bs \<and> distinct (map fst bs) \<and> list_all (cast_by r0) bs \<and>
     ap_status r = tally r0 bs \<and> approvals bs \<le> ap_required_approvals r0 \<and>
     ap_expires_at r = ap_expires_at r0 \<and> ap_assigned_approvers r = ap_assigned_approvers r0 \<and>
     ap_allowed_decisions r = ap_allowed_decisions r0 \<and> ap_required_approvals r = ap_required_approvals r0"

lemma approval_vote_ok:
  assumes "approval_vote r actor decision feedback now = Inr (r', terminal)" "ap_votes r = map vote_of bs"
  shows "ap_status r \<in> {AS_REQUESTED, AS_WAITING}" "cast_by r (actor, decision, feedback, now)" "actor \<notin> fst ` set bs"
    and "terminal \<longleftrightarrow> decision = ''rejected'' \<or> ap_required_approvals r \<le> approvals (bs @ [(actor, decision, feedback, now)])"
    and "r' = r\<lparr>ap_votes := map vote_of (bs @ [(actor, decision, feedback, now)]),
                 ap_status := (if decision = ''rejected'' then AS_REJECTED else if terminal then AS_APPROVED else AS_WAITING),
                 ap_decision := (if terminal then PStr (if decision = ''rejected'' then ''rejected'' else ''approved'') else PNone),
                 ap_feedback := (if terminal then opt_str feedback else PNone)\<rparr>"
proof -
  let ?b = "(actor, decision, feedback, now)"
  have v: "ap_votes r @ [recorded_vote actor decision (opt_str feedback) now] = map vote_of (bs @ [?b])"
    using assms(2) by (simp add: vote_of_def)
  note vote = assms(1) [unfolded approval_vote_def raise_if_def assms(2) voted_by_ballots,
      folded assms(2), unfolded v Let_def approved_count_ballots]
  show "ap_status r \<in> {AS_REQUESTED, AS_WAITING}" "cast_by r ?b" "actor \<notin> fst ` set bs"
    using vote by (auto simp: cast_by_def listed_def split: if_splits)
  show "terminal \<longleftrightarrow> decision = ''rejected'' \<or> ap_required_approvals r \<le> approvals (bs @ [?b])"
    using vote by (auto split: if_splits)
  show "r' = r\<lparr>ap_votes := map vote_of (bs @ [?b]),
                 ap_status := (if decision = ''rejected'' then AS_REJECTED else if terminal then AS_APPROVED else AS_WAITING),
                 ap_decision := (if terminal then PStr (if decision = ''rejected'' then ''rejected'' else ''approved'') else PNone),
                 ap_feedback := (if terminal then opt_str feedback else PNone)\<rparr>"
    using vote by (auto split: if_splits)
qed

lemma voted_step:
  assumes "voted r0 bs r" "1 \<le> ap_required_approvals r0"
  shows "voted r0 bs (vote_step b r) \<or> voted r0 (bs @ [b]) (vote_step b r)"
proof -
  obtain actor decision feedback now where b: "b = (actor, decision, feedback, now)" by (cases b) auto
  show ?thesis
  proof (cases "approval_vote r actor decision feedback now")
    case (Inl e)
    then show ?thesis using assms b by simp
  next
    case (Inr res)
    obtain r' terminal where res: "res = (r', terminal)" by (cases res)
    have votes: "ap_votes r = map vote_of bs" using assms(1) by (simp add: voted_def)
    note ok = approval_vote_ok [OF Inr [unfolded res] votes]
    have waiting: "\<forall>b \<in> set bs. fst (snd b) \<noteq> ''rejected''" "approvals bs < ap_required_approvals r0"
      using ok(1) assms(1) by (auto simp: voted_def tally_def split: if_splits)
    have "cast_by r0 b" using ok(2) assms(1) b by (simp add: voted_def cast_by_def)
    moreover have "approvals (bs @ [b]) \<le> ap_required_approvals r0"
      using waiting by (simp add: approvals_def)
    ultimately have "voted r0 (bs @ [b]) r'"
      using assms(1) ok waiting b by (auto simp: voted_def tally_def)
    then show ?thesis using Inr res b by simp
  qed
qed

lemma voted_run:
  assumes "voted r0 bs r" "1 \<le> ap_required_approvals r0"
  shows "\<exists>cs. subseq cs ops \<and> voted r0 (bs @ cs) (fold vote_step ops r)"
  using assms(1)
proof (induction ops arbitrary: bs r)
  case Nil
  then show ?case by (intro exI [of _ "[]"]) simp
next
  case (Cons b ops)
  from voted_step [OF Cons.prems assms(2), of b]
  consider "voted r0 bs (vote_step b r)" | "voted r0 (bs @ [b]) (vote_step b r)" by blast
  then show ?case
  proof cases
    case 1
    from Cons.IH [OF this] obtain cs where "subseq cs ops" "voted r0 (bs @ cs) (fold vote_step ops (vote_step b r))" by blast
    then show ?thesis by (intro exI [of _ cs]) auto
  next
    case 2
    from Cons.IH [OF this] obtain cs where "subseq cs ops" "voted r0 ((bs @ [b]) @ cs) (fold vote_step ops (vote_step b r))"
      by blast
    then show ?thesis by (intro exI [of _ "b # cs"]) auto
  qed
qed

text \<open>
  C24: only a quorum of distinct approvers approves. Whatever votes arrive in whatever order, the record
  counts some of them, each cast before the expiry by a different actor who is an assigned approver
  (if any are assigned); it is rejected exactly if one of the counted votes rejects, approved exactly
  if none does and as many approve as the request requires, and waiting otherwise.
\<close>

theorem quorum_decides:
  assumes "approval_request tenant session run digest tool args risk reason effect policy assigned required
     escalation ttl now fresh = Inr r0"
  shows "\<exists>bs. subseq bs ops \<and> distinct (map fst bs) \<and>
     (\<forall>(actor, decision, feedback, at_time) \<in> set bs. at_time < now + ttl \<and> (assigned = [] \<or> actor \<in> set assigned) \<and>
        decision \<in> {''approved'', ''rejected''}) \<and>
     ap_votes (fold vote_step ops r0) = map vote_of bs \<and>
     ap_status (fold vote_step ops r0) =
       (if \<exists>b \<in> set bs. fst (snd b) = ''rejected'' then AS_REJECTED
        else if int (length bs) = required then AS_APPROVED else AS_WAITING) \<and>
     int (length (filter (\<lambda>b. fst (snd b) = ''approved'') bs)) \<le> required"
proof -
  have r0: "1 \<le> ap_required_approvals r0" "ap_votes r0 = []" "ap_status r0 = AS_WAITING" "ap_required_approvals r0 = required"
    "ap_expires_at r0 = now + ttl" "ap_assigned_approvers r0 = map PStr assigned"
    "ap_allowed_decisions r0 = [PStr ''approved'', PStr ''rejected'']"
    using assms by (auto simp: approval_request_def raise_if_def split: if_splits)
  have "voted r0 [] r0" using r0 by (simp add: voted_def tally_def approvals_def)
  from voted_run [OF this r0(1), of ops] obtain bs where bs: "subseq bs ops" "voted r0 bs (fold vote_step ops r0)" by auto
  have cast: "\<forall>(actor, decision, feedback, at_time) \<in> set bs. at_time < now + ttl \<and> (assigned = [] \<or> actor \<in> set assigned) \<and>
        decision \<in> {''approved'', ''rejected''}"
    using bs(2) r0 by (auto simp: voted_def list_all_iff cast_by_def)
  have all: "approvals bs = int (length bs)" if "\<not> (\<exists>b \<in> set bs. fst (snd b) = ''rejected'')"
  proof -
    have "filter (\<lambda>b. fst (snd b) = ''approved'') bs = bs" using that cast by (fastforce simp: filter_id_conv)
    then show ?thesis by (simp add: approvals_def)
  qed
  have "ap_status (fold vote_step ops r0) =
       (if \<exists>b \<in> set bs. fst (snd b) = ''rejected'' then AS_REJECTED
        else if int (length bs) = required then AS_APPROVED else AS_WAITING)"
    using bs(2) all r0(4) by (cases "\<exists>b \<in> set bs. fst (snd b) = ''rejected''") (auto simp: voted_def tally_def)
  then show ?thesis
    using bs cast r0(4) by (intro exI [of _ bs]) (simp add: voted_def approvals_def)
qed

section \<open>Rebuilding\<close>

lemma aware_isoformat: "0 \<le> t \<Longrightarrow> t < time_max \<Longrightarrow> aware_expires_at (PStr (isoformat t)) = Inr t"
  by (simp add: aware_expires_at_def fromisoformat_isoformat)

lemma isoformat_nonempty: "isoformat t \<noteq> []"
  by (simp add: isoformat_def Let_def split: prod.split)

definition times_ok :: "approval_record \<Rightarrow> bool" where
  \<comment> \<open>the instants are ones \<open>datetime\<close> has\<close>
  "times_ok r \<longleftrightarrow> 0 \<le> ap_expires_at r \<and> ap_expires_at r < time_max \<and>
     (case ap_escalation_at r of None \<Rightarrow> True | Some t \<Rightarrow> 0 \<le> t \<and> t < time_max)"

lemma requested_record_payload:
  assumes "times_ok r" "1 \<le> ap_required_approvals r" "ap_decision r = PNone" "ap_feedback r = PNone"
    and "ce_payload e = as_event_payload r" "ce_tenant_id e = ap_tenant_id r" "ce_session_id e = ap_session_id r"
    and "ap_run_id r \<noteq> []"
  shows "requested_record (ap_approval_id r) e = Inr r"
proof -
  have esc: "opt_time (case ap_escalation_at r of None \<Rightarrow> PNone | Some t \<Rightarrow> PStr (isoformat t)) = Inr (ap_escalation_at r)"
    using assms(1) by (auto simp: opt_time_def py_bool_def times_ok_def isoformat_nonempty aware_isoformat split: option.split)
  have "run_of e = ap_run_id r"
    using assms(5,8) by (simp add: run_of_def as_event_payload_def dict_simps py_bool_def)
  then show ?thesis
    using assms esc
    by (simp add: requested_record_def as_event_payload_def dict_simps pget_or_def dget_def aware_isoformat times_ok_def)
qed

text \<open>
  C26: an approval request survives its event. The record that is rebuilt from the event
  \<open>approval.requested\<close> with the payload the request wrote is the request: times, quorum, approvers
  and escalation included.
\<close>

theorem approval_request_roundtrip:
  assumes "approval_request tenant session run digest tool args risk reason effect policy assigned required
     escalation ttl now fresh = Inr r"
    and "0 \<le> now" "now + ttl < time_max" "run \<noteq> []"
    and "ce_type e = ''approval.requested''" "ce_payload e = as_event_payload r"
    and "ce_tenant_id e = tenant" "ce_session_id e = session"
  shows "approval_from_events [e] tenant session (ap_approval_id r) = Inr (Some r)"
proof -
  have r: "times_ok r" "1 \<le> ap_required_approvals r" "ap_decision r = PNone" "ap_feedback r = PNone"
    "ap_tenant_id r = tenant" "ap_session_id r = session" "ap_run_id r = run"
    using assms(1-3) by (auto simp: approval_request_def times_ok_def split: option.splits)
  have "py_str (pget_or (ce_payload e) ''approval_id'' (PStr [])) = ap_approval_id r"
    using assms(6) by (simp add: as_event_payload_def pget_or_def dget_def)
  then show ?thesis
    using requested_record_payload [OF r(1-4) assms(6)] r assms
    by (simp add: approval_from_events_def approval_event_def)
qed

section \<open>Digests\<close>

lemma isoformat_us_inject:
  "0 \<le> t \<Longrightarrow> t < time_max \<Longrightarrow> 0 \<le> u \<Longrightarrow> u < time_max \<Longrightarrow> isoformat_us t = isoformat_us u \<longleftrightarrow> t = u"
  by (metis fromisoformat_isoformat(2) option.inject prod.inject)

lemma request_identity_text:
  "request_identity tenant approval session run digest policy expires_at =
     ''{'' @ json_string False ''action_digest'' @ '':'' @ json_string False digest @ '','' @
     json_string False ''approval_id'' @ '':'' @ json_string False approval @ '','' @
     json_string False ''expires_at'' @ '':'' @ json_string False (isoformat_us expires_at) @ '','' @
     json_string False ''policy_version'' @ '':'' @ json_string False policy @ '','' @
     json_string False ''run_id'' @ '':'' @ json_string False run @ '','' @
     json_string False ''session_id'' @ '':'' @ json_string False session @ '','' @
     json_string False ''tenant_id'' @ '':'' @ json_string False tenant @ ''}''"
  by (simp add: request_identity_def json_compact_def)

text \<open>
  C27: the request digest determines the request it is the digest of. Two requests that differ in tenant,
  approval, Session, Run, action digest, policy version or expiry are hashed from different texts.
\<close>

theorem request_digest_binds:
  assumes "0 \<le> t" "t < time_max" "0 \<le> t'" "t' < time_max"
  shows "request_identity tenant approval session run digest policy t =
         request_identity tenant' approval' session' run' digest' policy' t' \<longleftrightarrow>
     (tenant, approval, session, run, digest, policy, t) = (tenant', approval', session', run', digest', policy', t')"
  unfolding request_identity_text using isoformat_us_inject [OF assms]
  by (auto simp: json_string_inject json_string_inject [of _ _ "[]" _ "[]", simplified])

section \<open>A vote and its event\<close>

lemma py_eq_PStr [simp]: "py_eq (PStr s) b \<longleftrightarrow> b = PStr s"
  by simp

lemma response_fields:
  "pget (response_payload i a d f) ''actor_id'' = PStr a" "pget (response_payload i a d f) ''decision'' = PStr d"
  "pget (response_payload i a d f) ''feedback'' = opt_str f" "pget_or (response_payload i a d f) ''approval_id'' x = PStr i"
  "pitem (response_payload i a d f) ''actor_id'' = Inr (PStr a)" "pitem (response_payload i a d f) ''decision'' = Inr (PStr d)"
  "pget_or (response_payload i a d f) ''decision'' x = PStr d"
  by (simp_all add: response_payload_def dict_simps pget_or_def dget_def)

definition vote_event :: "string \<Rightarrow> string \<Rightarrow> string \<Rightarrow> string option \<Rightarrow> bool \<Rightarrow> approval_record \<Rightarrow> canonical_event \<Rightarrow> bool" where
  \<comment> \<open>the event a Session stores for a vote\<close>
  "vote_event i actor decision feedback terminal r e \<longleftrightarrow>
     ce_tenant_id e = ap_tenant_id r \<and> ce_session_id e = ap_session_id r \<and>
     ce_type e = (if terminal then ''approval.'' @ decision else ''approval.vote.recorded'') \<and>
     ce_payload e = response_payload i actor decision feedback"

text \<open>
  C25: a vote and the event stored for it agree. The record rebuilt after the event is the one the vote
  returned, with the time of the event as the time of the vote.
\<close>

theorem vote_survives_its_event:
  assumes "approval_from_events events tenant session i = Inr (Some r)"
    and "approval_vote r actor decision feedback now = Inr (r', terminal)"
    and "ap_votes r = map vote_of bs" "ap_allowed_decisions r = [PStr ''approved'', PStr ''rejected'']"
    and "ap_decision r = PNone" "ap_feedback r = PNone" "ap_status r = AS_WAITING"
    and "vote_event i actor decision feedback terminal r e" "ap_tenant_id r = tenant" "ap_session_id r = session"
  shows "approval_from_events (events @ [e]) tenant session i =
     Inr (Some (r'\<lparr>ap_votes := map vote_of (bs @ [(actor, decision, feedback, ce_occurred_at e)])\<rparr>))"
proof -
  note ok = approval_vote_ok [OF assms(2,3)]
  have d: "decision = ''approved'' \<or> decision = ''rejected''"
    using ok(2) assms(4) by (auto simp: cast_by_def)
  have voted: "voted_by actor (ap_votes r) = Inr False"
    using ok(3) by (simp add: assms(3) voted_by_ballots)
  have b: "ap_votes r @ [recorded_vote actor decision (opt_str feedback) (ce_occurred_at e)] =
      map vote_of (bs @ [(actor, decision, feedback, ce_occurred_at e)])"
    by (simp add: assms(3) vote_of_def)
  have "approval_event tenant session i (Some r) e =
     Inr (Some (r'\<lparr>ap_votes := map vote_of (bs @ [(actor, decision, feedback, ce_occurred_at e)])\<rparr>))"
  proof (cases terminal)
    case False
    then have rv: "r'\<lparr>ap_votes := v\<rparr> = r\<lparr>ap_votes := v\<rparr>" for v
      using ok(4,5) assms(5-7) by (cases r) auto
    from False show ?thesis
      using assms(8-10) b unfolding rv
      by (simp add: approval_event_def vote_event_def response_fields apply_vote_def)
  next
    case True
    let ?st = "if decision = ''rejected'' then AS_REJECTED else AS_APPROVED"
    have ty: "ce_type e = ''approval.'' @ decision" "ce_payload e = response_payload i actor decision feedback"
      using True assms(8) by (simp_all add: vote_event_def)
    have st: "approval_status_of decision = Inr ?st" using d by (auto simp: approval_status_of_def enum_of_def)
    have branch: "ce_type e \<noteq> ''approval.requested''" "ce_type e \<noteq> ''approval.vote.recorded''"
      "ce_type e \<noteq> ''approval.delegated''" "ce_type e \<noteq> ''approval.escalated''" "prefix ''approval.'' (ce_type e)"
      using d unfolding ty by auto
    have "apply_decided e r = Inr (r\<lparr>ap_status := ?st, ap_votes := ap_votes r @
        [recorded_vote actor decision (opt_str feedback) (ce_occurred_at e)], ap_decision := PStr decision,
        ap_feedback := opt_str feedback\<rparr>)"
      unfolding apply_decided_def ty Let_def by (simp add: response_fields st voted)
    also have "\<dots> = Inr (r'\<lparr>ap_votes := map vote_of (bs @ [(actor, decision, feedback, ce_occurred_at e)])\<rparr>)"
      unfolding b using ok(5) True d by (cases r) auto
    finally show ?thesis
      using branch assms(8-10) by (simp add: approval_event_def vote_event_def response_fields)
  qed
  then show ?thesis
    using assms(1) by (simp add: approval_from_events_def rfold_append)
qed

section \<open>Concrete approvals\<close>

definition sample_request :: "approval_record result" where
  "sample_request = approval_request ''t1'' ''s1'' ''r1'' ''digest'' ''tool'' [] RL_HIGH ''why'' ''effect'' ''p1''
     [''ann'', ''bob'', ''eve''] 2 (Some (seconds 60)) (seconds 3600) 5 ''x''"

definition sample_record :: approval_record where
  "sample_record =
     \<lparr>ap_approval_id = ''apr_x'', ap_tenant_id = ''t1'', ap_session_id = ''s1'', ap_run_id = ''r1'',
      ap_action_digest = ''digest'', ap_tool_name = ''tool'', ap_redacted_arguments = [], ap_risk = RL_HIGH,
      ap_reason = ''why'', ap_expected_effect = ''effect'',
      ap_allowed_decisions = [PStr ''approved'', PStr ''rejected''],
      ap_assigned_approvers = [PStr ''ann'', PStr ''bob'', PStr ''eve''], ap_policy_version = ''p1'',
      ap_expires_at = 5 + seconds 3600, ap_required_approvals = 2, ap_votes = [],
      ap_escalation_at = Some (5 + seconds 60), ap_escalation_level = 0, ap_status = AS_WAITING,
      ap_decision = PNone, ap_feedback = PNone\<rparr>"

lemma sample_request_record:
  "approval_request ''t1'' ''s1'' ''r1'' ''digest'' ''tool'' [] RL_HIGH ''why'' ''effect'' ''p1''
     [''ann'', ''bob'', ''eve''] 2 (Some (seconds 60)) (seconds 3600) 5 ''x'' = Inr sample_record"
  by code_simp

definition sample_ballots :: "ballot list" where
  "sample_ballots = [(''ann'', ''approved'', None, 6), (''ann'', ''approved'', None, 7), (''mallory'', ''approved'', None, 8),
     (''bob'', ''approved'', None, 9), (''eve'', ''rejected'', None, 10)]"

lemmas vote_simps = sample_record_def approval_vote_def raise_if_def voted_by_def recorded_vote_fields listed_def
  approved_count_def seconds_def

theorem quorum_decides_witness:
  "ap_status (fold vote_step sample_ballots sample_record) = AS_APPROVED \<and>
   (\<exists>bs. subseq bs sample_ballots \<and> distinct (map fst bs) \<and> int (length bs) = 2)"
proof -
  have s: "ap_status (fold vote_step sample_ballots sample_record) = AS_APPROVED"
    by (simp add: sample_ballots_def vote_simps)
  from quorum_decides [OF sample_request_record, of sample_ballots]
  obtain bs where "subseq bs sample_ballots" "distinct (map fst bs)"
    "ap_status (fold vote_step sample_ballots sample_record) =
       (if \<exists>b \<in> set bs. fst (snd b) = ''rejected'' then AS_REJECTED
        else if int (length bs) = 2 then AS_APPROVED else AS_WAITING)" by blast
  with s show ?thesis by (intro conjI exI [of _ bs]) (simp_all split: if_splits)
qed

definition sample_requested :: canonical_event where
  "sample_requested = sample_event ''s1'' (Some ''r1'') 1 ''approval.requested'' (as_event_payload sample_record)"

theorem approval_request_roundtrip_witness:
  "approval_from_events [sample_requested] ''t1'' ''s1'' ''apr_x'' = Inr (Some sample_record)"
proof -
  have "approval_from_events [sample_requested] ''t1'' ''s1'' (ap_approval_id sample_record) = Inr (Some sample_record)"
    by (rule approval_request_roundtrip [OF sample_request_record])
       (simp_all add: sample_requested_def sample_event_def seconds_def time_max_def)
  then show ?thesis by (simp add: sample_record_def)
qed

theorem vote_survives_its_event_witness:
  "approval_from_events ([sample_requested] @
       [sample_event ''s1'' (Some ''r1'') 2 ''approval.vote.recorded'' (response_payload ''apr_x'' ''ann'' ''approved'' None)])
     ''t1'' ''s1'' ''apr_x'' =
   Inr (Some ((vote_step (''ann'', ''approved'', None, 6) sample_record)
     \<lparr>ap_votes := map vote_of ([] @ [(''ann'', ''approved'', None, 2)])\<rparr>))"
proof -
  let ?e = "sample_event ''s1'' (Some ''r1'') 2 ''approval.vote.recorded'' (response_payload ''apr_x'' ''ann'' ''approved'' None)"
  have "requested_record (ap_approval_id sample_record) sample_requested = Inr sample_record"
    by (rule requested_record_payload)
       (simp_all add: sample_requested_def sample_event_def times_ok_def sample_record_def seconds_def time_max_def)
  then have r: "approval_from_events [sample_requested] ''t1'' ''s1'' ''apr_x'' = Inr (Some sample_record)"
    by (simp add: approval_from_events_def approval_event_def sample_requested_def sample_event_def sample_record_def
        as_event_payload_def pget_or_def dget_def)
  have v: "approval_vote sample_record ''ann'' ''approved'' None 6 =
      Inr (vote_step (''ann'', ''approved'', None, 6) sample_record, False)"
    by (simp add: vote_simps)
  have e: "vote_event ''apr_x'' ''ann'' ''approved'' None False sample_record ?e" "ce_occurred_at ?e = 2"
    by (simp_all add: vote_event_def sample_event_def sample_record_def)
  show ?thesis
    using vote_survives_its_event [OF r v, of "[]" ?e] e by (simp add: sample_record_def)
qed

theorem request_digest_binds_witness:
  "request_identity ''t'' ''a'' ''s'' ''r'' ''d'' ''p'' 7 \<noteq> request_identity ''t'' ''a'' ''s'' ''r'' ''d'' ''p'' 8"
  using request_digest_binds [of 7 8] by (simp add: time_max_def)

end
