(* ===== verification/Task_Service_Laws.thy ===== *)
theory Task_Service_Laws
  imports Task_Service Outbox_Relay Approval_Laws
begin

text \<open>
  What the task service guarantees. A Session it creates is a root Session and stays one; every stored
  snapshot was taken of a prefix of its stream (\<open>ts_inv\<close>), so loading from a snapshot is rebuilding from
  the whole stream. The locale \<open>task_ports\<close> states what the service relies on of its ports: the approval
  codec reads back what it writes, and the relay changes no stream, no command result and no snapshot. A
  call is shown to be one command of the aggregate (\<open>behaves\<close>), committed durably (\<open>committed\<close>); the
  service with the sweep for due approvals and the events of Runs is a machine that keeps \<open>ts_inv\<close>. The
  locale is interpreted on the relay of \<open>projection/relay.py\<close>.
\<close>

section \<open>Root Sessions stay root Sessions\<close>

definition root_ok :: "session_aggregate \<Rightarrow> bool" where
  "root_ok a \<longleftrightarrow> sa_root_session_id a = sa_session_id a"

lemma root_ok_updates [simp]:
  "root_ok (a\<lparr>sa_pending := ps\<rparr>) = root_ok a" "root_ok (a\<lparr>sa_version := v\<rparr>) = root_ok a"
  "root_ok (a\<lparr>sa_approval := c\<rparr>) = root_ok a"
  by (simp_all add: root_ok_def)

definition keeps_root :: "string \<Rightarrow> payload \<Rightarrow> session_aggregate \<Rightarrow> bool" where
  "keeps_root ty p a \<longleftrightarrow> (\<forall>c. rall root_ok (sa_apply_body ty p (a\<lparr>sa_approval := c\<rparr>)))"

lemma sa_apply_root:
  assumes "keeps_root ty p a" "sa_apply C ty p a = Inr b"
  shows "root_ok b"
proof -
  have k: "rall root_ok (sa_apply_body ty p (a\<lparr>sa_approval := c\<rparr>))" for c
    using assms(1) by (simp add: keeps_root_def)
  from k [of "sa_approval a"] have "rall root_ok (sa_apply_body ty p a)" by simp
  then show ?thesis
    using assms(2) k unfolding sa_apply_def by (auto split: if_splits dest: rallD)
qed

lemma sa_apply_body_root:
  assumes "ty \<noteq> ''session.created''" "ty \<noteq> ''child.created''"
  shows "rall (\<lambda>b. sa_root_session_id b = sa_root_session_id a \<and> sa_session_id b = sa_session_id a) (sa_apply_body ty p a)"
  unfolding sa_apply_body_def apply_branch_defs if_not_P [OF assms(1)] if_not_P [OF assms(2)]
  by (intro rall_if) simp_all

lemma keeps_root_other:
  assumes "root_ok a" "ty \<noteq> ''session.created''" "ty \<noteq> ''child.created''"
  shows "keeps_root ty p a"
  unfolding keeps_root_def
proof
  fix c
  show "rall root_ok (sa_apply_body ty p (a\<lparr>sa_approval := c\<rparr>))"
    using sa_apply_body_root [OF assms(2,3), of "a\<lparr>sa_approval := c\<rparr>" p] assms(1)
    by (cases "sa_apply_body ty p (a\<lparr>sa_approval := c\<rparr>)") (simp_all add: root_ok_def)
qed

lemma sa_raise_keeps_root: "keeps_root ty p a \<Longrightarrow> sa_raise C ty p a = Inr b \<Longrightarrow> root_ok b"
  by (auto simp: sa_raise_def dest: sa_apply_root)

lemma sa_raise_root:
  "root_ok a \<Longrightarrow> ty \<noteq> ''session.created'' \<Longrightarrow> ty \<noteq> ''child.created'' \<Longrightarrow> sa_raise C ty p a = Inr b \<Longrightarrow> root_ok b"
  by (rule sa_raise_keeps_root [OF keeps_root_other])

lemma sa_raise_created_root:
  assumes "root_ok a" "sa_raise C ''session.created'' (created_payload C r a) a = Inr b"
  shows "root_ok b"
proof -
  have "keeps_root ''session.created'' (created_payload C r a) a"
    by (auto simp: keeps_root_def apply_session_created_def created_payload_def pitem_def root_ok_def)
  then show ?thesis using assms(2) by (rule sa_raise_keeps_root)
qed

lemma raise_root:
  assumes "root_ok a"
  shows "sa_raise C ''run.cancelled'' p a = Inr b \<Longrightarrow> root_ok b" "sa_raise C ''run.requested'' p a = Inr b \<Longrightarrow> root_ok b"
    "sa_raise C ''user.message.appended'' p a = Inr b \<Longrightarrow> root_ok b" "sa_raise C ''session.closed'' p a = Inr b \<Longrightarrow> root_ok b"
    "sa_raise C ''session.resumed'' p a = Inr b \<Longrightarrow> root_ok b" "sa_raise C ''approval.delegated'' p a = Inr b \<Longrightarrow> root_ok b"
    "sa_raise C ''approval.escalated'' p a = Inr b \<Longrightarrow> root_ok b" "sa_raise C ''approval.expired'' p a = Inr b \<Longrightarrow> root_ok b"
    "sa_raise C ''session.approval_mode_changed'' p a = Inr b \<Longrightarrow> root_ok b"
    "sa_raise C ''human.response.recorded'' p a = Inr b \<Longrightarrow> root_ok b"
    "sa_raise C (''approval.'' @ d) p a = Inr b \<Longrightarrow> root_ok b" "sa_raise C ''approval.vote.recorded'' p a = Inr b \<Longrightarrow> root_ok b"
  by (rule sa_raise_root [OF assms]; simp)+

lemma sa_command_root:
  assumes "root_ok a" "sa_command C c a = Inr b"
  shows "root_ok b"
proof (cases c)
  case (Create r)
  let ?a = "a\<lparr>sa_dept_id := cr_dept_id r,
    sa_skill_names := fromkeys (case cr_skill_names r of None \<Rightarrow> [] | Some xs \<Rightarrow> xs),
    sa_approval := (case cr_approval r of None \<Rightarrow> default_approval | Some c \<Rightarrow> c)\<rparr>"
  have "root_ok ?a" using assms(1) by (simp add: root_ok_def)
  moreover obtain a2 p where "sa_raise C ''session.created'' (created_payload C r ?a) ?a = Inr a2"
    "sa_raise C ''run.requested'' p a2 = Inr b"
    using assms(2) Create by (auto simp: sa_create_def Let_def)
  ultimately show ?thesis using sa_raise_created_root raise_root(2) by blast
next
  case (Request_run rid mode cid fp bu r)
  then obtain a1 p where "a1 = a \<or> sa_raise C ''session.approval_mode_changed'' [(''approval'', ac_dump C (changed_approval mode a))] a = Inr a1"
    "sa_raise C ''run.requested'' p a1 = Inr b"
    using assms(2) by (auto simp: sa_command_defs split: if_splits)
  then show ?thesis using assms(1) raise_root(2,9) by blast
next
  case (Human_response i ac d f t)
  then obtain a1 p where "sa_raise C ''human.response.recorded'' p a = Inr a1"
    "sa_raise C (''approval.'' @ (if t then d else ''vote.recorded'')) p a1 = Inr b"
    using assms(2) by (cases t) (auto simp: sa_command_defs Let_def)
  then show ?thesis using assms(1) raise_root(10,11) by blast
qed (use assms(2) in \<open>auto simp: sa_command_defs dest: raise_root [OF assms(1)]\<close>)

section \<open>Streams and snapshots\<close>

lemma contiguous_versions:
  "contiguous_from v es \<Longrightarrow> e \<in> set es \<Longrightarrow> v < ce_version e \<and> ce_version e \<le> v + int (length es)"
  by (induction es arbitrary: v) (force simp: contiguous_from_Cons)+

lemma load_tail:
  assumes "contiguous_from 0 es" "k \<le> length es"
  shows "filter (\<lambda>e. int k + 1 \<le> ce_version e) es = drop k es"
proof -
  have c: "contiguous_from 0 (take k es)" "contiguous_from (int k) (drop k es)"
    using assms contiguous_from_append [of 0 "take k es" "drop k es"] by simp_all
  have "filter (\<lambda>e. int k + 1 \<le> ce_version e) (take k es) = []"
    using contiguous_versions [OF c(1)] assms(2) by (force simp: filter_empty_conv)
  moreover have "filter (\<lambda>e. int k + 1 \<le> ce_version e) (drop k es) = drop k es"
    using contiguous_versions [OF c(2)] by (force simp: filter_id_conv)
  ultimately show ?thesis
    by (metis append_Nil append_take_drop_id filter_append)
qed

lemma rebuilt_version:
  assumes "rebuilt C sid tid es a" "contiguous_from 0 es"
  shows "sa_version a = int (length es)"
proof (cases es rule: rev_cases)
  case Nil
  then show ?thesis using assms(1) by (simp add: rebuilt_def sa_empty_def)
next
  case (snoc xs e)
  have "ce_version e = int (length es)"
    using assms(2) snoc by (simp add: contiguous_from_append contiguous_from_Cons)
  then show ?thesis
    using rebuilt_rfold [OF assms(1)] snoc by (auto simp: rfold_append apply_canonical_def)
qed

lemma rebuilt_ids:
  assumes "rebuilt C sid tid es a"
  shows "sa_session_id a = sid \<and> sa_tenant_id a = tid"
  by (rule rfold_invariant [OF rebuilt_rfold [OF assms], where P = "\<lambda>a. sa_session_id a = sid \<and> sa_tenant_id a = tid"])
     (auto simp: sa_empty_def apply_canonical_def dest!: sa_apply_frame)

definition snapshot_of :: "approval_codec \<Rightarrow> string \<Rightarrow> string \<Rightarrow> canonical_event list \<Rightarrow> session_snapshot \<Rightarrow> bool" where
  \<comment> \<open>the snapshot was taken of the aggregate that a prefix of the stream rebuilds\<close>
  "snapshot_of C tid sid es n \<longleftrightarrow>
     (\<exists>k b. 0 < k \<and> k \<le> length es \<and> sn_aggregate_version n = int k \<and> rebuilt C sid tid (take k es) b \<and>
        lifecycle_ok b \<and> sa_status b \<noteq> None \<and> sa_snapshot_state C b = Inr (sn_state n))"

definition session_ok :: "approval_codec \<Rightarrow> event_store \<Rightarrow> string \<Rightarrow> string \<Rightarrow> bool" where
  "session_ok C s tid sid \<longleftrightarrow>
     (stream_of s tid sid \<noteq> [] \<longrightarrow>
        (\<exists>a. rebuilt C sid tid (stream_of s tid sid) a \<and> lifecycle_ok a \<and> root_ok a \<and> sa_status a \<noteq> None)) \<and>
     (\<forall>n. es_get_snapshot s tid sid = Some n \<longrightarrow> snapshot_of C tid sid (stream_of s tid sid) n)"

definition ts_inv :: "approval_codec \<Rightarrow> event_store \<Rightarrow> bool" where
  "ts_inv C s \<longleftrightarrow> es_inv s \<and> (\<forall>tid sid. session_ok C s tid sid)"

lemma es_inv_stream:
  assumes "es_inv s"
  shows "contiguous_from 0 (stream_of s tid sid)"
    "\<forall>e \<in> set (stream_of s tid sid). ce_session_id e = sid \<and> ce_tenant_id e = tid"
proof -
  have "stream_ok (tid, sid) (stream_of s tid sid)"
    using assms unfolding es_inv_def stream_of_def by blast
  then show "contiguous_from 0 (stream_of s tid sid)"
    "\<forall>e \<in> set (stream_of s tid sid). ce_session_id e = sid \<and> ce_tenant_id e = tid"
    by (auto simp: stream_ok_def list_all_iff of_stream_def)
qed

lemma ts_load_stream:
  assumes "codec_ok (pt_codec P)" "ts_inv (pt_codec P) s"
  shows "ts_load P s tid sid =
    (if stream_of s tid sid = [] then Inl (NotFoundError (''Session not found: '' @ sid))
     else sa_from_events (pt_codec P) (stream_of s tid sid))"
proof -
  let ?C = "pt_codec P" and ?es = "stream_of s tid sid"
  have ok: "session_ok ?C s tid sid" and inv: "es_inv s" using assms(2) by (auto simp: ts_inv_def)
  note st = es_inv_stream [OF inv, of tid sid]
  show ?thesis
  proof (cases "es_get_snapshot s tid sid")
    case None
    have "es_load s tid sid 1 None None = ?es"
      using load_tail [OF st(1), of 0] by (simp add: es_load_def slice_to_def type_allowed_def)
    then show ?thesis using None by (simp add: ts_load_def)
  next
    case (Some n)
    then obtain k b where k: "0 < k" "k \<le> length ?es" "sn_aggregate_version n = int k"
      and b: "rebuilt ?C sid tid (take k ?es) b" "lifecycle_ok b" "sa_status b \<noteq> None"
        "sa_snapshot_state ?C b = Inr (sn_state n)"
      using ok by (auto simp: session_ok_def snapshot_of_def)
    have load: "es_load s tid sid (int k + 1) None None = drop k ?es"
      using load_tail [OF st(1) k(2)] by (simp add: es_load_def slice_to_def type_allowed_def)
    have c: "contiguous_from 0 (take k ?es)" "contiguous_from (int k) (drop k ?es)"
      using st(1) k(2) contiguous_from_append [of 0 "take k ?es" "drop k ?es"] by simp_all
    have v: "sa_version b = int k" using rebuilt_version [OF b(1) c(1)] k(2) by simp
    have "rbind (sa_snapshot_state ?C b) (\<lambda>st. rbind (sa_from_snapshot ?C st (sa_version b)) (sa_replay ?C (drop k ?es))) =
        sa_from_events ?C (take k ?es @ drop k ?es)"
      using st(2) by (intro snapshot_and_tail [OF assms(1) b(1-3)]) (auto simp: v c(2) dest: in_set_dropD)
    then show ?thesis using Some k b(4) load by (auto simp: ts_load_def v)
  qed
qed

lemma ts_load_rebuilt:
  assumes "codec_ok (pt_codec P)" "ts_inv (pt_codec P) s" "ts_load P s tid sid = Inr a"
  shows "rebuilt (pt_codec P) sid tid (stream_of s tid sid) a" "lifecycle_ok a" "root_ok a" "sa_status a \<noteq> None"
    "stream_of s tid sid \<noteq> []"
proof -
  show ne: "stream_of s tid sid \<noteq> []" using assms by (auto simp: ts_load_stream)
  have built: "sa_from_events (pt_codec P) (stream_of s tid sid) = Inr a"
    using assms(3) ne by (simp add: ts_load_stream [OF assms(1,2)])
  obtain b where b: "rebuilt (pt_codec P) sid tid (stream_of s tid sid) b" "lifecycle_ok b" "root_ok b" "sa_status b \<noteq> None"
    using assms(2) ne unfolding ts_inv_def session_ok_def by blast
  have "b = a" using b(1) ne built by (simp add: rebuilt_def)
  then show "rebuilt (pt_codec P) sid tid (stream_of s tid sid) a" "lifecycle_ok a" "root_ok a" "sa_status a \<noteq> None"
    using b by simp_all
qed

definition no_child :: "session_aggregate \<Rightarrow> bool" where
  "no_child a \<longleftrightarrow> (\<forall>e \<in> set (sa_pending a). ne_type e \<noteq> ''child.created'')"

lemma sa_raise_pending:
  "sa_raise C ty p a = Inr b \<Longrightarrow> sa_pending b = sa_pending a @ [\<lparr>ne_type = ty, ne_payload = p, ne_visibility = V_USER\<rparr>]"
  by (auto simp: sa_raise_def dest: sa_apply_frame)

lemma sa_raise_no_child: "sa_raise C ty p a = Inr b \<Longrightarrow> ty \<noteq> ''child.created'' \<Longrightarrow> no_child b \<longleftrightarrow> no_child a"
  by (auto simp: no_child_def dest!: sa_raise_pending)

lemma raise_no_child:
  "sa_raise C ''run.cancelled'' p a = Inr b \<Longrightarrow> no_child b \<longleftrightarrow> no_child a" "sa_raise C ''run.requested'' p a = Inr b \<Longrightarrow> no_child b \<longleftrightarrow> no_child a"
  "sa_raise C ''user.message.appended'' p a = Inr b \<Longrightarrow> no_child b \<longleftrightarrow> no_child a" "sa_raise C ''session.closed'' p a = Inr b \<Longrightarrow> no_child b \<longleftrightarrow> no_child a"
  "sa_raise C ''session.resumed'' p a = Inr b \<Longrightarrow> no_child b \<longleftrightarrow> no_child a" "sa_raise C ''approval.delegated'' p a = Inr b \<Longrightarrow> no_child b \<longleftrightarrow> no_child a"
  "sa_raise C ''approval.escalated'' p a = Inr b \<Longrightarrow> no_child b \<longleftrightarrow> no_child a" "sa_raise C ''approval.expired'' p a = Inr b \<Longrightarrow> no_child b \<longleftrightarrow> no_child a"
  "sa_raise C ''session.approval_mode_changed'' p a = Inr b \<Longrightarrow> no_child b \<longleftrightarrow> no_child a"
  "sa_raise C ''human.response.recorded'' p a = Inr b \<Longrightarrow> no_child b \<longleftrightarrow> no_child a"
  "sa_raise C (''approval.'' @ d) p a = Inr b \<Longrightarrow> no_child b \<longleftrightarrow> no_child a" "sa_raise C ''session.created'' p a = Inr b \<Longrightarrow> no_child b \<longleftrightarrow> no_child a"
  by (erule sa_raise_no_child; simp)+

lemma sa_command_no_child:
  assumes "no_child a" "sa_command C c a = Inr b"
  shows "no_child b"
proof (cases c)
  case (Create r)
  let ?a = "a\<lparr>sa_dept_id := cr_dept_id r,
    sa_skill_names := fromkeys (case cr_skill_names r of None \<Rightarrow> [] | Some xs \<Rightarrow> xs),
    sa_approval := (case cr_approval r of None \<Rightarrow> default_approval | Some c \<Rightarrow> c)\<rparr>"
  have "no_child ?a" using assms(1) by (simp add: no_child_def)
  moreover obtain a2 p q where "sa_raise C ''session.created'' q ?a = Inr a2" "sa_raise C ''run.requested'' p a2 = Inr b"
    using assms(2) Create by (auto simp: sa_create_def Let_def)
  ultimately show ?thesis using raise_no_child(2,12) by blast
next
  case (Request_run rid mode cid fp bu r)
  then obtain a1 p where "a1 = a \<or> sa_raise C ''session.approval_mode_changed'' [(''approval'', ac_dump C (changed_approval mode a))] a = Inr a1"
    "sa_raise C ''run.requested'' p a1 = Inr b"
    using assms(2) by (auto simp: sa_command_defs split: if_splits)
  then show ?thesis using assms(1) raise_no_child(2,9) by blast
next
  case (Human_response i ac d f t)
  then obtain a1 p where "sa_raise C ''human.response.recorded'' p a = Inr a1"
    "sa_raise C (''approval.'' @ (if t then d else ''vote.recorded'')) p a1 = Inr b"
    using assms(2) by (cases t) (auto simp: sa_command_defs Let_def)
  then show ?thesis using assms(1) raise_no_child(10,11) by blast
qed (use assms in \<open>auto simp: sa_command_defs dest: raise_no_child\<close>)

lemma sa_command_ids:
  assumes "sa_command C c a = Inr b"
  shows "sa_session_id b = sa_session_id a \<and> sa_tenant_id b = sa_tenant_id a"
proof -
  obtain evs where "rfold (apply_new C) evs a = Inr (b\<lparr>sa_pending := sa_pending a\<rparr>)"
    using raises_command [OF assms] by (auto simp: raises_def)
  then have "sa_session_id (b\<lparr>sa_pending := sa_pending a\<rparr>) = sa_session_id a \<and>
      sa_tenant_id (b\<lparr>sa_pending := sa_pending a\<rparr>) = sa_tenant_id a"
    by (rule rfold_invariant) (auto simp: apply_new_def dest!: sa_apply_frame)
  then show ?thesis by simp
qed

lemma govern_root:
  assumes "\<forall>e \<in> set evs. ne_type e \<noteq> ''child.created''" "govern existing evs sid sid run = Inr governed"
  shows "governed = evs"
proof -
  have "find (\<lambda>e. ne_type e = ''child.created'') evs = None"
    using assms(1) by (simp add: find_None_iff)
  then have "governed_child existing evs sid sid = None" by (simp add: governed_child_def)
  then show ?thesis using assms(2) by (auto simp: govern_def Let_def split: if_splits)
qed

section \<open>Committing a command\<close>

definition relay_ok :: "('p world \<Rightarrow> 'p world) \<Rightarrow> bool" where
  \<comment> \<open>the relay changes no stream, no command result and no snapshot\<close>
  "relay_ok f \<longleftrightarrow> (\<forall>w. same_log (w_store w) (w_store (f w)))"

lemma same_log_stream: "same_log s s' \<Longrightarrow> stream_of s' tid sid = stream_of s tid sid"
  by (simp add: same_log_def stream_of_def)

lemma session_ok_streams:
  "stream_of s' tid sid = stream_of s tid sid \<Longrightarrow> es_get_snapshot s' tid sid = es_get_snapshot s tid sid \<Longrightarrow>
   session_ok C s' tid sid = session_ok C s tid sid"
  by (simp add: session_ok_def)

lemma ts_inv_same_log:
  assumes "same_log s s'" "ts_inv C s"
  shows "ts_inv C s'"
proof -
  have "es_inv (s\<lparr>es_outbox := es_outbox s'\<rparr>)"
    using assms by (intro es_inv_outbox) (auto simp: ts_inv_def same_log_def)
  then have "es_inv s'" using assms(1) by (simp add: same_log_def es_inv_def)
  moreover have "session_ok C s' tid sid" for tid sid
  proof -
    have "es_get_snapshot s' tid sid = es_get_snapshot s tid sid"
      using assms(1) by (simp add: same_log_def es_get_snapshot_def)
    from session_ok_streams [OF same_log_stream [OF assms(1)] this] show ?thesis
      using assms(2) by (simp add: ts_inv_def)
  qed
  ultimately show ?thesis by (simp add: ts_inv_def)
qed

lemma snapshot_of_extend: "snapshot_of C tid sid es n \<Longrightarrow> snapshot_of C tid sid (es @ es') n"
  unfolding snapshot_of_def by (elim exE conjE, rule exI, rule exI) auto

lemma commit_fields [simp]:
  "es_streams (commit c cr st s) = es_streams s" "es_snapshots (commit c cr st s) = es_snapshots s"
  by (simp_all add: commit_def)

lemma save_snapshot_fields [simp]:
  "stream_of (es_save_snapshot n s) tid sid = stream_of s tid sid"
  by (simp add: es_save_snapshot_def Let_def stream_of_def split: option.split)

lemma save_snapshot_get:
  "es_get_snapshot (es_save_snapshot n s) tid sid = Some m \<Longrightarrow>
   m = n \<and> (tid, sid) = (sn_tenant_id n, sn_session_id n) \<or> es_get_snapshot s tid sid = Some m"
  by (auto simp: es_save_snapshot_def es_get_snapshot_def Let_def dict_simps split: option.splits if_splits)

lemma ts_inv_save_snapshot:
  assumes "ts_inv C s" "snapshot_of C (sn_tenant_id n) (sn_session_id n) (stream_of s (sn_tenant_id n) (sn_session_id n)) n"
  shows "ts_inv C (es_save_snapshot n s)"
proof -
  have "es_inv (es_save_snapshot n s)" using es_step_inv [of s "Save_snapshot n"] assms(1) by (simp add: ts_inv_def)
  moreover have "session_ok C (es_save_snapshot n s) tid sid" for tid sid
  proof -
    have "session_ok C s tid sid" using assms(1) by (simp add: ts_inv_def)
    then show ?thesis using assms(2) by (auto simp: session_ok_def dest!: save_snapshot_get)
  qed
  ultimately show ?thesis by (simp add: ts_inv_def)
qed

lemma ts_inv_append:
  assumes "ts_inv C s" "es_inv s'" "es_snapshots s' = es_snapshots s"
    and "\<And>t i. stream_of s' t i = (if (t, i) = (tid, sid) then stream_of s tid sid @ ces else stream_of s t i)"
    and "rebuilt C sid tid (stream_of s tid sid @ ces) b" "lifecycle_ok b" "root_ok b" "sa_status b \<noteq> None"
  shows "ts_inv C s'"
proof -
  have "session_ok C s' t i" for t i
  proof -
    have ok: "session_ok C s t i" using assms(1) by (simp add: ts_inv_def)
    show ?thesis
    proof (cases "(t, i) = (tid, sid)")
      case True
      then show ?thesis
        using ok assms(3-8) snapshot_of_extend by (fastforce simp: session_ok_def es_get_snapshot_def)
    next
      case False
      have "stream_of s' t i = stream_of s t i" "es_get_snapshot s' t i = es_get_snapshot s t i"
        using False assms(3,4) by (auto simp: es_get_snapshot_def)
      then show ?thesis using ok session_ok_streams by blast
    qed
  qed
  then show ?thesis using assms(2) by (simp add: ts_inv_def)
qed

lemma sa_apply_body_exists:
  "sa_status a \<noteq> None \<Longrightarrow> rall (\<lambda>b. sa_status b \<noteq> None) (sa_apply_body ty p a)"
  unfolding sa_apply_body_def apply_branch_defs root_or_def by (intro rall_if) simp_all

lemma sa_apply_exists:
  assumes "sa_apply C ty p a = Inr b" "sa_status a \<noteq> None"
  shows "sa_status b \<noteq> None"
proof -
  obtain c where "sa_apply_body ty p (a\<lparr>sa_approval := c\<rparr>) = Inr b"
    using assms(1) unfolding sa_apply_def
    by (cases "phas p ''approval'' \<and> ty \<in> set APPROVAL_CARRIERS") (auto intro: that [of "sa_approval a"])
  with sa_apply_body_exists [of "a\<lparr>sa_approval := c\<rparr>" ty p] assms(2) show ?thesis by simp
qed

lemma raises_exists: "raises C a evs b \<Longrightarrow> sa_status a \<noteq> None \<Longrightarrow> sa_status b \<noteq> None"
proof -
  assume r: "raises C a evs b" and s: "sa_status a \<noteq> None"
  have "rfold (apply_new C) evs a = Inr (b\<lparr>sa_pending := sa_pending a\<rparr>)" using r by (simp add: raises_def)
  then have "sa_status (b\<lparr>sa_pending := sa_pending a\<rparr>) \<noteq> None"
    by (rule rfold_invariant) (use s in \<open>auto simp: apply_new_def dest: sa_apply_exists\<close>)
  then show ?thesis by simp
qed

lemma sa_command_exists:
  assumes "sa_command C c a = Inr b"
  shows "sa_status b \<noteq> None"
proof (cases "\<exists>r. c = Create r")
  case True
  then obtain r a1 a2 p where "sa_raise C ''session.created'' (created_payload C r a1) a1 = Inr a2"
    "sa_raise C ''run.requested'' p a2 = Inr b"
    using assms by (auto simp: sa_create_def Let_def)
  moreover from this(1) have "sa_status a2 \<noteq> None"
    by (auto simp: sa_raise_def sa_apply_def apply_session_created_def split: if_splits)
  ultimately show ?thesis using raises_exists [OF raises_step] by blast
next
  case False
  then have "sa_status a \<noteq> None" using assms by (cases c) (auto simp: sa_command_defs)
  then show ?thesis using raises_command [OF assms] raises_exists by blast
qed

lemma store_events_stored_as:
  assumes "cc_expected_version c = sa_version a"
  shows "stored_as a evs (store_events c root_sid sid run (cc_expected_version c) stamp n evs)"
  using store_events_contiguous [of "sa_version a" c root_sid sid run stamp n evs]
  by (simp add: stored_as_def store_events_types contiguous_from_def assms)

lemma last_version:
  "contiguous_from v ces \<Longrightarrow> ces \<noteq> [] \<Longrightarrow> ce_version (last ces) = v + int (length ces)"
  by (cases ces rule: rev_cases) (auto simp: contiguous_from_append contiguous_from_Cons)

lemma stored_as_contiguous: "stored_as a evs ces \<Longrightarrow> contiguous_from (sa_version a) ces"
  by (auto simp: stored_as_def contiguous_from_def dest: map_eq_imp_length_eq)

lemma command_raises: "sa_command C c a = Inr b \<Longrightarrow> sa_pending b \<noteq> []"
  by (cases c) (auto simp: sa_create_def sa_command_defs Let_def split: if_splits dest!: sa_raise_pending)

definition committed ::
  "approval_codec \<Rightarrow> command_context \<Rightarrow> string \<Rightarrow> nat \<Rightarrow> session_aggregate \<Rightarrow> session_aggregate \<Rightarrow> event_store \<Rightarrow> event_store \<Rightarrow> append_result result \<Rightarrow> bool" where
  \<comment> \<open>what an append leaves: nothing new, or \<open>n\<close> events after which the stream rebuilds \<open>b\<close>\<close>
  "committed C ctx sid n a b s s' r \<longleftrightarrow> ts_inv C s' \<and>
     ((\<forall>t i. stream_of s' t i = stream_of s t i) \<and>
        (\<forall>res. r = Inr res \<longrightarrow> ar_deduplicated res \<and> map_of (es_commands s) (command_key ctx) \<noteq> None) \<or>
      (\<exists>res. r = Inr res \<and> \<not> ar_deduplicated res \<and> ar_events res \<noteq> [] \<and> length (ar_events res) = n \<and>
         ce_version (last (ar_events res)) = sa_version a + int n \<and>
         (\<forall>t i. stream_of s' t i = (if (t, i) = (cc_tenant_id ctx, sid) then stream_of s t i @ ar_events res else stream_of s t i)) \<and>
         rebuilt C sid (cc_tenant_id ctx) (stream_of s' (cc_tenant_id ctx) sid)
           (b\<lparr>sa_version := sa_version a + int n\<rparr>)))"

lemma append_sound:
  assumes inv: "ts_inv C s"
    and a: "rebuilt C sid (cc_tenant_id ctx) (stream_of s (cc_tenant_id ctx) sid) a"
    and nc: "\<forall>e \<in> set evs. ne_type e \<noteq> ''child.created''" and ne: "evs \<noteq> []"
    and evs: "rfold (apply_new C) evs a = Inr b"
    and b: "lifecycle_ok b" "root_ok b" "sa_status b \<noteq> None"
  shows "committed C ctx sid (length evs) a b s (fst (es_append sid sid run ctx evs resp stamp s)) (snd (es_append sid sid run ctx evs resp stamp s))"
proof (cases rule: es_append_cases [of s ctx sid sid run evs resp stamp])
  case (replayed previous)
  then show ?thesis using inv by (auto simp: committed_def replayed_def raise_if_def)
next
  case (refused e)
  let ?s1 = "s\<lparr>es_streams := setdefault (cc_tenant_id ctx, sid) [] (es_streams s)\<rparr>"
  have "es_inv ?s1" using es_append_inv [of s sid sid run ctx evs resp stamp] inv refused(2) by (simp add: ts_inv_def)
  moreover have "session_ok C ?s1 t i" for t i
    using inv session_ok_streams [of ?s1 t i s C] by (simp add: ts_inv_def es_get_snapshot_def)
  ultimately have "ts_inv C ?s1" by (simp add: ts_inv_def)
  then show ?thesis using refused(2) by (simp add: committed_def)
next
  case (stored governed ces)
  let ?tid = "cc_tenant_id ctx" and ?es = "stream_of s (cc_tenant_id ctx) sid"
  let ?s2 = "commit ctx resp ces (s\<lparr>es_streams := extend_stream (?tid, sid) ces (setdefault (?tid, sid) [] (es_streams s))\<rparr>)"
  have es_inv: "es_inv s" using inv by (simp add: ts_inv_def)
  have g: "governed = evs" by (rule govern_root [OF nc stored(3)])
  have ver: "cc_expected_version ctx = sa_version a"
    using rebuilt_version [OF a es_inv_stream(1) [OF es_inv]] stored(2) by simp
  have st: "stored_as a evs ces" unfolding stored(4) g by (rule store_events_stored_as [OF ver])
  have "list_all (of_stream (?tid, sid)) ces" unfolding stored(4) by (rule store_events_stream)
  then have reb: "rebuilt C sid ?tid (?es @ ces) (b\<lparr>sa_version := sa_version a + int (length ces)\<rparr>)"
    by (intro rebuilt_events [OF a evs st]) (auto simp: list_all_iff of_stream_def)
  have streams: "stream_of ?s2 t i = (if (t, i) = (?tid, sid) then ?es @ ces else stream_of s t i)" for t i
    by (auto simp: stream_of_def dget_extend_stream dget_setdefault_empty)
  have "es_inv ?s2" using es_append_inv [OF es_inv, of sid sid run ctx evs resp stamp] stored(5) by simp
  then have inv2: "ts_inv C ?s2"
    by (rule ts_inv_append [OF inv _ _ streams reb]) (use b in simp_all)
  have "length ces = length evs" using st unfolding stored_as_def by (metis length_map)
  moreover from this ne have "ces \<noteq> []" by auto
  ultimately show ?thesis
    using last_version [OF stored_as_contiguous [OF st]] stored(5) inv2 reb streams unfolding committed_def by auto
qed

lemma rebuilt_nonempty: "rebuilt C sid tid es a \<Longrightarrow> sa_status a \<noteq> None \<Longrightarrow> es \<noteq> []"
  by (auto simp: rebuilt_def sa_empty_def)

locale task_ports =
  fixes P :: "'p ports"
  assumes codec: "codec_ok (pt_codec P)"
    and relay: "relay_ok (pt_relay_once P)"
begin

abbreviation C where "C \<equiv> pt_codec P"

lemma after_append_sound:
  assumes "ts_inv C (w_store w)" "ar_events res \<noteq> []"
    and "rebuilt C sid tid (stream_of (w_store w) tid sid) (a\<lparr>sa_version := ce_version (last (ar_events res))\<rparr>)"
    and "lifecycle_ok a" "sa_status a \<noteq> None"
  shows "snd (ts_after_append P a res w) = Inr ()" "ts_inv C (w_store (fst (ts_after_append P a res w)))"
    "stream_of (w_store (fst (ts_after_append P a res w))) t i = stream_of (w_store w) t i"
proof -
  let ?a = "a\<lparr>sa_version := ce_version (last (ar_events res))\<rparr>" and ?es = "stream_of (w_store w) tid sid"
  obtain st where st: "sa_snapshot_state C ?a = Inr st" using assms(5) by (auto simp: sa_snapshot_state_def)
  let ?n = "\<lparr>sn_tenant_id = sa_tenant_id ?a, sn_session_id = sa_session_id ?a, sn_aggregate_version = sa_version ?a,
    sn_schema_version = 1, sn_state = st\<rparr>"
  let ?w = "w\<lparr>w_store := es_save_snapshot ?n (w_store w)\<rparr>"
  have "es_inv (w_store w)" using assms(1) by (simp add: ts_inv_def)
  then have v: "sa_version ?a = int (length ?es)" by (rule rebuilt_version [OF assms(3) es_inv_stream(1)])
  have "?es \<noteq> []" using rebuilt_nonempty [OF assms(3)] assms(5) by simp
  then have "snapshot_of C tid sid ?es ?n"
    unfolding snapshot_of_def using assms(3-5) st v
    by (intro exI [of _ "length ?es"] exI [of _ ?a]) simp
  then have inv: "ts_inv C (w_store ?w)"
    using ts_inv_save_snapshot [OF assms(1), of ?n] rebuilt_ids [OF assms(3)] by simp
  have log: "same_log (w_store ?w) (w_store (pt_relay_once P ?w))" using relay unfolding relay_ok_def by blast
  have dec: "ts_after_append P a res w = (if ar_deduplicated res then (w, Inr ()) else (pt_relay_once P ?w, Inr ()))"
    using assms(2) st by (simp add: ts_after_append_def)
  show "snd (ts_after_append P a res w) = Inr ()" "ts_inv C (w_store (fst (ts_after_append P a res w)))"
    "stream_of (w_store (fst (ts_after_append P a res w))) t i = stream_of (w_store w) t i"
    using dec assms(1) ts_inv_same_log [OF log inv] same_log_stream [OF log] by simp_all
qed

lemma commit_sound:
  assumes inv: "ts_inv C (w_store w)"
    and a: "rebuilt C sid (cc_tenant_id ctx) (stream_of (w_store w) (cc_tenant_id ctx) sid) a" "lifecycle_ok a" "root_ok a"
    and cmd: "sa_command C c a = Inr a'"
  shows "committed C ctx sid (length (sa_pending a')) a (a'\<lparr>sa_pending := []\<rparr>) (w_store w)
     (w_store (fst (ts_commit P a' run ctx resp stamp w))) (snd (ts_commit P a' run ctx resp stamp w))"
proof -
  let ?b = "a'\<lparr>sa_pending := []\<rparr>" and ?app = "es_append sid sid run ctx (sa_pending a') resp stamp (w_store w)"
  have ids: "sa_session_id a' = sid" "sa_root_session_id a' = sid"
    using rebuilt_ids [OF a(1)] sa_command_ids [OF cmd] sa_command_root [OF a(3) cmd] by (auto simp: root_ok_def)
  have b: "lifecycle_ok ?b" "root_ok ?b" "sa_status ?b \<noteq> None"
    using sa_command_lifecycle [OF a(2) cmd] sa_command_root [OF a(3) cmd] sa_command_exists [OF cmd] by simp_all
  have "no_child a'" using sa_command_no_child [OF _ cmd] rebuilt_pending [OF a(1)] by (simp add: no_child_def)
  then have app: "committed C ctx sid (length (sa_pending a')) a ?b (w_store w) (fst ?app) (snd ?app)"
    by (intro append_sound inv a(1) b command_raises [OF cmd] command_events [OF rebuilt_pending [OF a(1)] cmd])
       (simp add: no_child_def)
  have ts: "ts_commit P a' run ctx resp stamp w =
     (case ?app of
        (s', Inl e) \<Rightarrow> (w\<lparr>w_store := s'\<rparr>, Inl e)
      | (s', Inr res) \<Rightarrow> (case ts_after_append P ?b res (w\<lparr>w_store := s'\<rparr>) of
               (w', Inl e) \<Rightarrow> (w', Inl e) | (w', Inr _) \<Rightarrow> (w', Inr res)))"
    by (simp add: ts_commit_def sa_release_pending_events_def ids)
  show ?thesis
  proof (cases "\<exists>res. snd ?app = Inr res \<and> \<not> ar_deduplicated res")
    case False
    then show ?thesis
      using app ts by (cases ?app; cases "snd ?app") (auto simp: committed_def ts_after_append_def)
  next
    case True
    then obtain s' res where r: "?app = (s', Inr res)" "\<not> ar_deduplicated res" by (cases ?app) auto
    let ?w = "w\<lparr>w_store := s'\<rparr>"
    have res: "ts_inv C (w_store ?w)" "ar_events res \<noteq> []"
      "rebuilt C sid (cc_tenant_id ctx) (stream_of (w_store ?w) (cc_tenant_id ctx) sid) (?b\<lparr>sa_version := ce_version (last (ar_events res))\<rparr>)"
      using app r by (auto simp: committed_def)
    note after = after_append_sound [OF res b(1,3)]
    then have "ts_commit P a' run ctx resp stamp w = (fst (ts_after_append P ?b res ?w), Inr res)"
      using ts r by (cases "ts_after_append P ?b res ?w") auto
    then show ?thesis using app r after(2,3) by (auto simp: committed_def)
  qed
qed

end

section \<open>The task service as a machine\<close>

datatype task_op =
    Op_create task_request command_context string string "nat \<Rightarrow> time" stamps
  | Op_message string string command_context stamps
  | Op_request_run string "approval_mode option" "pyval list option" command_context string "nat \<Rightarrow> time" stamps
  | Op_cancel string string command_context stamps
  | Op_close string string command_context stamps
  | Op_resume string command_context string stamps
  | Op_respond string string string "string option" command_context time stamps
  | Op_delegate string string string string command_context stamps
  | Op_escalate string string "string list" string command_context stamps

fun op_context :: "task_op \<Rightarrow> command_context" where
  "op_context (Op_create r ctx fs fr clock stamp) = ctx"
| "op_context (Op_message sid m ctx stamp) = ctx"
| "op_context (Op_request_run sid mode refresh ctx fresh clock stamp) = ctx"
| "op_context (Op_cancel sid reason ctx stamp) = ctx"
| "op_context (Op_close sid reason ctx stamp) = ctx"
| "op_context (Op_resume sid ctx fresh stamp) = ctx"
| "op_context (Op_respond sid i d f ctx now stamp) = ctx"
| "op_context (Op_delegate sid i v reason ctx stamp) = ctx"
| "op_context (Op_escalate sid i vs reason ctx stamp) = ctx"

fun op_session :: "task_op \<Rightarrow> string" where
  "op_session (Op_create r ctx fs fr clock stamp) = ''ses_'' @ fs"
| "op_session (Op_message sid m ctx stamp) = sid"
| "op_session (Op_request_run sid mode refresh ctx fresh clock stamp) = sid"
| "op_session (Op_cancel sid reason ctx stamp) = sid"
| "op_session (Op_close sid reason ctx stamp) = sid"
| "op_session (Op_resume sid ctx fresh stamp) = sid"
| "op_session (Op_respond sid i d f ctx now stamp) = sid"
| "op_session (Op_delegate sid i v reason ctx stamp) = sid"
| "op_session (Op_escalate sid i vs reason ctx stamp) = sid"

fun task_call :: "'p ports \<Rightarrow> task_op \<Rightarrow> 'p world \<Rightarrow> 'p world \<times> payload result" where
  "task_call P (Op_create r ctx fs fr clock stamp) w = create_task P r ctx fs fr clock stamp w"
| "task_call P (Op_message sid m ctx stamp) w = append_message P sid m ctx stamp w"
| "task_call P (Op_request_run sid mode refresh ctx fresh clock stamp) w =
     request_run P sid mode refresh ctx fresh clock stamp w"
| "task_call P (Op_cancel sid reason ctx stamp) w = cancel_task P sid reason ctx stamp w"
| "task_call P (Op_close sid reason ctx stamp) w = close_session P sid reason ctx stamp w"
| "task_call P (Op_resume sid ctx fresh stamp) w = resume_task P sid ctx fresh stamp w"
| "task_call P (Op_respond sid i d f ctx now stamp) w = record_approval_response P sid i d f ctx now stamp w"
| "task_call P (Op_delegate sid i v reason ctx stamp) w = delegate_approval P sid i v reason ctx stamp w"
| "task_call P (Op_escalate sid i vs reason ctx stamp) w = escalate_approval P sid i vs reason ctx stamp w"

fun issues :: "task_op \<Rightarrow> session_command \<Rightarrow> bool" where
  \<comment> \<open>the commands of the aggregate that a call stands for\<close>
  "issues (Op_create r ctx fs fr clock stamp) c =
     (\<exists>q. c = Create q \<and> cr_goal q = tr_goal r \<and> cr_run_id q = ''run_'' @ fr \<and> cr_approval q = Some (task_approval r))"
| "issues (Op_message sid m ctx stamp) c = (c = Append_message m)"
| "issues (Op_request_run sid mode refresh ctx fresh clock stamp) c =
     (\<exists>budget snaps. c = Request_run (''run_'' @ fresh) mode (Some (cc_command_id ctx))
        (Some (run_fingerprint sid mode refresh)) budget (Some snaps))"
| "issues (Op_cancel sid reason ctx stamp) c = (c = Cancel reason)"
| "issues (Op_close sid reason ctx stamp) c = (c = Close reason)"
| "issues (Op_resume sid ctx fresh stamp) c = (c = Resume (''run_'' @ fresh))"
| "issues (Op_respond sid i d f ctx now stamp) c =
     (\<exists>terminal. c = Human_response i (actor_id (cc_actor ctx)) d f terminal)"
| "issues (Op_delegate sid i v reason ctx stamp) c =
     (c = Delegate_approval i (actor_id (cc_actor ctx)) v (actor_id (cc_actor ctx)) reason)"
| "issues (Op_escalate sid i vs reason ctx stamp) c =
     (\<exists>level. c = Escalate_approval i (fromkeys vs) level (actor_id (cc_actor ctx)) reason None)"

definition loads :: "'p ports \<Rightarrow> task_op \<Rightarrow> event_store \<Rightarrow> session_aggregate \<Rightarrow> bool" where
  \<comment> \<open>the aggregate a call starts from\<close>
  "loads P op s a \<longleftrightarrow>
     (case op of Op_create _ _ _ _ _ _ \<Rightarrow> a = sa_empty (op_session op) (cc_tenant_id (op_context op))
      | _ \<Rightarrow> ts_load P s (cc_tenant_id (op_context op)) (op_session op) = Inr a)"

definition direct :: "task_op \<Rightarrow> bool" where
  \<comment> \<open>the calls that look for no earlier answer of their own\<close>
  "direct op \<longleftrightarrow> (case op of Op_request_run _ _ _ _ _ _ _ \<Rightarrow> False | Op_respond _ _ _ _ _ _ _ \<Rightarrow> False
     | Op_delegate _ _ _ _ _ _ \<Rightarrow> False | Op_escalate _ _ _ _ _ _ \<Rightarrow> False | _ \<Rightarrow> True)"

lemma notify_store: "w_store (fst (notify_decision P t r d f ac resp w)) = w_store w"
  by (auto simp: notify_decision_def split: option.splits sum.splits)

lemma decide_cases:
  assumes "decide P i d f ctx now r a = Inr (rec, terminal, app, a')"
  shows "if app then sa_command (pt_codec P) (Human_response i (actor_id (cc_actor ctx)) d f terminal) a = Inr a' else a' = a"
  using assms by (auto simp: decide_def split: if_splits)

definition notifies :: "task_op \<Rightarrow> bool" where
  "notifies op \<longleftrightarrow> (case op of Op_respond _ _ _ _ _ _ _ \<Rightarrow> True | _ \<Rightarrow> False)"

definition behaves :: "'p ports \<Rightarrow> task_op \<Rightarrow> 'p world \<Rightarrow> 'p world \<times> payload result \<Rightarrow> bool" where
  \<comment> \<open>a call leaves the store alone, or commits one command of the aggregate\<close>
  "behaves P op w out \<longleftrightarrow>
     w_store (fst out) = w_store w \<and> (direct op \<longrightarrow> isl (snd out)) \<or>
     (\<exists>c a a' run resp stamp. issues op c \<and> loads P op (w_store w) a \<and> sa_command (pt_codec P) c a = Inr a' \<and>
        w_store (fst out) = w_store (fst (ts_commit P a' run (op_context op) resp stamp w)) \<and>
        (isl (snd (ts_commit P a' run (op_context op) resp stamp w)) \<longrightarrow> isl (snd out)) \<and>
        (\<not> notifies op \<and> isl (snd out) \<longrightarrow> isl (snd (ts_commit P a' run (op_context op) resp stamp w))))"

lemma isl_answer [simp]: "fst (answer r) = fst r" "isl (snd (answer r)) \<longleftrightarrow> isl (snd r)"
  by (cases r; cases "snd r"; simp add: answer_def)+

lemma isl_rbind_Inr [simp]: "isl (rbind r (\<lambda>x. Inr (f x))) \<longleftrightarrow> isl r"
  by (cases r) simp_all

lemma behaves_quiet: "w_store w' = w_store w \<Longrightarrow> (direct op \<Longrightarrow> isl r) \<Longrightarrow> behaves P op w (w', r)"
  by (simp add: behaves_def)

lemma behaves_commit:
  assumes "issues op c" "loads P op (w_store w) a" "sa_command (pt_codec P) c a = Inr a'"
    and "w_store (fst out) = w_store (fst (ts_commit P a' run (op_context op) resp stamp w))"
    and "isl (snd (ts_commit P a' run (op_context op) resp stamp w)) \<Longrightarrow> isl (snd out)"
    and "\<not> notifies op \<Longrightarrow> isl (snd out) \<Longrightarrow> isl (snd (ts_commit P a' run (op_context op) resp stamp w))"
  shows "behaves P op w out"
  unfolding behaves_def using assms by blast

lemma behaves_load:
  assumes "issues op c" "op_context op = ctx" "op_session op = sid" "sa_command (pt_codec P) c = f"
    and "\<And>a. ts_load P (w_store w) (cc_tenant_id ctx) sid = Inr a \<Longrightarrow> loads P op (w_store w) a"
  shows "behaves P op w
    (case rbind (ts_load P (w_store w) (cc_tenant_id ctx) sid) f of
       Inl e \<Rightarrow> (w, Inl e) | Inr a \<Rightarrow> answer (ts_commit P a (run a) ctx (resp a) stamp w))"
proof (cases "rbind (ts_load P (w_store w) (cc_tenant_id ctx) sid) f")
  case (Inl e)
  then show ?thesis by (simp add: behaves_quiet)
next
  case (Inr a')
  then obtain a where "ts_load P (w_store w) (cc_tenant_id ctx) sid = Inr a" "f a = Inr a'" by auto
  then show ?thesis
    using Inr assms by (intro behaves_commit [of _ c _ _ a a' _ "run a'" "resp a'" stamp]) auto
qed

lemma behaves_message: "behaves P (Op_message sid m ctx stamp) w (append_message P sid m ctx stamp w)"
  unfolding append_message_def by (rule behaves_load [where c = "Append_message m"]) (simp_all add: loads_def)

lemma behaves_cancel: "behaves P (Op_cancel sid reason ctx stamp) w (cancel_task P sid reason ctx stamp w)"
  unfolding cancel_task_def by (rule behaves_load [where c = "Cancel reason"]) (simp_all add: loads_def)

lemma behaves_close: "behaves P (Op_close sid reason ctx stamp) w (close_session P sid reason ctx stamp w)"
  unfolding close_session_def by (rule behaves_load [where c = "Close reason"]) (simp_all add: loads_def)

lemma behaves_resume: "behaves P (Op_resume sid ctx fresh stamp) w (resume_task P sid ctx fresh stamp w)"
  unfolding resume_task_def Let_def by (rule behaves_load [where c = "Resume (''run_'' @ fresh)"]) (simp_all add: loads_def)

lemma behaves_create: "behaves P (Op_create r ctx fs fr clock stamp) w (create_task P r ctx fs fr clock stamp w)"
  (is "behaves P ?op w ?out")
proof -
  define sid where "sid = ''ses_'' @ fs"
  define rid where "rid = ''run_'' @ fr"
  define resp where "resp = dict_of ([(''session_id'', PStr sid), (''run_id'', PStr rid), (''status'', PStr ''pending''),
                     (''_request_fingerprint'', PStr (create_fingerprint P r))] @ public_dict P (task_approval r) @
                     [(''status_url'', PStr (''/v1/tasks/'' @ sid)), (''result_url'', PStr (''/v1/tasks/'' @ sid @ ''/result'')),
                      (''stream_url'', PStr (''/v1/streams/'' @ sid))])"
  define req where "req = (\<lambda>budget refresh. \<lparr>cr_goal = tr_goal r, cr_run_id = rid, cr_dept_id = cc_dept_id ctx, cr_source = tr_source r,
              cr_schedule_id = tr_schedule_id r, cr_occurrence_id = tr_occurrence_id r, cr_approval = Some (task_approval r),
              cr_runtime_budget = budget, cr_read_refresh = Some refresh, cr_skill_names = tr_skill_names r\<rparr>)"
  let ?x = "rbind (govern_runtime_budget P (tr_goal r) ctx) (\<lambda>budget.
           rbind (refresh_snapshots P (tr_read_refresh r) clock) (\<lambda>refresh.
           sa_create (pt_codec P) (req budget refresh) (sa_empty sid (cc_tenant_id ctx))))"
  have out: "?out = (case ?x of Inl e \<Rightarrow> (w, Inl e)
      | Inr a \<Rightarrow> (case answer (ts_commit P a (run_opt a) ctx resp stamp w) of
             (w', res) \<Rightarrow> (w', rbind res (\<lambda>p. Inr (without_fingerprint p)))))"
    unfolding create_task_def Let_def sid_def rid_def resp_def req_def ..
  show ?thesis
  proof (cases ?x)
    case (Inl e)
    then show ?thesis using out by (simp add: behaves_quiet)
  next
    case (Inr a')
    then obtain budget refresh where "sa_create (pt_codec P) (req budget refresh) (sa_empty sid (cc_tenant_id ctx)) = Inr a'" by auto
    then obtain q where q: "cr_goal q = tr_goal r" "cr_run_id q = rid" "cr_approval q = Some (task_approval r)"
      "sa_create (pt_codec P) q (sa_empty sid (cc_tenant_id ctx)) = Inr a'"
      by (rule that [of "req budget refresh", rotated 3]) (simp_all add: req_def)
    show ?thesis
      by (rule behaves_commit [of _ "Create q" _ _ "sa_empty sid (cc_tenant_id ctx)" a' _ "run_opt a'" resp stamp])
         (use q out Inr in \<open>auto simp: loads_def case_prod_unfold sid_def rid_def\<close>)
  qed
qed

lemma behaves_request_run:
  "behaves P (Op_request_run sid mode refresh ctx fresh clock stamp) w (request_run P sid mode refresh ctx fresh clock stamp w)"
  (is "behaves P ?op w ?out")
proof (cases "w_store (fst ?out) = w_store w")
  case True
  then show ?thesis by (simp add: behaves_def direct_def)
next
  case False
  let ?fp = "run_fingerprint sid mode refresh" and ?rid = "''run_'' @ fresh"
  from False obtain a budget snaps a' resp where
    "ts_load P (w_store w) (cc_tenant_id ctx) sid = Inr a"
    "sa_request_run (pt_codec P) ?rid mode (Some (cc_command_id ctx)) (Some ?fp) budget (Some snaps) a = Inr a'"
    "?out = (case answer (ts_commit P a' (Some ?rid) ctx resp stamp w) of
             (w', res) \<Rightarrow> (w', rbind res (\<lambda>p. Inr (without_fingerprint p))))"
    unfolding request_run_def Let_def by (auto split: sum.splits option.splits)
  then show ?thesis
    by (intro behaves_commit [of _ "Request_run ?rid mode (Some (cc_command_id ctx)) (Some ?fp) budget (Some snaps)" _ _ a a' _ "Some ?rid" resp stamp])
       (auto simp: loads_def case_prod_unfold)
qed

lemma behaves_delegate:
  "behaves P (Op_delegate sid i v reason ctx stamp) w (delegate_approval P sid i v reason ctx stamp w)"
  (is "behaves P ?op w ?out")
proof (cases "w_store (fst ?out) = w_store w")
  case True
  then show ?thesis by (simp add: behaves_def direct_def)
next
  case False
  let ?actor = "actor_id (cc_actor ctx)"
  from False obtain a a' resp where
    "ts_load P (w_store w) (cc_tenant_id ctx) sid = Inr a"
    "sa_delegate_approval (pt_codec P) i ?actor v ?actor reason a = Inr a'"
    "?out = answer (ts_commit P a' (run_opt a') ctx resp stamp w)"
    unfolding delegate_approval_def Let_def by (auto split: sum.splits option.splits)
  then show ?thesis
    by (intro behaves_commit [of _ "Delegate_approval i ?actor v ?actor reason" _ _ a a' _ "run_opt a'" resp stamp])
       (auto simp: loads_def)
qed

lemma behaves_escalate:
  "behaves P (Op_escalate sid i vs reason ctx stamp) w (escalate_approval P sid i vs reason ctx stamp w)"
  (is "behaves P ?op w ?out")
proof (cases "w_store (fst ?out) = w_store w")
  case True
  then show ?thesis by (simp add: behaves_def direct_def)
next
  case False
  let ?actor = "actor_id (cc_actor ctx)"
  from False obtain a level a' resp where
    "ts_load P (w_store w) (cc_tenant_id ctx) sid = Inr a"
    "sa_escalate_approval (pt_codec P) i (fromkeys vs) level ?actor reason None a = Inr a'"
    "?out = answer (ts_commit P a' (run_opt a') ctx resp stamp w)"
    unfolding escalate_approval_def Let_def by (auto split: sum.splits option.splits)
  then show ?thesis
    by (intro behaves_commit [of _ "Escalate_approval i (fromkeys vs) level ?actor reason None" _ _ a a' _ "run_opt a'" resp stamp])
       (auto simp: loads_def)
qed

lemma behaves_respond:
  "behaves P (Op_respond sid i d f ctx now stamp) w (record_approval_response P sid i d f ctx now stamp w)"
  (is "behaves P ?op w ?out")
proof (cases "w_store (fst ?out) = w_store w")
  case True
  then show ?thesis by (simp add: behaves_def direct_def)
next
  case False
  let ?actor = "actor_id (cc_actor ctx)"
  from False obtain r a terminal a' resp d' decided where l: "ts_load P (w_store w) (cc_tenant_id ctx) sid = Inr a"
    and dec: "decide P i d f ctx now r a = Inr (decided, terminal, True, a')"
    and out: "?out = (case answer (ts_commit P a' (run_opt a') ctx resp stamp w) of
                          (w', Inl e) \<Rightarrow> (w', Inl e)
                        | (w', Inr recorded) \<Rightarrow> notify_decision P terminal r d' f ?actor recorded w')"
    unfolding record_approval_response_def Let_def
    by (auto split: sum.splits option.splits if_splits simp: notify_store)
  obtain w1 r1 where w1: "answer (ts_commit P a' (run_opt a') ctx resp stamp w) = (w1, r1)" by fastforce
  then have "w1 = fst (ts_commit P a' (run_opt a') ctx resp stamp w)" "isl r1 = isl (snd (ts_commit P a' (run_opt a') ctx resp stamp w))"
    using isl_answer [of "ts_commit P a' (run_opt a') ctx resp stamp w"] by simp_all
  then show ?thesis
    using l decide_cases [OF dec] out w1
    by (intro behaves_commit [of _ "Human_response i ?actor d f terminal" _ _ a a' _ "run_opt a'" resp stamp]; cases r1)
       (simp_all add: loads_def notifies_def notify_store)
qed

lemma task_call_behaves: "behaves P op w (task_call P op w)"
  by (cases op) (simp_all only: task_call.simps behaves_message behaves_cancel behaves_close behaves_resume behaves_create behaves_request_run behaves_delegate
      behaves_escalate behaves_respond)

definition fresh_id :: "task_op \<Rightarrow> event_store \<Rightarrow> bool" where
  \<comment> \<open>\<open>uuid4\<close> returns an id that no Session has\<close>
  "fresh_id op s \<longleftrightarrow>
     (case op of Op_create _ _ _ _ _ _ \<Rightarrow> stream_of s (cc_tenant_id (op_context op)) (op_session op) = [] | _ \<Rightarrow> True)"

datatype service_op =
    Call task_op
  | Due_approvals time int "nat \<Rightarrow> stamps"
  | Run_events string "string option" command_context "new_event list" payload stamps

definition run_events_allowed :: "'p ports \<Rightarrow> string \<Rightarrow> command_context \<Rightarrow> new_event list \<Rightarrow> event_store \<Rightarrow> bool" where
  \<comment> \<open>events of a Run that the aggregate of the Session can apply\<close>
  "run_events_allowed P sid ctx evs s \<longleftrightarrow>
     evs \<noteq> [] \<and> list_all (\<lambda>e. ne_type e \<in> set RUN_EVENTS) evs \<and>
     \<not> isl (rbind (ts_load P s (cc_tenant_id ctx) sid) (rfold (apply_new (pt_codec P)) evs))"

fun service_step :: "'p ports \<Rightarrow> service_op \<Rightarrow> 'p world \<Rightarrow> 'p world" where
  "service_step P (Call op) w = (if fresh_id op (w_store w) then fst (task_call P op w) else w)"
| "service_step P (Due_approvals current limit stamp) w = fst (process_due_approval_slas P current limit stamp w)"
| "service_step P (Run_events sid run ctx evs resp stamp) w =
     (if run_events_allowed P sid ctx evs (w_store w)
      then w\<lparr>w_store := fst (es_append sid sid run ctx evs resp stamp (w_store w))\<rparr> else w)"

lemma apply_new_keeps:
  assumes "lifecycle_ok a" "root_ok a" "sa_status a \<noteq> None" "ne_type e \<in> set RUN_EVENTS" "apply_new C e a = Inr b"
  shows "lifecycle_ok b" "root_ok b" "sa_status b \<noteq> None"
proof -
  have ap: "sa_apply C (ne_type e) (ne_payload e) a = Inr b" using assms(5) by (simp add: apply_new_def)
  show "lifecycle_ok b" by (rule sa_apply_lifecycle [OF run_event_keeps_lifecycle [OF assms(1,4)] ap])
  have "ne_type e \<noteq> ''session.created''" "ne_type e \<noteq> ''child.created''" using assms(4) by (auto simp: RUN_EVENTS_def)
  then show "root_ok b" by (rule sa_apply_root [OF keeps_root_other [OF assms(2)] ap])
  show "sa_status b \<noteq> None" by (rule sa_apply_exists [OF ap assms(3)])
qed

lemma rfold_run_events:
  assumes "rfold (apply_new C) evs a = Inr b" "list_all (\<lambda>e. ne_type e \<in> set RUN_EVENTS) evs"
    and "lifecycle_ok a" "root_ok a" "sa_status a \<noteq> None"
  shows "lifecycle_ok b \<and> root_ok b \<and> sa_status b \<noteq> None"
  by (rule rfold_invariant [OF assms(1)]) (use assms in \<open>auto simp only: list_all_iff dest: apply_new_keeps\<close>)

context task_ports
begin

lemma loads_rebuilt:
  assumes "ts_inv C s" "loads P op s a" "fresh_id op s"
  shows "rebuilt C (op_session op) (cc_tenant_id (op_context op)) (stream_of s (cc_tenant_id (op_context op)) (op_session op)) a"
    "lifecycle_ok a" "root_ok a"
proof -
  have "rebuilt C (op_session op) (cc_tenant_id (op_context op)) (stream_of s (cc_tenant_id (op_context op)) (op_session op)) a \<and>
    lifecycle_ok a \<and> root_ok a"
  proof (cases "\<exists>r ctx fs fr clock stamp. op = Op_create r ctx fs fr clock stamp")
    case True
    then show ?thesis
      using assms(2,3) by (auto simp: loads_def fresh_id_def rebuilt_def lifecycle_ok_def root_ok_def sa_empty_def)
  next
    case False
    then have "ts_load P s (cc_tenant_id (op_context op)) (op_session op) = Inr a"
      using assms(2) by (cases op) (auto simp: loads_def)
    from ts_load_rebuilt [OF codec assms(1) this] show ?thesis by simp
  qed
  then show "rebuilt C (op_session op) (cc_tenant_id (op_context op)) (stream_of s (cc_tenant_id (op_context op)) (op_session op)) a"
    "lifecycle_ok a" "root_ok a" by simp_all
qed

lemma call_sound:
  assumes inv: "ts_inv C (w_store w)" and fresh: "fresh_id op (w_store w)"
  defines "s \<equiv> w_store w" and "s' \<equiv> w_store (fst (task_call P op w))"
    and "tid \<equiv> cc_tenant_id (op_context op)" and "sid \<equiv> op_session op"
  shows "ts_inv C s' \<and>
    ((\<forall>t i. stream_of s' t i = stream_of s t i) \<and>
       (direct op \<and> map_of (es_commands s) (command_key (op_context op)) = None \<longrightarrow> isl (snd (task_call P op w))) \<or>
     (\<exists>c a a'. issues op c \<and> loads P op s a \<and> sa_command C c a = Inr a' \<and>
        ts_load P s' tid sid = Inr (a'\<lparr>sa_pending := [], sa_version := sa_version a + int (length (sa_pending a'))\<rparr>) \<and>
        (\<forall>t i. (t, i) \<noteq> (tid, sid) \<longrightarrow> stream_of s' t i = stream_of s t i) \<and>
        (isl (snd (task_call P op w)) \<longrightarrow> notifies op)))"
  using task_call_behaves [of P op w] unfolding behaves_def
proof (elim disjE exE conjE)
  assume "w_store (fst (task_call P op w)) = w_store w" "direct op \<longrightarrow> isl (snd (task_call P op w))"
  then show ?thesis using inv by (simp add: s_def s'_def)
next
  fix c a a' run resp stamp
  let ?t = "ts_commit P a' run (op_context op) resp stamp w"
  assume c: "issues op c" "loads P op (w_store w) a" "sa_command C c a = Inr a'"
    and st: "w_store (fst (task_call P op w)) = w_store (fst ?t)"
    and r: "isl (snd ?t) \<longrightarrow> isl (snd (task_call P op w))" "\<not> notifies op \<and> isl (snd (task_call P op w)) \<longrightarrow> isl (snd ?t)"
  note com = commit_sound [OF inv loads_rebuilt [OF inv c(2) fresh] c(3), of run resp stamp]
  from com have inv': "ts_inv C s'" by (simp add: committed_def s'_def st)
  from com consider "\<forall>t i. stream_of s' t i = stream_of s t i"
      "\<forall>res. snd ?t = Inr res \<longrightarrow> map_of (es_commands s) (command_key (op_context op)) \<noteq> None"
    | res where "snd ?t = Inr res" "ar_events res \<noteq> []"
      "\<forall>t i. stream_of s' t i = (if (t, i) = (tid, sid) then stream_of s t i @ ar_events res else stream_of s t i)"
      "rebuilt C sid tid (stream_of s' tid sid) (a'\<lparr>sa_pending := [], sa_version := sa_version a + int (length (sa_pending a'))\<rparr>)"
    unfolding committed_def s_def s'_def st tid_def sid_def by blast
  then show ?thesis
  proof cases
    case 1
    then show ?thesis using inv' r(1) by (cases "snd ?t") auto
  next
    case 2
    have "ts_load P s' tid sid = Inr (a'\<lparr>sa_pending := [], sa_version := sa_version a + int (length (sa_pending a'))\<rparr>)"
      using 2 ts_load_stream [OF codec inv', of tid sid] by (simp add: rebuilt_def)
    moreover have "isl (snd (task_call P op w)) \<longrightarrow> notifies op" using r(2) 2(1) by auto
    ultimately show ?thesis using inv' c 2(3) unfolding s_def by (intro conjI disjI2 exI [of _ c] exI [of _ a] exI [of _ a']) simp_all
  qed
qed

lemma sla_inv: "ts_inv C (w_store w) \<Longrightarrow> ts_inv C (w_store (fst (sla_loop P current stamp n rs k w)))"
proof (induction rs arbitrary: n k w)
  case (Cons r rs)
  let ?l = "ts_load P (w_store w) (ap_tenant_id r) (ap_session_id r)"
  show ?case
  proof (cases "rbind ?l (sla_action P current r)")
    case (Inr out)
    show ?thesis
    proof (cases out)
      case (Some x)
      obtain action due a' where x: "x = (action, due, a')" by (cases x)
      obtain a c where l: "?l = Inr a" and c: "sa_command C c a = Inr a'"
        using Inr Some x by (auto simp: sla_action_def split: if_splits option.splits intro: that [of _ "Expire_approval _ _"] that [of _ "Escalate_approval _ _ _ _ _ _"])
      let ?t = "\<lambda>resp. ts_commit P a' (run_opt a') (sla_context action due r a') resp (stamp n) w"
      have "ts_inv C (w_store (fst (?t resp)))" for resp
        using commit_sound [of w "ap_session_id r" "sla_context action due r a'" a c a' "run_opt a'" resp "stamp n"]
          ts_load_rebuilt [OF codec Cons.prems l] Cons.prems c by (simp add: committed_def sla_context_def)
      then show ?thesis
        using Inr Some x Cons.IH by (auto split: prod.splits sum.splits) (metis fst_conv)+
    qed (use Inr Cons in auto)
  qed (use Cons in simp)
qed simp

lemma run_events_inv:
  assumes "ts_inv C s" "run_events_allowed P sid ctx evs s"
  shows "ts_inv C (fst (es_append sid sid run ctx evs resp stamp s))"
proof -
  obtain a b where l: "ts_load P s (cc_tenant_id ctx) sid = Inr a" and b: "rfold (apply_new C) evs a = Inr b"
    and evs: "evs \<noteq> []" "list_all (\<lambda>e. ne_type e \<in> set RUN_EVENTS) evs"
    using assms(2) by (cases "ts_load P s (cc_tenant_id ctx) sid"; cases "rbind (ts_load P s (cc_tenant_id ctx) sid) (rfold (apply_new C) evs)")
      (auto simp: run_events_allowed_def)
  note a = ts_load_rebuilt [OF codec assms(1) l]
  have "\<forall>e \<in> set evs. ne_type e \<noteq> ''child.created''" using evs(2) by (auto simp: list_all_iff RUN_EVENTS_def)
  from append_sound [OF assms(1) a(1) this evs(1) b] rfold_run_events [OF b evs(2) a(2-4)]
  show ?thesis by (simp add: committed_def)
qed

lemma service_step_inv: "ts_inv C (w_store w) \<Longrightarrow> ts_inv C (w_store (service_step P op w))"
  using call_sound run_events_inv sla_inv by (cases op) (auto simp: process_due_approval_slas_def)

end

section \<open>The service over its store and relay\<close>

definition wired :: "(canonical_event list \<Rightarrow> 'p \<Rightarrow> 'p result) \<Rightarrow> 'p ports \<Rightarrow> 'p ports" where
  \<comment> \<open>the ports with the relay of \<open>projection/relay.py\<close> over a projector\<close>
  "wired project P = P\<lparr>pt_relay_once := (\<lambda>w. case relay_once project 100 (w_store w) (w_view w) of
     (s, view, _) \<Rightarrow> w\<lparr>w_store := s, w_view := view\<rparr>)\<rparr>"

definition new_world :: "'p \<Rightarrow> 'p world" where
  "new_world view = \<lparr>w_store = es_init, w_view = view\<rparr>"

lemma wired_codec [simp]: "pt_codec (wired project P) = pt_codec P"
  by (simp add: wired_def)

lemma wired_task_ports: "codec_ok (pt_codec P) \<Longrightarrow> task_ports (wired project P)"
proof
  show "relay_ok (pt_relay_once (wired project P))"
    unfolding relay_ok_def
  proof
    fix w :: "'a world"
    show "same_log (w_store w) (w_store (pt_relay_once (wired project P) w))"
      using relay_once_same_log [of "w_store w" project 100 "w_view w"]
      by (simp add: wired_def case_prod_unfold)
  qed
qed simp

sublocale task_ports \<subseteq> service: store_machine "new_world view" "service_step P" "\<lambda>w. ts_inv C (w_store w)" for view
proof
  have "es_inv es_init" by (rule es_inv_init)
  then show "ts_inv C (w_store (new_world view))"
    by (simp add: new_world_def ts_inv_def session_ok_def stream_of_def es_init_def es_get_snapshot_def dget_def)
qed (rule service_step_inv)

interpretation json_service: task_ports "wired project (P\<lparr>pt_codec := json_codec\<rparr>)" for project P
  by (rule wired_task_ports) (simp add: json_codec_ok)

context task_ports
begin

lemma reachable: "ts_inv C (w_store (fold (service_step P) ops (new_world view)))"
  using service.inv_reachable [of ops view] by (simp add: service.run_def)

end

lemma reachable_inv:
  assumes "codec_ok (pt_codec P)"
  shows "ts_inv (pt_codec P) (w_store (fold (service_step (wired project P)) ops (new_world view)))"
  using task_ports.reachable [OF wired_task_ports [OF assms]] by simp



section \<open>Examples\<close>

definition demo_ports :: "unit ports" where
  "demo_ports = \<lparr>pt_codec = json_codec, pt_runtime_budget = None, pt_admit = (\<lambda>_ _. Inr ()), pt_govern_budget = None,
     pt_relay_once = id, pt_approvals = None, pt_list_due = (\<lambda>_ _ _. []), pt_notify = None,
     pt_get_task = (\<lambda>_ _ _. None), pt_validate_grant = (\<lambda>_. Inl (TypeError ''no grant''))\<rparr>"

definition demo_caller :: command_context where
  "demo_caller = \<lparr>cc_command_id = ''cmd'', cc_tenant_id = ''t'', cc_actor = \<lparr>actor_type = ''user'', actor_id = ''u''\<rparr>,
     cc_correlation_id = ''c'', cc_expected_version = 0, cc_operation = ''create_task'', cc_causation_id = None, cc_dept_id = None\<rparr>"

definition demo_create :: task_op where
  "demo_create = Op_create \<lparr>tr_goal = ''goal'', tr_source = ''api'', tr_schedule_id = None, tr_occurrence_id = None,
     tr_interaction_mode = None, tr_approval_mode = None, tr_read_refresh = None, tr_skill_names = None\<rparr>
     demo_caller ''1'' ''2'' (\<lambda>_. 0) (\<lambda>n. (show_nat n, 0))"

definition demo_service :: "unit ports" where
  "demo_service = wired (\<lambda>_ v. Inr v) demo_ports"

definition demo_new :: session_aggregate where
  "demo_new = (case sa_create json_codec
     \<lparr>cr_goal = ''goal'', cr_run_id = ''run_2'', cr_dept_id = None, cr_source = ''api'', cr_schedule_id = None,
      cr_occurrence_id = None, cr_approval = Some (approval_resolve STREAMING None), cr_runtime_budget = None,
      cr_read_refresh = Some [], cr_skill_names = None\<rparr> (sa_empty ''ses_1'' ''t'') of Inr a \<Rightarrow> a | Inl _ \<Rightarrow> sa_empty ''ses_1'' ''t'')"

lemma demo_new_created:
  "sa_create json_codec
     \<lparr>cr_goal = ''goal'', cr_run_id = ''run_2'', cr_dept_id = None, cr_source = ''api'', cr_schedule_id = None,
      cr_occurrence_id = None, cr_approval = Some (approval_resolve STREAMING None), cr_runtime_budget = None,
      cr_read_refresh = Some [], cr_skill_names = None\<rparr> (sa_empty ''ses_1'' ''t'') = Inr demo_new"
  by code_simp

lemma demo_new_stored:
  "\<not> isl (snd (es_append ''ses_1'' ''ses_1'' (Some ''run_2'') demo_caller (sa_pending demo_new) resp (\<lambda>n. (show_nat n, 0)) es_init))"
  by code_simp

lemma demo_new_facts:
  "sa_root_session_id demo_new = ''ses_1''" "sa_session_id demo_new = ''ses_1''" "run_opt demo_new = Some ''run_2''"
  "\<not> isl (sa_snapshot_state json_codec (demo_new\<lparr>sa_pending := [], sa_version := v\<rparr>))"
  "\<not> isl (sa_snapshot_state json_codec (demo_new\<lparr>sa_pending := []\<rparr>))"
  by code_simp+

lemma commit_accepted:
  assumes "\<not> isl (snd (es_append (sa_root_session_id a) (sa_session_id a) run ctx (sa_pending a) resp stamp (w_store w)))"
    and "\<And>v. \<not> isl (sa_snapshot_state (pt_codec P) (a\<lparr>sa_pending := [], sa_version := v\<rparr>))"
  shows "\<not> isl (snd (ts_commit P a run ctx resp stamp w))"
proof -
  have "\<not> isl (sa_snapshot_state (pt_codec P) (a\<lparr>sa_pending := []\<rparr>))" using assms(2) [of "sa_version a"] by simp
  then have "\<not> isl (snd (ts_after_append P (a\<lparr>sa_pending := []\<rparr>) res w'))" for res w'
    using assms(2) [of "ce_version (last (ar_events res))"]
    by (auto simp: ts_after_append_def Let_def split: sum.splits)
  with assms(1) show ?thesis
    by (cases "es_append (sa_root_session_id a) (sa_session_id a) run ctx (sa_pending a) resp stamp (w_store w)"; cases "snd (es_append (sa_root_session_id a) (sa_session_id a) run ctx (sa_pending a) resp stamp (w_store w))")
       (auto simp: ts_commit_def sa_release_pending_events_def case_prod_unfold isl_def split: sum.splits)
qed

lemma demo_create_accepted: "\<not> isl (snd (task_call demo_service demo_create (new_world ())))"
proof -
  have x: "govern_runtime_budget demo_service ''goal'' demo_caller = Inr None" "refresh_snapshots demo_service None (\<lambda>_. 0) = Inr []"
    by (simp_all add: govern_runtime_budget_def refresh_snapshots_def demo_service_def wired_def demo_ports_def)
  have "\<not> isl (snd (ts_commit demo_service demo_new (Some ''run_2'') demo_caller resp (\<lambda>n. (show_nat n, 0)) (new_world ())))" for resp
    by (rule commit_accepted) (simp_all add: demo_new_facts demo_new_stored new_world_def demo_service_def demo_ports_def)
  moreover have "pt_codec demo_service = json_codec" "cc_tenant_id demo_caller = ''t''" "cc_dept_id demo_caller = None"
    by (simp_all add: demo_service_def demo_ports_def demo_caller_def)
  ultimately show ?thesis
    using x demo_new_created
    by (simp add: demo_create_def create_task_def task_approval_def demo_new_facts case_prod_unfold Let_def)
qed

lemma demo_create_facts:
  "fresh_id demo_create (w_store (new_world ()))" "direct demo_create" "cc_tenant_id (op_context demo_create) = ''t''"
  "op_session demo_create = ''ses_1''" "map_of (es_commands (w_store (new_world ()))) k = None"
  "stream_of (w_store (new_world ())) t i = []" "codec_ok (pt_codec demo_ports)"
  by (simp_all add: demo_create_def demo_caller_def fresh_id_def direct_def new_world_def es_init_def stream_of_def dget_def
      demo_ports_def json_codec_ok)

lemma demo_create_start:
  "loads demo_service demo_create (w_store (new_world ())) a \<longleftrightarrow> a = sa_empty ''ses_1'' ''t''"
  "pt_codec demo_ports = json_codec" "sa_version (sa_empty sid tid) = 0"
  by (simp_all add: loads_def demo_create_def demo_caller_def demo_ports_def sa_empty_def)


lemma demo_create_stream:
  "stream_of (w_store (fst (task_call demo_service demo_create (new_world ())))) ''t'' ''ses_1'' \<noteq> []"
proof -
  let ?w = "new_world ()" and ?s = "w_store (fst (task_call demo_service demo_create (new_world ())))"
  have P: "task_ports demo_service" unfolding demo_service_def by (rule wired_task_ports [OF demo_create_facts(7)])
  have inv: "ts_inv (pt_codec demo_service) (w_store ?w)" using task_ports.reachable [OF P, of "[]" "()"] by simp
  note cs = task_ports.call_sound [OF P inv demo_create_facts(1)]
  obtain a where "ts_load demo_service ?s ''t'' ''ses_1'' = Inr a"
    using cs demo_create_accepted demo_create_facts(2,5) unfolding demo_create_facts(3,4) by blast
  then show ?thesis using ts_load_rebuilt(5) [OF task_ports.codec [OF P]] cs by blast
qed


end
