(* ===== verification/Collaboration.thy ===== *)
theory Collaboration
  imports Session_Aggregate Py_Json "HOL-Library.Product_Lexorder"
begin

text \<open>
  Root and child Sessions as a graph: the contracts of \<open>contracts/collaboration.py\<close> and the aggregate of
  \<open>domain/collaboration.py\<close>, which is rebuilt from the events of all Sessions under a root. A node has a
  parent, which gives its depth, and dependencies, which decide when it may run.

  The parent chain that \<open>depth\<close> follows ends only if it meets a node without a parent, so that \<open>depth\<close>,
  and \<open>validate_new_child\<close> which calls it, return an option: \<open>None\<close> is a loop that never ends. The set
  \<open>visiting\<close> of the depth-first search is, whenever a call returns, what it was at the call; it is passed
  down instead of restored.
\<close>

section \<open>Contracts\<close>

datatype collaboration_role = CR_ROOT | CR_COORDINATOR | CR_WORKER | CR_REVIEWER | CR_REPAIR

fun collaboration_role_value :: "collaboration_role \<Rightarrow> string" where
  "collaboration_role_value CR_ROOT = ''root''"
| "collaboration_role_value CR_COORDINATOR = ''coordinator''"
| "collaboration_role_value CR_WORKER = ''worker''"
| "collaboration_role_value CR_REVIEWER = ''reviewer''"
| "collaboration_role_value CR_REPAIR = ''repair''"

definition collaboration_role_of :: "string \<Rightarrow> collaboration_role result" where
  "collaboration_role_of = enum_of collaboration_role_value [CR_ROOT, CR_COORDINATOR, CR_WORKER, CR_REVIEWER, CR_REPAIR]"

lemma collaboration_role_of_value [simp]: "collaboration_role_of (collaboration_role_value r) = Inr r"
  by (cases r) (simp_all add: collaboration_role_of_def enum_of_def)

datatype review_decision = RD_ACCEPTED | RD_CHANGES_REQUESTED | RD_REJECTED

fun review_decision_value :: "review_decision \<Rightarrow> string" where
  "review_decision_value RD_ACCEPTED = ''accepted''"
| "review_decision_value RD_CHANGES_REQUESTED = ''changes_requested''"
| "review_decision_value RD_REJECTED = ''rejected''"

definition PUBLISHABLE_CHILD_RESULT_FIELDS :: "string list" where
  "PUBLISHABLE_CHILD_RESULT_FIELDS = [''summary'', ''result_ref'', ''artifact_refs'', ''evidence_refs'', ''limitations'']"

record collaboration_limits =
  cl_max_depth :: int
  cl_max_children_per_parent :: int
  cl_max_children :: int
  cl_max_budget :: pyfloat

definition collaboration_limits_check :: "collaboration_limits \<Rightarrow> collaboration_limits result" where
  \<comment> \<open>\<open>__post_init__\<close>\<close>
  "collaboration_limits_check l =
     raise_if (min (cl_max_depth l) (min (cl_max_children_per_parent l) (cl_max_children l)) < 1)
       (ValueError ''collaboration limits must be positive'')
     (raise_if (f_le (cl_max_budget l) (Fin 0)) (ValueError ''collaboration budget must be positive'') (Inr l))"

definition default_limits :: collaboration_limits where
  "default_limits = \<lparr>cl_max_depth = 4, cl_max_children_per_parent = 8, cl_max_children = 32, cl_max_budget = Fin 100\<rparr>"

record output_contract =
  oc_version :: string
  oc_required_fields :: "string list"
  oc_require_artifacts :: bool
  oc_require_evidence :: bool

definition output_contract_check :: "output_contract \<Rightarrow> output_contract result" where
  "output_contract_check c =
     (let unsupported = sort (remdups (filter (\<lambda>f. f \<notin> set PUBLISHABLE_CHILD_RESULT_FIELDS) (oc_required_fields c)))
      in raise_if (unsupported \<noteq> [])
           (ValueError (''unsupported Child Result fields: '' @ join '', '' unsupported)) (Inr c))"

definition default_output_contract :: output_contract where
  "default_output_contract = \<lparr>oc_version = ''1'', oc_required_fields = [''summary'', ''result_ref''],
     oc_require_artifacts = False, oc_require_evidence = False\<rparr>"

definition output_contract_dict :: "output_contract \<Rightarrow> payload" where
  "output_contract_dict c =
     [(''version'', PStr (oc_version c)), (''required_fields'', PList (map PStr (oc_required_fields c))),
      (''require_artifacts'', PBool (oc_require_artifacts c)), (''require_evidence'', PBool (oc_require_evidence c))]"

definition py_strs :: "pyval \<Rightarrow> string list result" where
  \<comment> \<open>\<open>tuple(str(item) for item in v)\<close>\<close>
  "py_strs v = rbind (py_list v) (\<lambda>xs. Inr (map py_str xs))"

lemma py_strs_PList [simp]: "py_strs (PList xs) = Inr (map py_str xs)"
  by (simp add: py_strs_def)

definition output_contract_from_dict :: "payload \<Rightarrow> output_contract result" where
  "output_contract_from_dict d =
     rbind (py_strs (dget d ''required_fields'' (PList []))) (\<lambda>fields.
     output_contract_check
       \<lparr>oc_version = py_str (dget d ''version'' (PStr ''1'')), oc_required_fields = fields,
        oc_require_artifacts = py_bool (dget d ''require_artifacts'' (PBool False)),
        oc_require_evidence = py_bool (dget d ''require_evidence'' (PBool False))\<rparr>)"

definition missing_fields :: "output_contract \<Rightarrow> payload \<Rightarrow> string list" where
  "missing_fields c res =
     filter (\<lambda>f. \<not> py_bool (pget res f)) (oc_required_fields c) @
     (if oc_require_artifacts c \<and> \<not> py_bool (pget res ''artifact_refs'') then [''artifact_refs''] else []) @
     (if oc_require_evidence c \<and> \<not> py_bool (pget res ''evidence_refs'') then [''evidence_refs''] else [])"

definition output_contract_validate :: "output_contract \<Rightarrow> payload \<Rightarrow> unit result" where
  "output_contract_validate c res =
     raise_if (missing_fields c res \<noteq> [])
       (ValueError (''result does not satisfy output contract: '' @ join '', '' (missing_fields c res))) (Inr ())"

record child_spec =
  cs_task_key :: string
  cs_role :: collaboration_role
  cs_goal :: string
  cs_output_contract :: output_contract
  cs_dependency_ids :: "string list"
  cs_input_refs :: "string list"
  cs_tool_permissions :: "string list"
  cs_budget :: pyfloat
  cs_runtime_budget :: payload
  cs_metadata :: payload

definition positive_limit :: "payload \<Rightarrow> string \<Rightarrow> unit result" where
  "positive_limit budget key =
     (case pget budget key of PNone \<Rightarrow> Inr ()
      | v \<Rightarrow> rbind (py_int v) (\<lambda>i. raise_if (i < 1) (ValueError (''child runtime '' @ key @ '' must be positive'')) (Inr ())))"

definition child_spec_check :: "child_spec \<Rightarrow> child_spec result" where
  "child_spec_check c =
     raise_if (strip (cs_task_key c) = [] \<or> strip (cs_goal c) = []) (ValueError ''child task_key and goal are required'')
     (raise_if (cs_role c = CR_ROOT) (ValueError ''a Child cannot use the root role'')
     (raise_if (f_le (cs_budget c) (Fin 0)) (ValueError ''child budget must be positive'')
     (rbind (positive_limit (cs_runtime_budget c) ''max_steps'') (\<lambda>_.
      rbind (positive_limit (cs_runtime_budget c) ''max_output_tokens'') (\<lambda>_.
      case pget (cs_runtime_budget c) ''max_cost'' of PNone \<Rightarrow> Inr c
      | v \<Rightarrow> rbind (py_float v) (\<lambda>m. raise_if (f_le m (Fin 0)) (ValueError ''child runtime max_cost must be positive'') (Inr c)))))))"

record child_result =
  ch_summary :: string
  ch_result_ref :: string
  ch_artifact_refs :: "string list"
  ch_evidence_refs :: "string list"
  ch_limitations :: "string list"

definition child_result_dict :: "child_result \<Rightarrow> payload" where
  "child_result_dict r =
     [(''summary'', PStr (ch_summary r)), (''result_ref'', PStr (ch_result_ref r)),
      (''artifact_refs'', PList (map PStr (ch_artifact_refs r))), (''evidence_refs'', PList (map PStr (ch_evidence_refs r))),
      (''limitations'', PList (map PStr (ch_limitations r)))]"

record review_result =
  rr_decision :: review_decision
  rr_evidence_refs :: "string list"
  rr_findings :: "string list"
  rr_repair_suggestions :: "string list"

definition review_result_check :: "review_result \<Rightarrow> review_result result" where
  "review_result_check r = raise_if (rr_evidence_refs r = []) (ValueError ''review decisions require evidence'') (Inr r)"

section \<open>The aggregate\<close>

record collaboration_node =
  cn_tenant_id :: string
  cn_session_id :: string
  cn_root_session_id :: string
  cn_parent_session_id :: "string option"
  cn_role :: collaboration_role
  cn_goal :: string
  cn_task_key :: string
  cn_output_contract :: output_contract
  cn_dependency_ids :: "string list"
  cn_input_refs :: "string list"
  cn_tool_permissions :: "string list"
  cn_metadata :: payload
  cn_owner :: "string option"
  cn_budget :: pyfloat
  cn_runtime_budget :: payload
  cn_status :: string
  cn_result :: "payload option"
  cn_target_session_id :: pyval
  cn_run_id :: "string option"

type_synonym nodes = "(string, collaboration_node) dict"

record collaboration =
  co_tenant_id :: string
  co_root_session_id :: string
  co_nodes :: nodes
  co_reviews :: "(string, payload) dict"
  co_joined_children :: "string list"

definition co_empty :: "string \<Rightarrow> string \<Rightarrow> collaboration" where
  "co_empty tenant root_sid =
     \<lparr>co_tenant_id = tenant, co_root_session_id = root_sid, co_nodes = [], co_reviews = [], co_joined_children = []\<rparr>"

subsection \<open>Which nodes may run\<close>

definition dependencies_satisfied :: "nodes \<Rightarrow> collaboration_node \<Rightarrow> bool" where
  "dependencies_satisfied ns n \<longleftrightarrow>
     list_all (\<lambda>d. case map_of ns d of None \<Rightarrow> True | Some m \<Rightarrow> cn_status m = ''completed'') (cn_dependency_ids n) \<and>
     length (cn_dependency_ids n) = length (filter (\<lambda>d. map_of ns d \<noteq> None) (cn_dependency_ids n))"

definition settled :: "collaboration_node \<Rightarrow> bool" where
  \<comment> \<open>the nodes that \<open>_refresh_runnable\<close> passes over\<close>
  "settled n \<longleftrightarrow> cn_role n = CR_ROOT \<or> cn_status n \<in> set [''running'', ''completed'', ''failed'', ''cancelled'']"

definition refresh_node :: "string \<Rightarrow> nodes \<Rightarrow> nodes" where
  "refresh_node k ns =
     (case map_of ns k of None \<Rightarrow> ns
      | Some n \<Rightarrow>
          if settled n then ns
          else AList.update k (n\<lparr>cn_status := if dependencies_satisfied ns n then ''runnable'' else ''blocked''\<rparr>) ns)"

definition refresh_runnable :: "collaboration \<Rightarrow> collaboration" where
  "refresh_runnable g = g\<lparr>co_nodes := fold refresh_node (dkeys (co_nodes g)) (co_nodes g)\<rparr>"

definition runnable :: "collaboration \<Rightarrow> collaboration_node list" where
  "runnable g = filter (\<lambda>n. cn_status n = ''runnable'') (map snd (co_nodes g))"

subsection \<open>Events\<close>

definition co_node :: "string \<Rightarrow> collaboration \<Rightarrow> collaboration_node result" where
  "co_node sid g =
     (case map_of (co_nodes g) sid of
        None \<Rightarrow> Inl (CollaborationValidationError (''unknown Child Session: '' @ sid)) | Some n \<Rightarrow> Inr n)"

definition set_node :: "string \<Rightarrow> collaboration_node \<Rightarrow> collaboration \<Rightarrow> collaboration" where
  "set_node sid n g = g\<lparr>co_nodes := AList.update sid n (co_nodes g)\<rparr>"

definition root_created :: "canonical_event \<Rightarrow> collaboration \<Rightarrow> collaboration result" where
  "root_created e g =
     rbind (pitem (ce_payload e) ''goal'') (\<lambda>goal.
     Inr (set_node (ce_session_id e)
       \<lparr>cn_tenant_id = ce_tenant_id e, cn_session_id = ce_session_id e, cn_root_session_id = ce_root_session_id e,
        cn_parent_session_id = None, cn_role = CR_ROOT, cn_goal = py_str goal, cn_task_key = ''root'',
        cn_output_contract = default_output_contract, cn_dependency_ids = [], cn_input_refs = [], cn_tool_permissions = [],
        cn_metadata = [], cn_owner = None, cn_budget = Fin 0, cn_runtime_budget = [], cn_status = ''pending'',
        cn_result = None, cn_target_session_id = PNone, cn_run_id = None\<rparr> g))"

definition child_created :: "canonical_event \<Rightarrow> collaboration \<Rightarrow> collaboration result" where
  "child_created e g =
     (let p = ce_payload e in
      rbind (pitem p ''parent_session_id'') (\<lambda>parent.
      rbind (pitem p ''role'') (\<lambda>r. rbind (collaboration_role_of (py_str r)) (\<lambda>role.
      rbind (pitem p ''goal'') (\<lambda>goal.
      rbind (pitem p ''task_key'') (\<lambda>key.
      rbind (pitem p ''output_contract'') (\<lambda>oc. rbind (py_dict oc) (\<lambda>ocd. rbind (output_contract_from_dict ocd) (\<lambda>contract.
      rbind (py_strs (dget p ''dependency_ids'' (PList []))) (\<lambda>deps.
      rbind (py_strs (dget p ''input_refs'' (PList []))) (\<lambda>inputs.
      rbind (py_strs (dget p ''tool_permissions'' (PList []))) (\<lambda>tools.
      rbind (py_dict (dget p ''metadata'' (PDict []))) (\<lambda>metadata.
      rbind (py_float (dget p ''budget'' (PFloat (Fin 1)))) (\<lambda>budget.
      rbind (py_dict (dget p ''runtime_budget'' (PDict []))) (\<lambda>runtime.
      Inr (refresh_runnable (set_node (ce_session_id e)
        \<lparr>cn_tenant_id = ce_tenant_id e, cn_session_id = ce_session_id e, cn_root_session_id = ce_root_session_id e,
         cn_parent_session_id = Some (py_str parent), cn_role = role, cn_goal = py_str goal, cn_task_key = py_str key,
         cn_output_contract = contract, cn_dependency_ids = deps, cn_input_refs = inputs, cn_tool_permissions = tools,
         cn_metadata = metadata, cn_owner = None, cn_budget = budget, cn_runtime_budget = runtime, cn_status = ''blocked'',
         cn_result = None, cn_target_session_id = pget p ''target_session_id'', cn_run_id = None\<rparr> g)))))))))))))))))"

definition dependency_changed :: "canonical_event \<Rightarrow> collaboration \<Rightarrow> collaboration result" where
  "dependency_changed e g =
     rbind (co_node (ce_session_id e) g) (\<lambda>n.
     rbind (pitem (ce_payload e) ''dependency_ids'') (\<lambda>v. rbind (py_strs v) (\<lambda>deps.
     Inr (refresh_runnable (set_node (ce_session_id e) (n\<lparr>cn_dependency_ids := deps\<rparr>) g)))))"

definition owner_set :: "canonical_event \<Rightarrow> collaboration \<Rightarrow> collaboration result" where
  "owner_set e g =
     rbind (co_node (ce_session_id e) g) (\<lambda>n.
     rbind (pitem (ce_payload e) ''owner'') (\<lambda>v.
     let n' = n\<lparr>cn_owner := Some (py_str v)\<rparr>; g' = set_node (ce_session_id e) n' g in
     Inr (if cn_status n' = ''blocked'' \<and> dependencies_satisfied (co_nodes g') n'
          then set_node (ce_session_id e) (n'\<lparr>cn_status := ''runnable''\<rparr>) g' else g')))"

definition result_published :: "canonical_event \<Rightarrow> collaboration \<Rightarrow> collaboration result" where
  "result_published e g =
     rbind (co_node (ce_session_id e) g) (\<lambda>n.
     Inr (refresh_runnable (set_node (ce_session_id e)
       (n\<lparr>cn_result := Some (ce_payload e), cn_status := ''completed''\<rparr>) g)))"

definition review_completed :: "canonical_event \<Rightarrow> collaboration \<Rightarrow> collaboration result" where
  "review_completed e g =
     (let review = AList.update ''review_session_id'' (PStr (ce_session_id e)) (ce_payload e);
          g' = g\<lparr>co_reviews := AList.update (ce_session_id e) review (co_reviews g)\<rparr>
      in rbind (co_node (ce_session_id e) g') (\<lambda>n.
         Inr (refresh_runnable (set_node (ce_session_id e)
           (n\<lparr>cn_status := ''completed'', cn_result := Some review\<rparr>) g'))))"

definition status_set :: "string \<Rightarrow> canonical_event \<Rightarrow> collaboration \<Rightarrow> collaboration" where
  "status_set status e g =
     (case map_of (co_nodes g) (ce_session_id e) of None \<Rightarrow> g
      | Some n \<Rightarrow> set_node (ce_session_id e) (n\<lparr>cn_status := status\<rparr>) g)"

definition co_apply :: "canonical_event \<Rightarrow> collaboration \<Rightarrow> collaboration result" where
  "co_apply e g =
     (let ty = ce_type e; known = map_of (co_nodes g) (ce_session_id e) \<noteq> None in
      if ty = ''session.created'' \<and> ce_session_id e = co_root_session_id g then root_created e g
      else if ty = ''child.created'' then child_created e g
      else if ty = ''dependency.changed'' then dependency_changed e g
      else if ty = ''run.requested'' \<and> known
      then rbind (pitem (ce_payload e) ''run_id'') (\<lambda>v. rbind (co_node (ce_session_id e) g) (\<lambda>n.
             Inr (set_node (ce_session_id e) (n\<lparr>cn_run_id := Some (py_str v)\<rparr>) g)))
      else if ty = ''child.delegated'' \<or> ty = ''session.handed_off'' then owner_set e g
      else if ty = ''run.started'' \<and> known then Inr (status_set ''running'' e g)
      else if ty = ''child.result_published'' then result_published e g
      else if ty = ''review.completed'' then review_completed e g
      else if ty = ''join.completed''
      then rbind (pitem (ce_payload e) ''child_session_ids'') (\<lambda>v. rbind (py_strs v) (\<lambda>cs.
             Inr (g\<lparr>co_joined_children := cs\<rparr>)))
      else if ty = ''run.cancelled'' \<and> known then Inr (refresh_runnable (status_set ''cancelled'' e g))
      else if ty = ''run.failed'' \<and> known then Inr (refresh_runnable (status_set ''failed'' e g))
      else Inr g)"

definition co_from_events :: "string \<Rightarrow> string \<Rightarrow> canonical_event list \<Rightarrow> collaboration result" where
  "co_from_events tenant root_sid events =
     rfold co_apply
       (sort_key (\<lambda>e. (ce_occurred_at e, ce_session_id e, ce_version e))
         (filter (\<lambda>e. ce_tenant_id e = tenant \<and> ce_root_session_id e = root_sid) events))
       (co_empty tenant root_sid)"

subsection \<open>The dependency graph is acyclic\<close>

type_synonym dependency_graph = "(string, string list) dict"

definition dependency_graph :: "nodes \<Rightarrow> string \<Rightarrow> string list \<Rightarrow> dependency_graph" where
  "dependency_graph ns child deps = AList.update child deps (map (\<lambda>(k, n). (k, cn_dependency_ids n)) ns)"

lemma known_step:
  assumes "sid \<notin> visiting" "dget (graph :: dependency_graph) sid [] \<noteq> []"
  shows "card (set (dkeys graph) - insert sid visiting) < card (set (dkeys graph) - visiting)"
proof (rule psubset_card_mono)
  have "sid \<in> set (dkeys graph)"
    using assms(2) by (auto simp: dget_def dest: map_of_SomeD split: option.splits intro: rev_image_eqI)
  then show "set (dkeys graph) - insert sid visiting \<subset> set (dkeys graph) - visiting" using assms(1) by blast
qed simp

function visit :: "dependency_graph \<Rightarrow> string set \<Rightarrow> string \<Rightarrow> string set \<Rightarrow> string set result"
  and visit_all :: "dependency_graph \<Rightarrow> string set \<Rightarrow> string list \<Rightarrow> string set \<Rightarrow> string set result" where
  "visit graph visiting sid visited =
     (if sid \<in> visiting then Inl (CollaborationValidationError ''Task DAG must be acyclic'')
      else if sid \<in> visited then Inr visited
      else rbind (visit_all graph (insert sid visiting) (dget graph sid []) visited) (\<lambda>visited'.
           Inr (insert sid visited')))"
| "visit_all graph visiting [] visited = Inr visited"
| "visit_all graph visiting (sid # sids) visited =
     rbind (visit graph visiting sid visited) (visit_all graph visiting sids)"
  by pat_completeness auto

termination
proof (relation "measures
    [\<lambda>x. case x of Inl (graph, visiting, _) \<Rightarrow> card (set (dkeys graph) - visiting)
           | Inr (graph, visiting, _) \<Rightarrow> card (set (dkeys graph) - visiting),
     \<lambda>x. case x of Inl _ \<Rightarrow> 1 | Inr (_, _, sids, _) \<Rightarrow> 2 * length sids]", goal_cases)
  case (2 graph visiting sid visited)
  have "card (set (dkeys graph) - insert sid visiting) \<le> card (set (dkeys graph) - visiting)"
    by (rule card_mono) auto
  then show ?case using known_step [OF 2(1), of graph] by (cases "dget graph sid [] = []") auto
qed auto

definition validate_dependencies :: "string \<Rightarrow> string list \<Rightarrow> collaboration \<Rightarrow> unit result" where
  "validate_dependencies child deps g =
     raise_if (child \<in> set deps) (CollaborationValidationError ''a Child cannot depend on itself'')
     (raise_if (filter (\<lambda>d. map_of (co_nodes g) d = None) deps \<noteq> [])
        (CollaborationValidationError ''dependencies must belong to the same Root and tenant'')
     (let graph = dependency_graph (co_nodes g) child deps in
      rbind (visit_all graph {} (dkeys graph) {}) (\<lambda>_. Inr ())))"

subsection \<open>New children\<close>

partial_function (option) depth_loop :: "nodes \<Rightarrow> string option \<Rightarrow> int \<Rightarrow> int result option" where
  [code]: "depth_loop ns parent d =
     (case parent of None \<Rightarrow> Some (Inr d)
      | Some p \<Rightarrow> (case map_of ns p of None \<Rightarrow> Some (Inl (KeyError p))
                   | Some n \<Rightarrow> depth_loop ns (cn_parent_session_id n) (d + 1)))"

definition co_depth :: "string \<Rightarrow> collaboration \<Rightarrow> int result option" where
  "co_depth sid g =
     (case map_of (co_nodes g) sid of None \<Rightarrow> Some (Inl (KeyError sid))
      | Some n \<Rightarrow> depth_loop (co_nodes g) (cn_parent_session_id n) 0)"

definition co_children :: "collaboration \<Rightarrow> collaboration_node list" where
  "co_children g = filter (\<lambda>n. cn_parent_session_id n \<noteq> None) (map snd (co_nodes g))"

definition validate_new_child ::
  "string \<Rightarrow> string \<Rightarrow> child_spec \<Rightarrow> collaboration_limits \<Rightarrow> collaboration \<Rightarrow> unit result option" where
  "validate_new_child parent child spec limits g =
     (let ns = co_nodes g; children = co_children g in
      case raise_if (ns = [] \<or> map_of ns (co_root_session_id g) = None)
             (CollaborationValidationError ''Root Session does not exist'')
           (raise_if (map_of ns parent = None)
             (CollaborationValidationError ''parent must belong to the same Root and tenant'')
           (raise_if (map_of ns child \<noteq> None) (CollaborationValidationError ''Child Session already exists'')
           (raise_if (list_ex (\<lambda>n. cn_task_key n = cs_task_key spec) (map snd ns))
             (CollaborationValidationError (''duplicate child task_key: '' @ cs_task_key spec))
           (raise_if (cl_max_children limits \<le> int (length children))
             (CollaborationValidationError ''root child count limit exceeded'')
           (raise_if (cl_max_children_per_parent limits \<le>
               int (length (filter (\<lambda>n. cn_parent_session_id n = Some parent) children)))
             (CollaborationValidationError ''parent child width limit exceeded'') (Inr ())))))) of
        Inl e \<Rightarrow> Some (Inl e)
      | Inr _ \<Rightarrow>
          (case co_depth parent g of None \<Rightarrow> None
           | Some r \<Rightarrow> Some (rbind r (\<lambda>d.
               raise_if (cl_max_depth limits < d + 1) (CollaborationValidationError ''child depth limit exceeded'')
               (raise_if (f_lt (cl_max_budget limits) (f_add (f_sum (map cn_budget children)) (cs_budget spec)))
                  (CollaborationValidationError ''root collaboration budget exceeded'')
               (validate_dependencies child (cs_dependency_ids spec) g))))))"

definition staged_node :: "string \<Rightarrow> string \<Rightarrow> child_spec \<Rightarrow> collaboration \<Rightarrow> collaboration_node" where
  "staged_node parent child spec g =
     \<lparr>cn_tenant_id = co_tenant_id g, cn_session_id = child, cn_root_session_id = co_root_session_id g,
      cn_parent_session_id = Some parent, cn_role = cs_role spec, cn_goal = cs_goal spec, cn_task_key = cs_task_key spec,
      cn_output_contract = cs_output_contract spec, cn_dependency_ids = cs_dependency_ids spec,
      cn_input_refs = cs_input_refs spec, cn_tool_permissions = cs_tool_permissions spec, cn_metadata = cs_metadata spec,
      cn_owner = None, cn_budget = cs_budget spec, cn_runtime_budget = cs_runtime_budget spec, cn_status = ''blocked'',
      cn_result = None, cn_target_session_id = pget (cs_metadata spec) ''target_session_id'', cn_run_id = None\<rparr>"

definition stage_new_child ::
  "string \<Rightarrow> string \<Rightarrow> child_spec \<Rightarrow> collaboration_limits \<Rightarrow> collaboration \<Rightarrow> collaboration result option" where
  "stage_new_child parent child spec limits g =
     map_option (\<lambda>r. rbind r (\<lambda>_. Inr (refresh_runnable (set_node child (staged_node parent child spec g) g))))
       (validate_new_child parent child spec limits g)"

subsection \<open>Joining\<close>

definition joinable_child :: "collaboration \<Rightarrow> string \<Rightarrow> unit result" where
  "joinable_child g sid =
     (case map_of (co_nodes g) sid of
        None \<Rightarrow> Inl (CollaborationValidationError ''join Child is outside this Root'')
      | Some n \<Rightarrow>
          raise_if (cn_root_session_id n \<noteq> co_root_session_id g)
            (CollaborationValidationError ''join Child is outside this Root'')
          (raise_if (cn_status n \<noteq> ''completed'' \<or> cn_result n = None)
             (CollaborationValidationError (''Child is not completed: '' @ sid))
          (raise_if (cn_role n = CR_REVIEWER \<and> pget (the (cn_result n)) ''decision'' \<noteq> PStr (review_decision_value RD_ACCEPTED))
             (CollaborationValidationError (''review is not accepted: '' @ sid)) (Inr ()))))"

definition require_joinable :: "string list \<Rightarrow> collaboration \<Rightarrow> unit result" where
  "require_joinable sids g =
     raise_if (sids = []) (CollaborationValidationError ''join requires at least one Child'')
     (rbind (rmap (joinable_child g) sids) (\<lambda>_. Inr ()))"

end
