(* ===== verification/Py_Uuid.thy ===== *)
theory Py_Uuid
  imports Py_Json
begin

unbundle bit_operations_syntax

text \<open>
  Name-based UUIDs: \<open>uuid.uuid5\<close> of the Python library over SHA-1, as far as the identifiers of child
  Sessions need it.
\<close>

section \<open>SHA-1\<close>

definition rotl :: "nat \<Rightarrow> 32 word \<Rightarrow> 32 word" where
  "rotl n w = (push_bit n w OR drop_bit (32 - n) w)"

fun sha1_schedule :: "nat \<Rightarrow> 32 word list \<Rightarrow> 32 word list" where
  \<comment> \<open>extend the schedule by \<open>n\<close> words; the newest word is the first of the list\<close>
  "sha1_schedule 0 w = w"
| "sha1_schedule (Suc n) w = sha1_schedule n (rotl 1 (w ! 2 XOR w ! 7 XOR w ! 13 XOR w ! 15) # w)"

definition sha1_mix :: "nat \<Rightarrow> 32 word \<Rightarrow> 32 word \<Rightarrow> 32 word \<Rightarrow> 32 word" where
  \<comment> \<open>the function and the constant of round \<open>t\<close>\<close>
  "sha1_mix t x y z =
     (if t < 20 then ((x AND y) OR (NOT x AND z)) + 0x5a827999
      else if t < 40 then (x XOR y XOR z) + 0x6ed9eba1
      else if t < 60 then ((x AND y) OR (x AND z) OR (y AND z)) + 0x8f1bbcdc
      else (x XOR y XOR z) + 0xca62c1d6)"

fun sha1_rounds :: "nat \<Rightarrow> 32 word list \<Rightarrow> 32 word list \<Rightarrow> 32 word list" where
  "sha1_rounds t (w # ws) [a, b, c, d, e] =
     sha1_rounds (Suc t) ws [rotl 5 a + sha1_mix t b c d + e + w, a, rotl 30 b, c, d]"
| "sha1_rounds t ws st = st"

function sha1_blocks :: "32 word list \<Rightarrow> 32 word list \<Rightarrow> 32 word list" where
  "sha1_blocks ws st =
     (if length ws < 16 then st
      else sha1_blocks (drop 16 ws) (map2 (+) st (sha1_rounds 0 (rev (sha1_schedule 64 (rev (take 16 ws)))) st)))"
  by pat_completeness auto
termination by (relation "measure (length \<circ> fst)") auto

declare sha1_blocks.simps [simp del]

definition sha1_H0 :: "32 word list" where
  "sha1_H0 = [0x67452301, 0xefcdab89, 0x98badcfe, 0x10325476, 0xc3d2e1f0]"

definition sha1_digest :: "nat list \<Rightarrow> nat list" where
  \<comment> \<open>\<open>hashlib.sha1(m).digest()\<close>; the padding is that of SHA-256\<close>
  "sha1_digest m = concat (map (\<lambda>w. be_bytes 4 (unat w)) (sha1_blocks (words_of (sha256_pad m)) sha1_H0))"

section \<open>UUIDs\<close>

definition NAMESPACE_URL :: "nat list" where
  \<comment> \<open>\<open>6ba7b811-9dad-11d1-80b4-00c04fd430c8\<close>\<close>
  "NAMESPACE_URL = [0x6b, 0xa7, 0xb8, 0x11, 0x9d, 0xad, 0x11, 0xd1, 0x80, 0xb4, 0x00, 0xc0, 0x4f, 0xd4, 0x30, 0xc8]"

definition hex_byte :: "nat \<Rightarrow> string" where
  "hex_byte b = [hex_digit (b div 16), hex_digit (b mod 16)]"

definition uuid5_hex :: "nat list \<Rightarrow> string \<Rightarrow> string" where
  \<comment> \<open>\<open>uuid5(namespace, name).hex\<close>: version 5, variant of RFC 4122\<close>
  "uuid5_hex ns name =
     (let h = take 16 (sha1_digest (ns @ utf8 name));
          bytes = h[6 := h ! 6 mod 16 + 80, 8 := h ! 8 mod 64 + 128]
      in concat (map hex_byte bytes))"

end
