(* ===== verification/Collaboration_Service.thy ===== *)
theory Collaboration_Service
  imports Collaboration Task_Service Py_Uuid
begin

text \<open>
  The collaboration service (\<open>session/collaboration_service.py\<close>): the commands of coordinators, workers
  and reviewers on the graph of a root Session, and the plans of \<open>contracts/routing.py\<close> that are submitted
  as one transaction. Each command rebuilds the graph from the events of the root, checks the actor and
  the graph, and appends its events.

  Plans and their steps are pydantic models; the JSON of a step (\<open>model_dump\<close>), which enters the digest of
  a plan, is a port. A command that looks for a place of a new child follows the parents of a node and
  returns an option: \<open>None\<close> stands for a chain of parents that never ends.
\<close>

section \<open>Plans\<close>

datatype route_kind = RK_DIRECT_ANSWER | RK_SINGLE_CAPABILITY | RK_SEQUENTIAL_PLAN | RK_COORDINATOR_DAG | RK_CLARIFY | RK_FALLBACK

fun route_kind_value :: "route_kind \<Rightarrow> string" where
  "route_kind_value RK_DIRECT_ANSWER = ''direct_answer''"
| "route_kind_value RK_SINGLE_CAPABILITY = ''single_capability''"
| "route_kind_value RK_SEQUENTIAL_PLAN = ''sequential_plan''"
| "route_kind_value RK_COORDINATOR_DAG = ''coordinator_dag''"
| "route_kind_value RK_CLARIFY = ''clarify''"
| "route_kind_value RK_FALLBACK = ''fallback''"

datatype plan_risk_class = PR_LOW | PR_MEDIUM | PR_HIGH | PR_CRITICAL

fun plan_risk_class_value :: "plan_risk_class \<Rightarrow> string" where
  "plan_risk_class_value PR_LOW = ''low''"
| "plan_risk_class_value PR_MEDIUM = ''medium''"
| "plan_risk_class_value PR_HIGH = ''high''"
| "plan_risk_class_value PR_CRITICAL = ''critical''"

record route_target =
  rt_kind :: string
  rt_name :: string
  rt_permission :: "string option"
  rt_publisher :: "string option"
  rt_version :: string
  rt_capability_id :: "string option"
  rt_binding_id :: "string option"
  rt_server_id :: "string option"
  rt_config_revision :: "int option"
  rt_content_digest :: "string option"

record plan_output_contract =
  po_result_kind :: string
  po_required_fields :: "string list"
  po_require_artifacts :: bool
  po_require_evidence :: bool

record plan_assignment =
  pa_execution_scope :: string
  pa_role :: string
  pa_profile_id :: "string option"
  pa_model :: "string option"
  pa_harness :: "string option"

record plan_budget =
  pb_fraction :: pyfloat
  pb_max_steps :: "int option"
  pb_max_output_tokens :: "int option"
  pb_max_cost :: "pyfloat option"

record routing_plan_step =
  rs_task_key :: string
  rs_goal :: string
  rs_dependencies :: "string list"
  rs_input_refs :: "string list"
  rs_output_contract :: plan_output_contract
  rs_assignment :: plan_assignment
  rs_budget :: plan_budget
  rs_capability :: "route_target option"
  rs_parallel_group :: "string option"
  rs_risk_class :: plan_risk_class
  rs_requires_review :: bool

record routing_plan =
  rp_route_kind :: route_kind
  rp_success_criteria :: "string list"
  rp_constraints :: "string list"
  rp_risk_class :: plan_risk_class
  rp_steps :: "routing_plan_step list"
  rp_plan_digest :: string

definition PLAN_VERSION :: string where
  "PLAN_VERSION = ''bounded-plan-v1''"

definition routing_digest :: "pyval \<Rightarrow> string" where
  "routing_digest v = ''sha256:'' @ sha256_hex (json_dumps json_compact v)"

definition plan_content :: "(routing_plan_step \<Rightarrow> pyval) \<Rightarrow> routing_plan \<Rightarrow> payload" where
  "plan_content dump p =
     [(''plan_version'', PStr PLAN_VERSION), (''route_kind'', PStr (route_kind_value (rp_route_kind p))),
      (''success_criteria'', PList (map PStr (rp_success_criteria p))), (''constraints'', PList (map PStr (rp_constraints p))),
      (''risk_class'', PStr (plan_risk_class_value (rp_risk_class p))), (''steps'', PList (map dump (rp_steps p)))]"

definition routing_plan_create :: "(routing_plan_step \<Rightarrow> pyval) \<Rightarrow> routing_plan \<Rightarrow> routing_plan" where
  \<comment> \<open>\<open>RoutingPlan.create\<close> of the fields of a plan\<close>
  "routing_plan_create dump p = p\<lparr>rp_plan_digest := routing_digest (PDict (plan_content dump p))\<rparr>"

section \<open>Ports and helpers\<close>

record 'p co_ports =
  cp_codec :: approval_codec
  cp_limits :: collaboration_limits
  cp_relay_once :: "'p world \<Rightarrow> 'p world"
  cp_step_dump :: "routing_plan_step \<Rightarrow> pyval"

definition service_graph :: "event_store \<Rightarrow> string \<Rightarrow> string \<Rightarrow> collaboration result" where
  "service_graph s tenant root_sid = co_from_events tenant root_sid (es_load_root s tenant root_sid None None)"

definition require_coordinator :: "command_context \<Rightarrow> unit result" where
  "require_coordinator ctx =
     raise_if (actor_type (cc_actor ctx) \<noteq> ''coordinator'')
       (AuthorizationError ''only a Coordinator can change the Task DAG'') (Inr ())"

definition require_child :: "collaboration \<Rightarrow> string \<Rightarrow> collaboration_node result" where
  "require_child g sid =
     (let err = Inl (CollaborationValidationError ''Child must belong to the same Root and tenant'') in
      case map_of (co_nodes g) sid of None \<Rightarrow> err | Some n \<Rightarrow> if cn_role n = CR_ROOT then err else Inr n)"

definition child_id :: "string \<Rightarrow> string \<Rightarrow> string \<Rightarrow> string" where
  "child_id tenant root_sid key =
     ''ses_'' @ uuid5_hex NAMESPACE_URL (''auraclaw:'' @ tenant @ '':'' @ root_sid @ '':'' @ key)"

definition same_child_budget :: "payload \<Rightarrow> payload \<Rightarrow> bool" where
  "same_child_budget stored requested =
     (if pget stored ''policy_version'' \<noteq> PStr ''2'' then py_eq (PDict stored) (PDict requested)
      else py_eq (PDict (filter (\<lambda>(k, _). k \<notin> {''policy_version'', ''scope_id''}) stored))
             (PDict (dmerge [(''max_steps'', PInt 48), (''max_output_tokens'', PInt 8192)] requested)))"

definition inherited_approval :: "'p co_ports \<Rightarrow> session_aggregate \<Rightarrow> pyval" where
  "inherited_approval P a = ac_dump (cp_codec P) ((sa_approval a)\<lparr>approval_mode_source := Src_inherited\<rparr>)"

definition event_of :: "visibility \<Rightarrow> string \<Rightarrow> payload \<Rightarrow> new_event" where
  "event_of vis ty p = \<lparr>ne_type = ty, ne_payload = p, ne_visibility = vis\<rparr>"

definition co_store ::
  "'p co_ports \<Rightarrow> string \<Rightarrow> string \<Rightarrow> string option \<Rightarrow> command_context \<Rightarrow> new_event list \<Rightarrow> payload \<Rightarrow> stamps \<Rightarrow> 'p world \<Rightarrow>
   'p world \<times> payload result" where
  \<comment> \<open>append, let the relay run, return the recorded result\<close>
  "co_store P root_sid sid run ctx events response stamp w =
     (case es_append root_sid sid run ctx events response stamp (w_store w) of
        (s', Inl e) \<Rightarrow> (w\<lparr>w_store := s'\<rparr>, Inl e)
      | (s', Inr res) \<Rightarrow> (cp_relay_once P (w\<lparr>w_store := s'\<rparr>), Inr (ar_command_result res)))"

definition co_append ::
  "'p co_ports \<Rightarrow> collaboration \<Rightarrow> string \<Rightarrow> command_context \<Rightarrow> new_event list \<Rightarrow> payload \<Rightarrow> stamps \<Rightarrow> 'p world \<Rightarrow>
   'p world \<times> payload result" where
  \<comment> \<open>\<open>_append\<close>\<close>
  "co_append P g sid ctx events response stamp w =
     (case map_of (co_nodes g) sid of
        None \<Rightarrow> (w, Inl (KeyError sid))
      | Some n \<Rightarrow> co_store P (co_root_session_id g) sid (cn_run_id n) ctx events response stamp w)"

section \<open>Children\<close>

definition child_payload :: "string \<Rightarrow> string \<Rightarrow> child_spec \<Rightarrow> pyval \<Rightarrow> payload" where
  "child_payload root_sid parent spec inherited =
     [(''approval'', inherited), (''task_key'', PStr (cs_task_key spec)), (''root_session_id'', PStr root_sid),
      (''parent_session_id'', PStr parent), (''role'', PStr (collaboration_role_value (cs_role spec))),
      (''goal'', PStr (cs_goal spec)), (''input_refs'', PList (map PStr (cs_input_refs spec))),
      (''output_contract'', PDict (output_contract_dict (cs_output_contract spec))),
      (''dependency_ids'', PList (map PStr (cs_dependency_ids spec))),
      (''tool_permissions'', PList (map PStr (cs_tool_permissions spec))), (''budget'', PFloat (cs_budget spec)),
      (''runtime_budget'', PDict (cs_runtime_budget spec)),
      (''target_session_id'', pget (cs_metadata spec) ''target_session_id''), (''metadata'', PDict (cs_metadata spec))]"

definition child_run_id :: "string \<Rightarrow> string" where
  "child_run_id child = ''run_'' @ drop 4 child"

definition child_events :: "string \<Rightarrow> payload \<Rightarrow> pyval \<Rightarrow> new_event list" where
  "child_events child payload inherited =
     [event_of V_INTERNAL ''child.created'' payload,
      event_of V_INTERNAL ''run.requested'' [(''run_id'', PStr (child_run_id child)), (''approval'', inherited)]]"

definition same_spec :: "string \<Rightarrow> child_spec \<Rightarrow> collaboration_node \<Rightarrow> bool" where
  "same_spec parent spec n \<longleftrightarrow>
     cn_parent_session_id n = Some parent \<and> cn_role n = cs_role spec \<and> cn_goal n = cs_goal spec \<and>
     cn_output_contract n = cs_output_contract spec \<and> cn_dependency_ids n = cs_dependency_ids spec \<and>
     f_eq (cn_budget n) (cs_budget spec) \<and> same_child_budget (cn_runtime_budget n) (cs_runtime_budget spec)"

definition existing_child :: "string \<Rightarrow> string \<Rightarrow> string \<Rightarrow> child_spec \<Rightarrow> collaboration_node \<Rightarrow> payload result" where
  \<comment> \<open>the answer to a repeated creation\<close>
  "existing_child root_sid parent child spec n =
     raise_if (\<not> same_spec parent spec n)
       (CollaborationValidationError ''existing child task_key was reused with a different specification'')
     (Inr [(''session_id'', PStr child), (''root_session_id'', PStr root_sid),
           (''parent_session_id'', opt_str (cn_parent_session_id n)),
           (''role'', PStr (collaboration_role_value (cn_role n))), (''status'', PStr (cn_status n))])"

definition initial_status :: "child_spec \<Rightarrow> pyval" where
  "initial_status spec = PStr (if cs_dependency_ids spec = [] then ''runnable'' else ''blocked'')"

definition create_child ::
  "'p co_ports \<Rightarrow> string \<Rightarrow> string \<Rightarrow> child_spec \<Rightarrow> command_context \<Rightarrow> stamps \<Rightarrow> 'p world \<Rightarrow> ('p world \<times> payload result) option" where
  "create_child P root_sid parent spec ctx stamp w =
     (let tenant = cc_tenant_id ctx; child = child_id tenant root_sid (cs_task_key spec) in
      case rbind (require_coordinator ctx) (\<lambda>_. service_graph (w_store w) tenant root_sid) of
        Inl e \<Rightarrow> Some (w, Inl e)
      | Inr g \<Rightarrow>
          (case filter (\<lambda>n. cn_task_key n = cs_task_key spec) (case map_of (co_nodes g) child of None \<Rightarrow> [] | Some n \<Rightarrow> [n]) of
             n # _ \<Rightarrow> Some (w, existing_child root_sid parent child spec n)
           | [] \<Rightarrow>
               map_option (\<lambda>r.
                 case rbind r (\<lambda>_. sa_from_events (cp_codec P) (es_load (w_store w) tenant parent 1 None None)) of
                   Inl e \<Rightarrow> (w, Inl e)
                 | Inr a \<Rightarrow>
                     let inherited = inherited_approval P a in
                     co_store P root_sid child None ctx
                       (child_events child (child_payload root_sid parent spec inherited) inherited)
                       [(''session_id'', PStr child), (''root_session_id'', PStr root_sid), (''parent_session_id'', PStr parent),
                        (''role'', PStr (collaboration_role_value (cs_role spec))), (''status'', initial_status spec)] stamp w)
               (validate_new_child parent child spec (cp_limits P) g)))"

definition set_dependencies ::
  "'p co_ports \<Rightarrow> string \<Rightarrow> string \<Rightarrow> string list \<Rightarrow> command_context \<Rightarrow> stamps \<Rightarrow> 'p world \<Rightarrow> 'p world \<times> payload result" where
  "set_dependencies P root_sid child deps ctx stamp w =
     (case rbind (require_coordinator ctx) (\<lambda>_. rbind (service_graph (w_store w) (cc_tenant_id ctx) root_sid) (\<lambda>g.
           rbind (require_child g child) (\<lambda>_. rbind (validate_dependencies child deps g) (\<lambda>_. Inr g)))) of
        Inl e \<Rightarrow> (w, Inl e)
      | Inr g \<Rightarrow>
          co_append P g child ctx [event_of V_INTERNAL ''dependency.changed'' [(''dependency_ids'', PList (map PStr deps))]]
            [(''session_id'', PStr child), (''dependency_ids'', PList (map PStr deps))] stamp w)"

definition delegate ::
  "'p co_ports \<Rightarrow> string \<Rightarrow> string \<Rightarrow> string \<Rightarrow> command_context \<Rightarrow> stamps \<Rightarrow> 'p world \<Rightarrow> 'p world \<times> payload result" where
  "delegate P root_sid child owner ctx stamp w =
     (case rbind (require_coordinator ctx) (\<lambda>_. rbind (service_graph (w_store w) (cc_tenant_id ctx) root_sid) (\<lambda>g.
           rbind (require_child g child) (\<lambda>_.
           raise_if (strip owner = []) (CollaborationValidationError ''delegate owner is required'') (Inr g)))) of
        Inl e \<Rightarrow> (w, Inl e)
      | Inr g \<Rightarrow>
          co_append P g child ctx [event_of V_INTERNAL ''child.delegated'' [(''owner'', PStr owner)]]
            [(''session_id'', PStr child), (''owner'', PStr owner)] stamp w)"

definition handoff ::
  "'p co_ports \<Rightarrow> string \<Rightarrow> string \<Rightarrow> string \<Rightarrow> string \<Rightarrow> command_context \<Rightarrow> stamps \<Rightarrow> 'p world \<Rightarrow> 'p world \<times> payload result" where
  "handoff P root_sid child owner reason ctx stamp w =
     (case rbind (require_coordinator ctx) (\<lambda>_. rbind (service_graph (w_store w) (cc_tenant_id ctx) root_sid) (\<lambda>g.
           rbind (require_child g child) (\<lambda>n.
           raise_if (strip owner = []) (CollaborationValidationError ''handoff owner is required'') (Inr (g, n))))) of
        Inl e \<Rightarrow> (w, Inl e)
      | Inr (g, n) \<Rightarrow>
          co_append P g child ctx [event_of V_INTERNAL ''session.handed_off''
              [(''previous_owner'', opt_str (cn_owner n)), (''owner'', PStr owner), (''reason'', PStr reason)]]
            [(''session_id'', PStr child), (''owner'', PStr owner)] stamp w)"

definition cancel_child ::
  "'p co_ports \<Rightarrow> string \<Rightarrow> string \<Rightarrow> string \<Rightarrow> command_context \<Rightarrow> stamps \<Rightarrow> 'p world \<Rightarrow> 'p world \<times> payload result" where
  "cancel_child P root_sid child reason ctx stamp w =
     (case rbind (require_coordinator ctx) (\<lambda>_. rbind (service_graph (w_store w) (cc_tenant_id ctx) root_sid) (\<lambda>g.
           rbind (require_child g child) (\<lambda>n. Inr (g, n)))) of
        Inl e \<Rightarrow> (w, Inl e)
      | Inr (g, n) \<Rightarrow>
          if cn_status n = ''completed'' \<or> cn_status n = ''cancelled''
          then (w, Inr [(''session_id'', PStr child), (''status'', PStr (cn_status n))])
          else co_append P g child ctx
            [event_of V_USER ''run.cancelled'' [(''run_id'', opt_str (cn_run_id n)), (''reason'', PStr reason)]]
            [(''session_id'', PStr child), (''status'', PStr ''cancelled'')] stamp w)"

section \<open>Results and reviews\<close>

definition as_collaboration_error :: "'a result \<Rightarrow> 'a result" where
  \<comment> \<open>\<open>except ValueError as exc: raise CollaborationValidationError(str(exc))\<close>\<close>
  "as_collaboration_error r = (case r of Inl (ValueError m) \<Rightarrow> Inl (CollaborationValidationError m) | _ \<Rightarrow> r)"

definition result_payload :: "child_result \<Rightarrow> collaboration_node \<Rightarrow> payload" where
  "result_payload r n = child_result_dict r @ [(''contract_version'', PStr (oc_version (cn_output_contract n)))]"

definition may_publish :: "string \<Rightarrow> string \<Rightarrow> child_result \<Rightarrow> command_context \<Rightarrow> collaboration \<Rightarrow> collaboration_node result" where
  "may_publish root_sid child r ctx g =
     raise_if (child = root_sid) (AuthorizationError ''a Worker cannot write the Root Session'')
     (rbind (require_child g child) (\<lambda>n.
      raise_if (cn_role n = CR_REVIEWER \<or> actor_type (cc_actor ctx) \<noteq> ''worker'')
        (AuthorizationError ''only a Worker can publish its Child Result'')
      (raise_if (cn_owner n \<noteq> None \<and> cn_owner n \<noteq> Some (actor_id (cc_actor ctx)))
         (AuthorizationError ''Worker does not own this Child Session'')
      (rbind (as_collaboration_error (output_contract_validate (cn_output_contract n) (result_payload r n))) (\<lambda>_. Inr n)))))"

definition publish_child_result ::
  "'p co_ports \<Rightarrow> string \<Rightarrow> string \<Rightarrow> child_result \<Rightarrow> command_context \<Rightarrow> stamps \<Rightarrow> 'p world \<Rightarrow> 'p world \<times> payload result" where
  "publish_child_result P root_sid child r ctx stamp w =
     (case rbind (service_graph (w_store w) (cc_tenant_id ctx) root_sid) (\<lambda>g.
           rbind (may_publish root_sid child r ctx g) (\<lambda>n. Inr (g, n))) of
        Inl e \<Rightarrow> (w, Inl e)
      | Inr (g, n) \<Rightarrow>
          co_append P g child ctx
            [event_of V_USER ''child.result_published'' (result_payload r n),
             event_of V_USER ''run.completed'' [(''run_id'', opt_str (cn_run_id n)), (''result_summary'', PStr (ch_summary r)),
               (''result_ref'', PStr (ch_result_ref r))]]
            (dict_of ([(''session_id'', PStr child), (''status'', PStr ''completed'')] @ result_payload r n)) stamp w)"

definition review_target :: "collaboration \<Rightarrow> collaboration_node \<Rightarrow> (pyval \<times> collaboration_node) result" where
  \<comment> \<open>the node under review; an id that is not a string is found in no dictionary of nodes\<close>
  "review_target g n =
     (case cn_target_session_id n of
        PNone \<Rightarrow> Inl (CollaborationValidationError ''Review Session has no target'')
      | PStr sid \<Rightarrow> rbind (require_child g sid) (\<lambda>t. Inr (PStr sid, t))
      | PList _ \<Rightarrow> Inl (TypeError ''unhashable type'')
      | PDict _ \<Rightarrow> Inl (TypeError ''unhashable type'')
      | _ \<Rightarrow> Inl (CollaborationValidationError ''Child must belong to the same Root and tenant''))"

definition may_review ::
  "string \<Rightarrow> command_context \<Rightarrow> collaboration \<Rightarrow> (collaboration_node \<times> pyval \<times> pyval) result" where
  \<comment> \<open>the node of the review, its target and the result reference of the target\<close>
  "may_review sid ctx g =
     rbind (require_child g sid) (\<lambda>n.
     raise_if (cn_role n \<noteq> CR_REVIEWER \<or> actor_type (cc_actor ctx) \<noteq> ''reviewer'')
       (AuthorizationError ''only a Reviewer can publish a review decision'')
     (raise_if (cn_owner n \<noteq> None \<and> cn_owner n \<noteq> Some (actor_id (cc_actor ctx)))
        (AuthorizationError ''Reviewer does not own this Review Session'')
     (rbind (review_target g n) (\<lambda>(target, t).
      case cn_result t of
        None \<Rightarrow> Inl (CollaborationValidationError ''Reviewer target has no published result'')
      | Some res \<Rightarrow> rbind (pitem res ''result_ref'') (\<lambda>ref. Inr (n, target, ref))))))"

definition review_payload :: "pyval \<Rightarrow> pyval \<Rightarrow> review_result \<Rightarrow> payload" where
  "review_payload target ref r =
     [(''target_session_id'', target), (''target_result_ref'', ref), (''decision'', PStr (review_decision_value (rr_decision r))),
      (''evidence_refs'', PList (map PStr (rr_evidence_refs r))), (''findings'', PList (map PStr (rr_findings r))),
      (''repair_suggestions'', PList (map PStr (rr_repair_suggestions r)))]"

definition publish_review ::
  "'p co_ports \<Rightarrow> string \<Rightarrow> string \<Rightarrow> review_result \<Rightarrow> command_context \<Rightarrow> stamps \<Rightarrow> 'p world \<Rightarrow> 'p world \<times> payload result" where
  "publish_review P root_sid sid r ctx stamp w =
     (case rbind (service_graph (w_store w) (cc_tenant_id ctx) root_sid) (\<lambda>g.
           rbind (may_review sid ctx g) (\<lambda>x. Inr (g, x))) of
        Inl e \<Rightarrow> (w, Inl e)
      | Inr (g, n, target, ref) \<Rightarrow>
          co_append P g sid ctx
            [event_of V_USER ''review.completed'' (review_payload target ref r),
             event_of V_USER ''run.completed'' [(''run_id'', opt_str (cn_run_id n)),
               (''result_summary'', PStr (review_decision_value (rr_decision r)))]]
            (dict_of ([(''session_id'', PStr sid), (''status'', PStr ''completed'')] @ review_payload target ref r)) stamp w)"

definition review_spec :: "string \<Rightarrow> string \<Rightarrow> string \<Rightarrow> pyfloat \<Rightarrow> payload \<Rightarrow> child_spec result" where
  "review_spec key target goal budget runtime =
     child_spec_check
       \<lparr>cs_task_key = key, cs_role = CR_REVIEWER, cs_goal = goal,
        cs_output_contract = default_output_contract\<lparr>oc_required_fields := []\<rparr>, cs_dependency_ids = [target],
        cs_input_refs = [], cs_tool_permissions = [], cs_budget = budget, cs_runtime_budget = runtime,
        cs_metadata = [(''target_session_id'', PStr target)]\<rparr>"

definition request_review ::
  "'p co_ports \<Rightarrow> string \<Rightarrow> string \<Rightarrow> string \<Rightarrow> string \<Rightarrow> string \<Rightarrow> pyfloat \<Rightarrow> payload \<Rightarrow> command_context \<Rightarrow> stamps \<Rightarrow> 'p world \<Rightarrow>
   ('p world \<times> payload result) option" where
  "request_review P root_sid parent key target goal budget runtime ctx stamp w =
     (case rbind (service_graph (w_store w) (cc_tenant_id ctx) root_sid) (\<lambda>g.
           rbind (require_child g target) (\<lambda>_. review_spec key target goal budget runtime)) of
        Inl e \<Rightarrow> Some (w, Inl e)
      | Inr spec \<Rightarrow> create_child P root_sid parent spec ctx stamp w)"

section \<open>Joining\<close>

definition join_item :: "collaboration \<Rightarrow> string \<Rightarrow> payload list \<times> payload list \<Rightarrow> (payload list \<times> payload list) result" where
  \<comment> \<open>one child of the loop; the results and the reviews so far\<close>
  "join_item g sid acc =
     (case acc of (results, reviews) \<Rightarrow>
        case map_of (co_nodes g) sid of
          None \<Rightarrow> Inl (KeyError sid)
        | Some n \<Rightarrow>
            rbind (case cn_result n of None \<Rightarrow> Inl (AssertionError []) | Some p \<Rightarrow> Inr p) (\<lambda>res.
            if cn_role n = CR_REVIEWER
            then rbind (pitem res ''target_session_id'') (\<lambda>target. rbind (pitem res ''target_result_ref'') (\<lambda>ref.
                 rbind (pitem res ''decision'') (\<lambda>decision. rbind (pitem res ''evidence_refs'') (\<lambda>evidence.
                 Inr (results, reviews @ [[(''review_session_id'', PStr sid), (''target_session_id'', target),
                   (''target_result_ref'', ref), (''decision'', decision), (''evidence_refs'', evidence)]])))))
            else Inr (results @ [[(''session_id'', PStr sid), (''role'', PStr (collaboration_role_value (cn_role n))),
                   (''result_ref'', pget res ''result_ref''), (''artifact_refs'', dget res ''artifact_refs'' (PList []))]], reviews)))"

definition artifact_lineage :: "payload list \<Rightarrow> payload list result" where
  "artifact_lineage results =
     rbind (rmap (\<lambda>item. rbind (py_list (pget item ''artifact_refs'')) (\<lambda>refs.
       Inr (map (\<lambda>ref. [(''artifact_ref'', ref), (''source_session_id'', pget item ''session_id'')]) refs))) results)
       (\<lambda>xss. Inr (concat xss))"

definition lineage_dict :: "payload list \<Rightarrow> payload list \<Rightarrow> payload list \<Rightarrow> payload" where
  "lineage_dict results reviews artifacts =
     [(''child_results'', PList (map PDict results)), (''reviews'', PList (map PDict reviews)),
      (''artifact_lineage'', PList (map PDict artifacts))]"

definition join_lineage :: "string list \<Rightarrow> collaboration \<Rightarrow> (payload \<times> payload list) result" where
  "join_lineage sids g =
     rbind (rfold (join_item g) sids ([], [])) (\<lambda>(results, reviews).
     rbind (artifact_lineage results) (\<lambda>artifacts. Inr (lineage_dict results reviews artifacts, artifacts)))"

definition co_join ::
  "'p co_ports \<Rightarrow> string \<Rightarrow> string list \<Rightarrow> string \<Rightarrow> string \<Rightarrow> command_context \<Rightarrow> stamps \<Rightarrow> 'p world \<Rightarrow> 'p world \<times> payload result" where
  "co_join P root_sid sids summary result_ref ctx stamp w =
     (case rbind (require_coordinator ctx) (\<lambda>_. rbind (service_graph (w_store w) (cc_tenant_id ctx) root_sid) (\<lambda>g.
           rbind (require_joinable sids g) (\<lambda>_. rbind (join_lineage sids g) (\<lambda>(lineage, artifacts).
           case map_of (co_nodes g) root_sid of None \<Rightarrow> Inl (KeyError root_sid)
           | Some n \<Rightarrow> Inr (lineage, artifacts, cn_run_id n))))) of
        Inl e \<Rightarrow> (w, Inl e)
      | Inr (lineage, artifacts, run) \<Rightarrow>
          co_store P root_sid root_sid run ctx
            [event_of V_INTERNAL ''join.completed'' (dict_of ((''child_session_ids'', PList (map PStr sids)) # lineage)),
             event_of V_USER ''run.completed'' [(''result_summary'', PStr summary), (''result_ref'', PStr result_ref),
               (''artifact_refs'', PList (map (\<lambda>a. pget a ''artifact_ref'') artifacts)), (''lineage'', PDict lineage)]]
            [(''session_id'', PStr root_sid), (''status'', PStr ''completed''), (''result_summary'', PStr summary),
             (''result_ref'', PStr result_ref), (''lineage'', PDict lineage)] stamp w)"

section \<open>Submitting a plan\<close>

definition plan_runtime_budget :: "plan_budget \<Rightarrow> payload" where
  "plan_runtime_budget b =
     (case pb_max_steps b of None \<Rightarrow> [] | Some i \<Rightarrow> [(''max_steps'', PInt i)]) @
     (case pb_max_output_tokens b of None \<Rightarrow> [] | Some i \<Rightarrow> [(''max_output_tokens'', PInt i)]) @
     (case pb_max_cost b of None \<Rightarrow> [] | Some c \<Rightarrow> [(''max_cost'', PFloat c)])"

definition capability_metadata :: "route_target option \<Rightarrow> payload" where
  "capability_metadata cap =
     (case cap of None \<Rightarrow> []
      | Some c \<Rightarrow>
          if rt_kind c = ''skill''
          then [(''skill_names'', PList [PStr (case rt_publisher c of None \<Rightarrow> rt_name c | Some p \<Rightarrow> p @ ''/'' @ rt_name c)]),
                (''required_skills'', PList [PDict [(''publisher'', opt_str (rt_publisher c)), (''name'', PStr (rt_name c)),
                   (''version'', PStr (rt_version c)), (''package_digest'', opt_str (rt_content_digest c)),
                   (''binding_id'', opt_str (rt_binding_id c))]])]
          else (case rt_capability_id c of None \<Rightarrow> []
                | Some i \<Rightarrow> [(''required_capabilities'', PList [PDict ([(''capability_id'', PStr i), (''version'', PStr (rt_version c))] @
                     (case rt_content_digest c of None \<Rightarrow> [] | Some d \<Rightarrow> [(''content_digest'', PStr d)]))])]))"

definition optional_entry :: "string \<Rightarrow> string option \<Rightarrow> payload" where
  "optional_entry k v = (case v of None \<Rightarrow> [] | Some s \<Rightarrow> [(k, PStr s)])"

definition plan_metadata :: "routing_plan_step \<Rightarrow> string \<Rightarrow> string option \<Rightarrow> payload" where
  "plan_metadata st digest target =
     [(''routing_plan_digest'', PStr digest), (''risk_class'', PStr (plan_risk_class_value (rs_risk_class st))),
      (''requires_review'', PBool (rs_requires_review st))] @ capability_metadata (rs_capability st) @
     optional_entry ''profile_id'' (pa_profile_id (rs_assignment st)) @ optional_entry ''model'' (pa_model (rs_assignment st)) @
     optional_entry ''harness'' (pa_harness (rs_assignment st)) @ optional_entry ''parallel_group'' (rs_parallel_group st) @
     optional_entry ''target_session_id'' target"

definition plan_dependency_ids :: "(string, string) dict \<Rightarrow> string list \<Rightarrow> string list result" where
  "plan_dependency_ids ids keys =
     rmap (\<lambda>k. case map_of ids k of
       None \<Rightarrow> Inl (CollaborationValidationError (''plan references a non-child dependency: '' @ k)) | Some i \<Rightarrow> Inr i) keys"

definition plan_child_spec :: "'p co_ports \<Rightarrow> routing_plan_step \<Rightarrow> (string, string) dict \<Rightarrow> string \<Rightarrow> child_spec result" where
  "plan_child_spec P st ids digest =
     rbind (plan_dependency_ids ids (rs_dependencies st)) (\<lambda>deps.
     rbind (collaboration_role_of (pa_role (rs_assignment st))) (\<lambda>role.
     rbind (if role \<noteq> CR_REVIEWER then Inr None
            else case deps of [] \<Rightarrow> Inl (IndexError ''tuple index out of range'') | d # _ \<Rightarrow> Inr (Some d)) (\<lambda>target.
     rbind (output_contract_check
        \<lparr>oc_version = ''1'', oc_required_fields = (if role = CR_REVIEWER then [] else po_required_fields (rs_output_contract st)),
         oc_require_artifacts = po_require_artifacts (rs_output_contract st),
         oc_require_evidence = po_require_evidence (rs_output_contract st)\<rparr>) (\<lambda>contract.
     child_spec_check
       \<lparr>cs_task_key = rs_task_key st, cs_role = role, cs_goal = rs_goal st, cs_output_contract = contract,
        cs_dependency_ids = deps, cs_input_refs = rs_input_refs st,
        cs_tool_permissions = (case rs_capability st of None \<Rightarrow> [] | Some c \<Rightarrow> [rt_name c]),
        cs_budget = f_mul (pb_fraction (rs_budget st)) (cl_max_budget (cp_limits P)),
        cs_runtime_budget = plan_runtime_budget (rs_budget st), cs_metadata = plan_metadata st digest target\<rparr>))))"

subsection \<open>Topological order\<close>

type_synonym step_table = "(string, routing_plan_step) dict"

lemma table_step:
  assumes "key \<notin> visiting" "map_of (by_key :: step_table) key = Some st"
  shows "card (set (dkeys by_key) - insert key visiting) < card (set (dkeys by_key) - visiting)"
proof (rule psubset_card_mono)
  have "key \<in> set (dkeys by_key)" using map_of_SomeD [OF assms(2)] by (auto intro: rev_image_eqI)
  then show "set (dkeys by_key) - insert key visiting \<subset> set (dkeys by_key) - visiting" using assms(1) by blast
qed simp

function visit_step :: "step_table \<Rightarrow> string set \<Rightarrow> string \<Rightarrow> routing_plan_step list \<Rightarrow> routing_plan_step list result"
  and visit_steps :: "step_table \<Rightarrow> string set \<Rightarrow> string list \<Rightarrow> routing_plan_step list \<Rightarrow> routing_plan_step list result" where
  \<comment> \<open>the keys visited so far are those of the ordered steps\<close>
  "visit_step by_key visiting key ordered =
     (if key \<in> visiting then Inl (CollaborationValidationError ''Task DAG must be acyclic'')
      else if key \<in> rs_task_key ` set ordered then Inr ordered
      else case map_of by_key key of
        None \<Rightarrow> Inl (KeyError key)
      | Some st \<Rightarrow>
          rbind (visit_steps by_key (insert key visiting) (rs_dependencies st) ordered) (\<lambda>ordered'. Inr (ordered' @ [st])))"
| "visit_steps by_key visiting [] ordered = Inr ordered"
| "visit_steps by_key visiting (key # keys) ordered =
     (if map_of by_key key = None
      then Inl (CollaborationValidationError (''plan references an unknown dependency: '' @ key))
      else rbind (visit_step by_key visiting key ordered) (visit_steps by_key visiting keys))"
  by pat_completeness auto
termination
  by (relation "measures
    [\<lambda>x. case x of Inl (by_key, visiting, _) \<Rightarrow> card (set (dkeys by_key) - visiting)
           | Inr (by_key, visiting, _) \<Rightarrow> card (set (dkeys by_key) - visiting),
     \<lambda>x. case x of Inl _ \<Rightarrow> 1 | Inr (_, _, keys, _) \<Rightarrow> 2 * length keys]") (auto simp: table_step [unfolded set_map])

definition topological_steps :: "step_table \<Rightarrow> routing_plan_step list result" where
  "topological_steps by_key = rfold (visit_step by_key {}) (dkeys by_key) []"

subsection \<open>The transaction\<close>

definition pitem_of :: "(string, payload) dict \<Rightarrow> string \<Rightarrow> payload result" where
  "pitem_of d k = (case map_of d k of None \<Rightarrow> Inl (KeyError k) | Some v \<Rightarrow> Inr v)"

definition plan_child_payload :: "string \<Rightarrow> string \<Rightarrow> child_spec \<Rightarrow> pyval \<Rightarrow> payload" where
  \<comment> \<open>\<open>_child_created_payload\<close>\<close>
  "plan_child_payload root_sid parent spec inherited =
     child_payload root_sid parent spec inherited @
     (case pget (cs_metadata spec) ''skill_names'' of
        PList (x # xs) \<Rightarrow> [(''skill_names'', PList (map (\<lambda>v. PStr (py_str v)) (x # xs)))] | _ \<Rightarrow> [])"

definition planned_child :: "routing_plan_step \<Rightarrow> string \<Rightarrow> collaboration_role \<Rightarrow> string list \<Rightarrow> payload" where
  "planned_child st child role deps =
     [(''task_key'', PStr (rs_task_key st)), (''session_id'', PStr child), (''run_id'', PStr (child_run_id child)),
      (''role'', PStr (collaboration_role_value role)), (''dependency_ids'', PList (map PStr deps)),
      (''status'', PStr (if deps = [] then ''runnable'' else ''blocked''))]"

definition existing_plan_child ::
  "'p co_ports \<Rightarrow> string \<Rightarrow> (string, string) dict \<Rightarrow> string \<Rightarrow> collaboration \<Rightarrow> routing_plan_step \<Rightarrow> payload result" where
  "existing_plan_child P root_sid ids digest g st =
     (case map_of ids (rs_task_key st) of None \<Rightarrow> Inl (KeyError (rs_task_key st))
      | Some child \<Rightarrow>
          (case map_of (co_nodes g) child of None \<Rightarrow> Inl (KeyError child)
           | Some n \<Rightarrow>
               rbind (plan_child_spec P st ids digest) (\<lambda>spec.
               raise_if (\<not> (same_spec root_sid spec n \<and> cn_input_refs n = cs_input_refs spec \<and>
                     cn_tool_permissions n = cs_tool_permissions spec \<and>
                     pget (cn_metadata n) ''routing_plan_digest'' = PStr digest))
                 (CollaborationValidationError ''existing child task_key was reused with a different plan specification'')
               (Inr (planned_child st (cn_session_id n) (cn_role n) (cn_dependency_ids n))))))"

type_synonym staging = "collaboration \<times> stream_append list \<times> (string, payload) dict"

definition stage_step ::
  "'p co_ports \<Rightarrow> string \<Rightarrow> (string, string) dict \<Rightarrow> string \<Rightarrow> pyval \<Rightarrow> routing_plan_step \<Rightarrow> staging \<Rightarrow> staging result option" where
  "stage_step P root_sid ids digest inherited st acc =
     (case acc of (g, appends, responses) \<Rightarrow>
        case rbind (plan_child_spec P st ids digest) (\<lambda>spec.
               case map_of ids (rs_task_key st) of None \<Rightarrow> Inl (KeyError (rs_task_key st)) | Some child \<Rightarrow> Inr (spec, child)) of
          Inl e \<Rightarrow> Some (Inl e)
        | Inr (spec, child) \<Rightarrow>
            map_option (\<lambda>r. rbind r (\<lambda>g'. Inr (g',
                appends @ [\<lparr>st_session_id = child, st_run_id = None, st_expected_version = 0,
                  st_events = child_events child (plan_child_payload root_sid root_sid spec inherited) inherited\<rparr>],
                AList.update (rs_task_key st) (planned_child st child (cs_role spec) (cs_dependency_ids spec)) responses)))
              (stage_new_child root_sid child spec (cp_limits P) g))"

fun stage_steps ::
  "'p co_ports \<Rightarrow> string \<Rightarrow> (string, string) dict \<Rightarrow> string \<Rightarrow> pyval \<Rightarrow> routing_plan_step list \<Rightarrow> staging \<Rightarrow> staging result option" where
  "stage_steps P root_sid ids digest inherited [] acc = Some (Inr acc)"
| "stage_steps P root_sid ids digest inherited (st # sts) acc =
     (case stage_step P root_sid ids digest inherited st acc of
        None \<Rightarrow> None
      | Some (Inl e) \<Rightarrow> Some (Inl e)
      | Some (Inr acc') \<Rightarrow> stage_steps P root_sid ids digest inherited sts acc')"

definition plan_response :: "string \<Rightarrow> string \<Rightarrow> payload list \<Rightarrow> payload" where
  "plan_response root_sid digest children =
     [(''root_session_id'', PStr root_sid), (''plan_digest'', PStr digest), (''status'', PStr ''submitted''),
      (''children'', PList (map PDict children))]"

definition plan_admissible :: "'p co_ports \<Rightarrow> routing_plan \<Rightarrow> command_context \<Rightarrow> unit result" where
  "plan_admissible P plan ctx =
     rbind (require_coordinator ctx) (\<lambda>_.
     raise_if (rp_route_kind plan \<noteq> RK_COORDINATOR_DAG) (CollaborationValidationError ''submit_plan requires a coordinator DAG'')
     (raise_if (rp_plan_digest (routing_plan_create (cp_step_dump P) plan) \<noteq> rp_plan_digest plan)
        (CollaborationValidationError ''routing plan digest does not match its content'')
     (let child_steps = filter (\<lambda>st. pa_execution_scope (rs_assignment st) = ''child'') (rp_steps plan) in
      raise_if (child_steps = [] \<or> length child_steps \<noteq> length (rp_steps plan))
        (CollaborationValidationError ''submit_plan requires every plan step to use child execution scope'')
      (raise_if (\<not> distinct (map rs_task_key child_steps))
         (CollaborationValidationError ''routing plan task keys must be unique'') (Inr ())))))"

definition submit_new ::
  "'p co_ports \<Rightarrow> string \<Rightarrow> routing_plan \<Rightarrow> command_context \<Rightarrow> (string, string) dict \<Rightarrow> pyval \<Rightarrow> collaboration \<Rightarrow> stamps \<Rightarrow> 'p world \<Rightarrow>
   ('p world \<times> payload result) option" where
  \<comment> \<open>stage the steps in topological order and append all streams at once\<close>
  "submit_new P root_sid plan ctx ids inherited g stamp w =
     (let steps = rp_steps plan; digest = rp_plan_digest plan in
      case topological_steps (map (\<lambda>st. (rs_task_key st, st)) steps) of
        Inl e \<Rightarrow> Some (w, Inl e)
      | Inr ordered \<Rightarrow>
          map_option (\<lambda>r.
            case rbind r (\<lambda>(_, appends, responses).
                   rbind (rmap (\<lambda>st. pitem_of responses (rs_task_key st)) steps) (\<lambda>children. Inr (appends, children))) of
              Inl e \<Rightarrow> (w, Inl e)
            | Inr (appends, children) \<Rightarrow>
                (case es_append_batch root_sid ctx appends (plan_response root_sid digest children) stamp (w_store w) of
                   (s', Inl e) \<Rightarrow> (w\<lparr>w_store := s'\<rparr>, Inl e)
                 | (s', Inr res) \<Rightarrow> (cp_relay_once P (w\<lparr>w_store := s'\<rparr>), Inr (ar_command_result res))))
          (stage_steps P root_sid ids digest inherited ordered (g, [], [])))"

definition submit_plan ::
  "'p co_ports \<Rightarrow> string \<Rightarrow> routing_plan \<Rightarrow> command_context \<Rightarrow> stamps \<Rightarrow> 'p world \<Rightarrow> ('p world \<times> payload result) option" where
  "submit_plan P root_sid plan ctx stamp w =
     (let tenant = cc_tenant_id ctx; steps = rp_steps plan; digest = rp_plan_digest plan;
          ids = map (\<lambda>st. (rs_task_key st, child_id tenant root_sid (rs_task_key st))) steps
      in case rbind (plan_admissible P plan ctx) (\<lambda>_. rbind (service_graph (w_store w) tenant root_sid) (\<lambda>g.
              rbind (sa_from_events (cp_codec P) (es_load (w_store w) tenant root_sid 1 None None)) (\<lambda>a. Inr (g, a)))) of
           Inl e \<Rightarrow> Some (w, Inl e)
         | Inr (g, a) \<Rightarrow>
             let existing = map (\<lambda>st. map_of (co_nodes g) (child_id tenant root_sid (rs_task_key st)) \<noteq> None) steps in
             if True \<in> set existing
             then Some (w, raise_if (False \<in> set existing)
                    (CollaborationValidationError ''plan overlaps an incomplete existing Child DAG'')
                    (rbind (rmap (existing_plan_child P root_sid ids digest g) steps) (\<lambda>children.
                     Inr (plan_response root_sid digest children))))
             else submit_new P root_sid plan ctx ids (inherited_approval P a) g stamp w)"

section \<open>Roles\<close>

definition coordinator_runnable :: "event_store \<Rightarrow> string \<Rightarrow> string \<Rightarrow> string list result" where
  "coordinator_runnable s tenant root_sid =
     rbind (service_graph s tenant root_sid) (\<lambda>g. Inr (map cn_session_id (runnable g)))"

end
