(* ===== verification/Collaboration_Laws.thy ===== *)
theory Collaboration_Laws
  imports Collaboration
begin

text \<open>
  What the collaboration graph guarantees. The depth-first search of \<open>validate_dependencies\<close> decides
  acyclicity; a graph rebuilt from any events is well typed (\<open>co_typed\<close>). A graph that grows by accepted
  children, accepted changes of dependencies and the events of its nodes (\<open>graph_step\<close>) keeps the
  invariant \<open>grown\<close>: the parents form a tree within the limits, the dependencies are known and acyclic
  (\<open>shaped\<close>, a predicate of the parts of the nodes that no event changes), and a child that waits is
  runnable exactly when its dependencies are completed (\<open>released\<close>).
\<close>

section \<open>The depth-first search decides acyclicity\<close>

definition depends :: "dependency_graph \<Rightarrow> (string \<times> string) set" where
  "depends graph = {(x, y). y \<in> set (dget graph x [])}"

definition explored :: "dependency_graph \<Rightarrow> string set \<Rightarrow> bool" where
  \<comment> \<open>closed under dependencies and on no cycle\<close>
  "explored graph V \<longleftrightarrow> depends graph `` V \<subseteq> V \<and> (\<forall>y \<in> V. (y, y) \<notin> (depends graph)\<^sup>+)"

lemma explored_reach: "explored graph V \<Longrightarrow> y \<in> V \<Longrightarrow> (y, z) \<in> (depends graph)\<^sup>* \<Longrightarrow> z \<in> V"
  by (metis Image_closed_trancl Image_singleton_iff ImageI explored_def)

lemma explored_insert:
  assumes "explored graph V" "set (dget graph x []) \<subseteq> V" "x \<notin> V"
  shows "explored graph (insert x V)"
proof -
  have "(x, x) \<notin> (depends graph)\<^sup>+"
  proof
    assume "(x, x) \<in> (depends graph)\<^sup>+"
    then obtain z where "(x, z) \<in> depends graph" "(z, x) \<in> (depends graph)\<^sup>*" by (meson tranclD)
    then have "x \<in> V" using assms explored_reach [of graph V z x] by (auto simp: depends_def)
    with assms(3) show False ..
  qed
  then show ?thesis using assms by (auto simp: explored_def depends_def)
qed

lemma visit_Inr:
  "visit graph P x V = Inr V' \<longleftrightarrow> x \<notin> P \<and>
     (if x \<in> V then V' = V
      else \<exists>W. visit_all graph (insert x P) (dget graph x []) V = Inr W \<and> V' = insert x W)"
  by (subst visit.simps) auto

lemma visit_explores:
  "visit graph P x V = Inr V' \<Longrightarrow> explored graph V \<Longrightarrow> V \<inter> P = {} \<Longrightarrow>
     V \<subseteq> V' \<and> x \<in> V' \<and> explored graph V' \<and> V' \<inter> P = {}"
  "visit_all graph P xs V = Inr V' \<Longrightarrow> explored graph V \<Longrightarrow> V \<inter> P = {} \<Longrightarrow>
     V \<subseteq> V' \<and> set xs \<subseteq> V' \<and> explored graph V' \<and> V' \<inter> P = {}"
proof (induction graph P x V and graph P xs V arbitrary: V' and V' rule: visit_visit_all.induct)
  case (1 graph P x V)
  show ?case
  proof (cases "x \<in> V")
    case True
    then show ?thesis using 1(2-4) by (simp only: visit_Inr if_True simp_thms)
  next
    case False
    then obtain W where W: "visit_all graph (insert x P) (dget graph x []) V = Inr W" "V' = insert x W" "x \<notin> P"
      using 1(2) by (auto simp only: visit_Inr if_False simp_thms)
    have disj: "V \<inter> insert x P = {}" using False 1(4) by blast
    have "V \<subseteq> W \<and> set (dget graph x []) \<subseteq> W \<and> explored graph W \<and> W \<inter> insert x P = {}"
      by (rule 1(1) [OF W(3) False W(1) 1(3) disj])
    moreover from this have "explored graph (insert x W)" by (intro explored_insert) blast+
    ultimately show ?thesis using W(2,3) by blast
  qed
next
  case (3 graph P x xs V)
  from 3(3) obtain W where W: "visit graph P x V = Inr W" "visit_all graph P xs W = Inr V'"
    by (auto simp only: visit_all.simps rbind_eq_Inr)
  have 1: "V \<subseteq> W \<and> x \<in> W \<and> explored graph W \<and> W \<inter> P = {}" by (rule 3(1) [OF W(1) 3(4,5)])
  then have "W \<subseteq> V' \<and> set xs \<subseteq> V' \<and> explored graph V' \<and> V' \<inter> P = {}" using 3(2) [OF W(1) W(2)] by blast
  with 1 show ?case by simp blast
qed simp

lemma visit_fails:
  "visit graph P x V = Inl e \<Longrightarrow> \<forall>p \<in> P. (p, x) \<in> (depends graph)\<^sup>+ \<Longrightarrow>
     e = CollaborationValidationError ''Task DAG must be acyclic'' \<and> \<not> acyclic (depends graph)"
  "visit_all graph P xs V = Inl e \<Longrightarrow> \<forall>p \<in> P. \<forall>x \<in> set xs. (p, x) \<in> (depends graph)\<^sup>+ \<Longrightarrow>
     e = CollaborationValidationError ''Task DAG must be acyclic'' \<and> \<not> acyclic (depends graph)"
proof (induction graph P x V and graph P xs V rule: visit_visit_all.induct)
  case (1 graph P x V)
  show ?case
  proof (cases "x \<in> P")
    case True
    then have "e = CollaborationValidationError ''Task DAG must be acyclic''"
      using 1(2) unfolding visit.simps [of graph P x V] by simp
    then show ?thesis using True 1(3) unfolding acyclic_def by blast
  next
    case False
    then have "x \<notin> V" "visit_all graph (insert x P) (dget graph x []) V = Inl e"
      using 1(2) unfolding visit.simps [of graph P x V] rbind_def by (simp_all split: if_splits sum.splits)
    moreover have "\<forall>p \<in> insert x P. \<forall>y \<in> set (dget graph x []). (p, y) \<in> (depends graph)\<^sup>+"
      using 1(3) by (auto simp: depends_def intro: trancl_into_trancl)
    ultimately show ?thesis using 1(1) False by blast
  qed
next
  case (3 graph P x xs V)
  show ?case
  proof (cases "visit graph P x V")
    case (Inl e')
    then have "e' = e" using 3(3) by simp
    then show ?thesis using 3(1,4) Inl by simp
  next
    case (Inr W)
    then show ?thesis using 3(2) [OF Inr] 3(3,4) by simp
  qed
qed simp

lemma visit_all_keys:
  "(\<exists>V. visit_all graph {} (dkeys graph) {} = Inr V) \<longleftrightarrow> acyclic (depends graph)"
proof
  assume "\<exists>V. visit_all graph {} (dkeys graph) {} = Inr V"
  then obtain V where "visit_all graph {} (dkeys graph) {} = Inr V" ..
  then have V: "set (dkeys graph) \<subseteq> V" "explored graph V"
    using visit_explores(2) [of graph "{}" "dkeys graph" "{}" V] by (auto simp: explored_def)
  show "acyclic (depends graph)"
    unfolding acyclic_def
  proof (intro allI notI)
    fix x assume c: "(x, x) \<in> (depends graph)\<^sup>+"
    then obtain z where "(x, z) \<in> depends graph" by (meson tranclD)
    then have "x \<in> set (dkeys graph)"
      by (cases "map_of graph x") (auto simp: depends_def dget_def map_of_eq_None_iff dest!: map_of_SomeD intro: rev_image_eqI)
    with V c show False by (auto simp: explored_def)
  qed
next
  assume "acyclic (depends graph)"
  then show "\<exists>V. visit_all graph {} (dkeys graph) {} = Inr V"
    using visit_fails(2) [of graph "{}" "dkeys graph" "{}"]
    by (cases "visit_all graph {} (dkeys graph) {}") auto
qed

lemma validate_dependencies_iff:
  "validate_dependencies child deps g = Inr () \<longleftrightarrow>
     child \<notin> set deps \<and> set deps \<subseteq> set (dkeys (co_nodes g)) \<and>
     acyclic (depends (dependency_graph (co_nodes g) child deps))"
proof -
  have "filter (\<lambda>d. map_of (co_nodes g) d = None) deps = [] \<longleftrightarrow> set deps \<subseteq> set (dkeys (co_nodes g))"
    by (auto simp: filter_empty_conv map_of_eq_None_iff)
  then show ?thesis
    using visit_all_keys [of "dependency_graph (co_nodes g) child deps"]
    by (auto simp: validate_dependencies_def Let_def)
qed

text \<open>
  C35: dependencies are accepted exactly if the child does not depend on itself, they are all nodes of
  this root and the graph with them has no cycle. In particular the depth-first search, which recurses
  along the dependencies, always returns.
\<close>

theorem dependencies_accepted_iff_acyclic:
  "validate_dependencies child deps g = Inr () \<longleftrightarrow>
     child \<notin> set deps \<and> set deps \<subseteq> set (dkeys (co_nodes g)) \<and>
     acyclic (depends (dependency_graph (co_nodes g) child deps))"
  by (rule validate_dependencies_iff)

section \<open>Releasing nodes\<close>

definition completed :: "nodes \<Rightarrow> string \<Rightarrow> bool option" where
  "completed ns d = map_option (\<lambda>n. cn_status n = ''completed'') (map_of ns d)"

definition refreshed :: "nodes \<Rightarrow> collaboration_node \<Rightarrow> collaboration_node" where
  \<comment> \<open>a node after all were looked at together\<close>
  "refreshed ns n =
     (if settled n then n
      else n\<lparr>cn_status := if \<forall>d \<in> set (cn_dependency_ids n). completed ns d = Some True then ''runnable'' else ''blocked''\<rparr>)"

lemma dependencies_satisfied_completed:
  "dependencies_satisfied ns n \<longleftrightarrow> (\<forall>d \<in> set (cn_dependency_ids n). completed ns d = Some True)"
proof -
  have "length xs = length (filter P xs) \<longleftrightarrow> (\<forall>x \<in> set xs. P x)" for P :: "string \<Rightarrow> bool" and xs
    by (metis filter_id_conv length_filter_less less_irrefl)
  then show ?thesis
    by (auto simp: dependencies_satisfied_def completed_def list_all_iff split: option.splits)
qed

lemma refresh_node_map_of:
  "map_of (refresh_node k ns) j = (if j = k then map_option (refreshed ns) (map_of ns k) else map_of ns j)"
  by (auto simp: refresh_node_def refreshed_def dependencies_satisfied_completed dict_simps split: option.splits)

lemma refresh_node_completed: "completed (refresh_node k ns) = completed ns"
  by (rule ext) (auto simp: completed_def refresh_node_map_of refreshed_def settled_def map_option_case split: option.splits)

lemma refreshed_cong: "completed ns' = completed ns \<Longrightarrow> refreshed ns' = refreshed ns"
  by (rule ext) (simp add: refreshed_def)

lemma refresh_fold_map_of:
  "distinct ks \<Longrightarrow>
   map_of (fold refresh_node ks ns) j = (if j \<in> set ks then map_option (refreshed ns) (map_of ns j) else map_of ns j)"
proof (induction ks arbitrary: ns)
  case (Cons k ks)
  have "refreshed (refresh_node k ns) = refreshed ns" by (rule refreshed_cong [OF refresh_node_completed])
  then show ?case using Cons by (auto simp: refresh_node_map_of)
qed simp

lemma refresh_node_dkeys: "dkeys (refresh_node k ns) = dkeys ns"
  by (auto simp: refresh_node_def dkeys_update map_of_eq_None_iff dest: map_of_SomeD split: option.splits intro: rev_image_eqI)

lemma refresh_fold_dkeys: "dkeys (fold refresh_node ks ns) = dkeys ns"
  by (induction ks arbitrary: ns) (simp_all add: refresh_node_dkeys)

lemma refresh_runnable_nodes:
  assumes "distinct (dkeys (co_nodes g))"
  shows "map_of (co_nodes (refresh_runnable g)) j = map_option (refreshed (co_nodes g)) (map_of (co_nodes g) j)"
    "dkeys (co_nodes (refresh_runnable g)) = dkeys (co_nodes g)"
  using refresh_fold_map_of [OF assms, of "co_nodes g" j] refresh_fold_dkeys map_of_None_dkeys [of "co_nodes g" j]
  by (auto simp: refresh_runnable_def)

lemma refresh_runnable_fields [simp]:
  "co_tenant_id (refresh_runnable g) = co_tenant_id g" "co_root_session_id (refresh_runnable g) = co_root_session_id g"
  "co_reviews (refresh_runnable g) = co_reviews g" "co_joined_children (refresh_runnable g) = co_joined_children g"
  by (simp_all add: refresh_runnable_def)

lemma set_node_fields [simp]:
  "co_tenant_id (set_node k n g) = co_tenant_id g" "co_root_session_id (set_node k n g) = co_root_session_id g"
  "co_reviews (set_node k n g) = co_reviews g" "co_joined_children (set_node k n g) = co_joined_children g"
  "co_nodes (set_node k n g) = AList.update k n (co_nodes g)"
  by (simp_all add: set_node_def)

lemma refreshed_fields [simp]:
  "cn_session_id (refreshed ns n) = cn_session_id n" "cn_parent_session_id (refreshed ns n) = cn_parent_session_id n"
  "cn_role (refreshed ns n) = cn_role n" "cn_result (refreshed ns n) = cn_result n" "cn_task_key (refreshed ns n) = cn_task_key n"
  "cn_dependency_ids (refreshed ns n) = cn_dependency_ids n" "cn_output_contract (refreshed ns n) = cn_output_contract n"
  "cn_tenant_id (refreshed ns n) = cn_tenant_id n" "cn_root_session_id (refreshed ns n) = cn_root_session_id n"
  by (simp_all add: refreshed_def)

section \<open>Well-formed graphs\<close>

definition STATUSES :: "string list" where
  "STATUSES = [''pending'', ''blocked'', ''runnable'', ''running'', ''completed'', ''failed'', ''cancelled'']"

definition node_ok :: "string \<Rightarrow> string \<Rightarrow> string \<Rightarrow> collaboration_node \<Rightarrow> bool" where
  "node_ok tenant root_sid k n \<longleftrightarrow>
     cn_session_id n = k \<and> cn_tenant_id n = tenant \<and> cn_root_session_id n = root_sid \<and> cn_status n \<in> set STATUSES \<and>
     set (oc_required_fields (cn_output_contract n)) \<subseteq> set PUBLISHABLE_CHILD_RESULT_FIELDS \<and>
     (cn_status n = ''completed'' \<longrightarrow> cn_result n \<noteq> None) \<and>
     (cn_parent_session_id n = None \<longrightarrow> k = root_sid \<and> cn_role n = CR_ROOT)"

definition co_typed :: "collaboration \<Rightarrow> bool" where
  "co_typed g \<longleftrightarrow>
     distinct (dkeys (co_nodes g)) \<and>
     (\<forall>k n. map_of (co_nodes g) k = Some n \<longrightarrow> node_ok (co_tenant_id g) (co_root_session_id g) k n) \<and>
     set (dkeys (co_reviews g)) \<subseteq> set (dkeys (co_nodes g))"

lemma co_typed_set_node:
  "co_typed g \<Longrightarrow> node_ok (co_tenant_id g) (co_root_session_id g) k n \<Longrightarrow> co_typed (set_node k n g)"
  by (auto simp: co_typed_def dict_simps dkeys_update split: if_splits)

lemma node_ok_refreshed: "node_ok t r k n \<Longrightarrow> node_ok t r k (refreshed ns n)"
  by (auto simp: node_ok_def refreshed_def STATUSES_def)

lemma co_typed_refresh: "co_typed g \<Longrightarrow> co_typed (refresh_runnable g)"
  by (auto simp: co_typed_def refresh_runnable_nodes intro: node_ok_refreshed)

lemma co_typed_node: "co_typed g \<Longrightarrow> co_node k g = Inr n \<Longrightarrow> node_ok (co_tenant_id g) (co_root_session_id g) k n"
  by (auto simp: co_typed_def co_node_def split: option.splits)

lemma sort_empty: "sort xs = [] \<longleftrightarrow> xs = []"
  by (metis set_empty set_sort)

lemma output_contract_from_dict_fields:
  "output_contract_from_dict d = Inr c \<Longrightarrow> set (oc_required_fields c) \<subseteq> set PUBLISHABLE_CHILD_RESULT_FIELDS"
  by (auto simp: output_contract_from_dict_def output_contract_check_def Let_def filter_empty_conv sort_empty)

definition of_graph :: "collaboration \<Rightarrow> canonical_event \<Rightarrow> bool" where
  "of_graph g e \<longleftrightarrow> ce_tenant_id e = co_tenant_id g \<and> ce_root_session_id e = co_root_session_id g"

lemma node_ok_updates:
  assumes "node_ok t r k n"
  shows "node_ok t r k (n\<lparr>cn_dependency_ids := ds\<rparr>)" "node_ok t r k (n\<lparr>cn_owner := ow\<rparr>)" "node_ok t r k (n\<lparr>cn_run_id := i\<rparr>)"
    "node_ok t r k (n\<lparr>cn_owner := ow, cn_status := ''runnable''\<rparr>)"
    "node_ok t r k (n\<lparr>cn_result := Some p, cn_status := ''completed''\<rparr>)"
    "node_ok t r k (n\<lparr>cn_status := ''running''\<rparr>)" "node_ok t r k (n\<lparr>cn_status := ''cancelled''\<rparr>)" "node_ok t r k (n\<lparr>cn_status := ''failed''\<rparr>)"
  using assms by (auto simp: node_ok_def STATUSES_def)

definition kept :: "collaboration \<Rightarrow> collaboration \<Rightarrow> bool" where
  "kept g g' \<longleftrightarrow> co_typed g' \<and> co_tenant_id g' = co_tenant_id g \<and> co_root_session_id g' = co_root_session_id g"

lemma typed_root_created:
  assumes "co_typed g" "of_graph g e" "ce_session_id e = co_root_session_id g" "root_created e g = Inr g'"
  shows "kept g g'"
  using assms
  by (auto simp: kept_def root_created_def of_graph_def node_ok_def STATUSES_def default_output_contract_def
      PUBLISHABLE_CHILD_RESULT_FIELDS_def intro!: co_typed_set_node)

lemma typed_child_created:
  assumes "co_typed g" "of_graph g e" "child_created e g = Inr g'"
  shows "kept g g'"
  using assms
  by (auto simp: kept_def child_created_def Let_def of_graph_def node_ok_def STATUSES_def
      intro!: co_typed_refresh co_typed_set_node dest!: output_contract_from_dict_fields)

lemma typed_dependency_changed:
  assumes "co_typed g" "dependency_changed e g = Inr g'"
  shows "kept g g'"
  using assms
  by (auto simp: kept_def dependency_changed_def intro!: co_typed_refresh co_typed_set_node node_ok_updates dest: co_typed_node)

lemma typed_owner_set:
  assumes "co_typed g" "owner_set e g = Inr g'"
  shows "kept g g'"
proof -
  obtain n v where n: "co_node (ce_session_id e) g = Inr n" and g': "g' =
      (let n' = n\<lparr>cn_owner := Some (py_str v)\<rparr>; h = set_node (ce_session_id e) n' g in
       if cn_status n' = ''blocked'' \<and> dependencies_satisfied (co_nodes h) n'
       then set_node (ce_session_id e) (n'\<lparr>cn_status := ''runnable''\<rparr>) h else h)"
    using assms(2) by (auto simp: owner_set_def Let_def)
  note ok = co_typed_node [OF assms(1) n]
  have h: "co_typed (set_node (ce_session_id e) (n\<lparr>cn_owner := Some (py_str v)\<rparr>) g)"
    by (intro co_typed_set_node assms(1) node_ok_updates ok)
  moreover have "co_typed (set_node (ce_session_id e) (n\<lparr>cn_owner := Some (py_str v), cn_status := ''runnable''\<rparr>)
      (set_node (ce_session_id e) (n\<lparr>cn_owner := Some (py_str v)\<rparr>) g))"
    by (rule co_typed_set_node [OF h]) (simp add: node_ok_updates [OF ok])
  ultimately show ?thesis unfolding g' Let_def kept_def by simp
qed

lemma typed_result_published:
  assumes "co_typed g" "result_published e g = Inr g'"
  shows "kept g g'"
  using assms
  by (auto simp: kept_def result_published_def intro!: co_typed_refresh co_typed_set_node node_ok_updates dest: co_typed_node)

lemma typed_review_completed:
  assumes "co_typed g" "review_completed e g = Inr g'"
  shows "kept g g'"
proof -
  define review where "review = AList.update ''review_session_id'' (PStr (ce_session_id e)) (ce_payload e)"
  define h where "h = g\<lparr>co_reviews := AList.update (ce_session_id e) review (co_reviews g)\<rparr>"
  obtain n where n: "co_node (ce_session_id e) h = Inr n"
    and g': "g' = refresh_runnable (set_node (ce_session_id e) (n\<lparr>cn_status := ''completed'', cn_result := Some review\<rparr>) h)"
    using assms(2) by (auto simp: review_completed_def Let_def h_def review_def)
  have "ce_session_id e \<in> set (dkeys (co_nodes g))"
    using n by (auto simp: co_node_def h_def map_of_None_dkeys split: option.splits dest!: map_of_SomeD intro: rev_image_eqI)
  then have h: "co_typed h" using assms(1) by (auto simp: co_typed_def h_def dkeys_update split: if_splits)
  have eq: "n\<lparr>cn_status := ''completed'', cn_result := Some review\<rparr> = n\<lparr>cn_result := Some review, cn_status := ''completed''\<rparr>" by simp
  have "co_typed (set_node (ce_session_id e) (n\<lparr>cn_status := ''completed'', cn_result := Some review\<rparr>) h)"
    unfolding eq by (rule co_typed_set_node [OF h node_ok_updates(5) [OF co_typed_node [OF h n]]])
  then show ?thesis unfolding g' kept_def by (simp add: co_typed_refresh) (simp add: h_def)
qed

lemma typed_status_set:
  assumes "co_typed g" "s \<in> {''running'', ''cancelled'', ''failed''}"
  shows "kept g (status_set s e g)"
proof (cases "map_of (co_nodes g) (ce_session_id e)")
  case (Some n)
  then have ok: "node_ok (co_tenant_id g) (co_root_session_id g) (ce_session_id e) n" using assms(1) by (simp add: co_typed_def)
  have "co_typed (set_node (ce_session_id e) (n\<lparr>cn_status := s\<rparr>) g)"
    using assms(2) node_ok_updates(6-8) [OF ok] by (intro co_typed_set_node assms(1)) auto
  then show ?thesis using Some by (simp add: status_set_def kept_def)
qed (use assms(1) in \<open>simp add: status_set_def kept_def\<close>)

lemma kept_refresh: "kept g g' \<Longrightarrow> kept g (refresh_runnable g')"
  by (simp add: kept_def co_typed_refresh)

lemma typed_run_requested:
  "co_typed g \<Longrightarrow> co_node (ce_session_id e) g = Inr n \<Longrightarrow> kept g (set_node (ce_session_id e) (n\<lparr>cn_run_id := i\<rparr>) g)"
  by (simp add: kept_def co_typed_set_node node_ok_updates(3) co_typed_node)

lemma rallI: "(\<And>x. r = Inr x \<Longrightarrow> P x) \<Longrightarrow> rall P r"
  by (cases r) simp_all

lemma co_apply_typed:
  assumes "co_typed g" "of_graph g e"
  shows "rall (kept g) (co_apply e g)"
proof -
  have created: "rall (kept g) (root_created e g)" if "ce_session_id e = co_root_session_id g"
    by (rule rallI) (rule typed_root_created [OF assms that])
  have others: "rall (kept g) (child_created e g)" "rall (kept g) (dependency_changed e g)" "rall (kept g) (owner_set e g)"
    "rall (kept g) (result_published e g)" "rall (kept g) (review_completed e g)"
    using typed_child_created [OF assms] typed_dependency_changed [OF assms(1)] typed_owner_set [OF assms(1)]
      typed_result_published [OF assms(1)] typed_review_completed [OF assms(1)] by (auto intro: rallI)
  have status: "kept g (status_set ''running'' e g)" "kept g (refresh_runnable (status_set ''cancelled'' e g))"
    "kept g (refresh_runnable (status_set ''failed'' e g))"
    by (simp_all add: typed_status_set [OF assms(1)] kept_refresh)
  have rest: "kept g (g\<lparr>co_joined_children := cs\<rparr>)" "kept g g" for cs
    using assms(1) by (simp_all add: kept_def co_typed_def)
  have run: "\<forall>v. pitem (ce_payload e) ''run_id'' = Inr v \<longrightarrow> (\<forall>n. co_node (ce_session_id e) g = Inr n \<longrightarrow>
      kept g (set_node (ce_session_id e) (n\<lparr>cn_run_id := Some (py_str v)\<rparr>) g))"
    by (simp add: typed_run_requested [OF assms(1)])
  show ?thesis
  proof (cases "ce_type e = ''session.created'' \<and> ce_session_id e = co_root_session_id g")
    case True
    then show ?thesis unfolding co_apply_def Let_def using created by simp
  next
    case False
    show ?thesis
      unfolding co_apply_def Let_def if_not_P [OF False] by (intro rall_if) (simp_all add: others status rest run)
  qed
qed

text \<open>
  C36: a graph rebuilt from events is well formed, whatever the events and in whatever order they were
  read: one node per Session, stored under its own id, with a known status; a completed node has a
  result; its contract names publishable fields only; only the root has no parent; every review
  belongs to a node.
\<close>

theorem rebuilt_graph_typed:
  assumes "co_from_events tenant root_sid events = Inr g"
  shows "co_typed g \<and> co_tenant_id g = tenant \<and> co_root_session_id g = root_sid"
  using assms unfolding co_from_events_def
proof (rule rfold_invariant)
  show "co_typed (co_empty tenant root_sid) \<and> co_tenant_id (co_empty tenant root_sid) = tenant \<and>
      co_root_session_id (co_empty tenant root_sid) = root_sid"
    by (simp add: co_typed_def co_empty_def)
  fix e h h'
  assume "e \<in> set (sort_key (\<lambda>e. (ce_occurred_at e, ce_session_id e, ce_version e))
      (filter (\<lambda>e. ce_tenant_id e = tenant \<and> ce_root_session_id e = root_sid) events))"
    and "co_typed h \<and> co_tenant_id h = tenant \<and> co_root_session_id h = root_sid" "co_apply e h = Inr h'"
  then show "co_typed h' \<and> co_tenant_id h' = tenant \<and> co_root_session_id h' = root_sid"
    using rallD [OF co_apply_typed, of h e h'] by (simp add: of_graph_def kept_def)
qed

section \<open>Graphs that grow by checked steps\<close>

definition co_root :: "string \<Rightarrow> string \<Rightarrow> string \<Rightarrow> collaboration" where
  \<comment> \<open>the graph after the root was created\<close>
  "co_root tenant root_sid goal =
     (case root_created ((sample_event root_sid None 1 ''session.created'' [(''goal'', PStr goal)])
        \<lparr>ce_tenant_id := tenant, ce_root_session_id := root_sid\<rparr>) (co_empty tenant root_sid) of
        Inr g \<Rightarrow> g | Inl _ \<Rightarrow> co_empty tenant root_sid)"

datatype graph_op =
    Add_child string string child_spec
  | Set_dependencies canonical_event
  | Node_event canonical_event

definition NODE_EVENTS :: "string list" where
  "NODE_EVENTS = [''run.requested'', ''child.delegated'', ''session.handed_off'', ''run.started'', ''child.result_published'',
     ''review.completed'', ''join.completed'', ''run.cancelled'', ''run.failed'']"

definition node_event_allowed :: "canonical_event \<Rightarrow> collaboration \<Rightarrow> bool" where
  \<comment> \<open>an event of this graph; a completed node is not started again\<close>
  "node_event_allowed e g \<longleftrightarrow> of_graph g e \<and> ce_type e \<in> set NODE_EVENTS \<and>
     (ce_type e = ''run.started'' \<longrightarrow> completed (co_nodes g) (ce_session_id e) \<noteq> Some True)"

definition changed_dependencies :: "canonical_event \<Rightarrow> string list" where
  "changed_dependencies e =
     (case rbind (pitem (ce_payload e) ''dependency_ids'') py_strs of Inr ds \<Rightarrow> ds | Inl _ \<Rightarrow> [])"

fun graph_step :: "collaboration_limits \<Rightarrow> graph_op \<Rightarrow> collaboration \<Rightarrow> collaboration" where
  "graph_step limits (Add_child parent child spec) g =
     (if child_spec_check spec = Inr spec \<and> output_contract_check (cs_output_contract spec) = Inr (cs_output_contract spec)
      then (case stage_new_child parent child spec limits g of Some (Inr g') \<Rightarrow> g' | _ \<Rightarrow> g) else g)"
| "graph_step limits (Set_dependencies e) g =
     (if of_graph g e \<and> ce_type e = ''dependency.changed'' \<and> ce_session_id e \<noteq> co_root_session_id g \<and>
         validate_dependencies (ce_session_id e) (changed_dependencies e) g = Inr ()
      then (case co_apply e g of Inr g' \<Rightarrow> g' | Inl _ \<Rightarrow> g) else g)"
| "graph_step limits (Node_event e) g =
     (if node_event_allowed e g then (case co_apply e g of Inr g' \<Rightarrow> g' | Inl _ \<Rightarrow> g) else g)"

text \<open>
  What a step does to the nodes: every node keeps its parent, its task key, its role and its
  dependencies, except the one whose dependencies are set, and at most one node is new.
\<close>

definition shape :: "collaboration_node \<Rightarrow> string option \<times> string \<times> collaboration_role \<times> string list" where
  "shape n = (cn_parent_session_id n, cn_task_key n, cn_role n, cn_dependency_ids n)"

definition shapes :: "collaboration \<Rightarrow> (string \<times> (string option \<times> string \<times> collaboration_role \<times> string list)) list" where
  "shapes g = map (\<lambda>(k, n). (k, shape n)) (co_nodes g)"

lemma shapes_dkeys [simp]: "dkeys (shapes g) = dkeys (co_nodes g)"
  by (simp add: shapes_def case_prod_unfold comp_def)

lemma map_of_shapes: "map_of (shapes g) k = map_option shape (map_of (co_nodes g) k)"
  by (simp add: shapes_def map_of_map)

lemma shape_refreshed [simp]: "shape (refreshed ns n) = shape n"
  by (simp add: shape_def)

lemma map_fst_snd_eqI:
  assumes "distinct (map fst xs)" "map fst ys = map fst xs" "map_of ys = map_of xs"
  shows "ys = xs"
proof (rule nth_equalityI)
  show len: "length ys = length xs" using assms(2) by (metis length_map)
  fix i assume i: "i < length ys"
  have f: "fst (ys ! i) = fst (xs ! i)" using assms(2) i len by (metis nth_map)
  have "map_of xs (fst (xs ! i)) = Some (snd (xs ! i))" "map_of ys (fst (ys ! i)) = Some (snd (ys ! i))"
    using assms(1,2) i len by (simp_all add: map_of_eq_Some_iff)
  then show "ys ! i = xs ! i" using f assms(3) by (simp add: prod_eq_iff)
qed

lemma shapes_refresh:
  assumes "distinct (dkeys (co_nodes g))"
  shows "shapes (refresh_runnable g) = shapes g"
  by (rule map_fst_snd_eqI)
     (use assms in \<open>simp_all add: refresh_runnable_nodes map_of_shapes option.map_comp comp_def fun_eq_iff\<close>)

lemma shapes_set_node: "shapes (set_node k n g) = AList.update k (shape n) (shapes g)"
proof -
  have "map (\<lambda>(k, n). (k, shape n)) (AList.update k n xs) = AList.update k (shape n) (map (\<lambda>(k, n). (k, shape n)) xs)" for xs
    by (induction xs) auto
  then show ?thesis by (simp add: shapes_def)
qed

lemma update_same: "map_of xs k = Some v \<Longrightarrow> AList.update k v xs = xs"
  by (induction xs) auto

type_synonym node_shape = "string option \<times> string \<times> collaboration_role \<times> string list"
type_synonym graph_shape = "(string, node_shape) dict"

inductive at_depth :: "graph_shape \<Rightarrow> string \<Rightarrow> nat \<Rightarrow> bool" for sh where
  top_node: "map_of sh k = Some (None, key, role, deps) \<Longrightarrow> at_depth sh k 0"
| below: "map_of sh k = Some (Some p, key, role, deps) \<Longrightarrow> at_depth sh p d \<Longrightarrow> at_depth sh k (Suc d)"

definition dep_edges :: "graph_shape \<Rightarrow> (string \<times> string) set" where
  "dep_edges sh = {(x, y). \<exists>p key role deps. map_of sh x = Some (p, key, role, deps) \<and> y \<in> set deps}"

definition parents :: "graph_shape \<Rightarrow> string option list" where
  "parents sh = filter (\<lambda>p. p \<noteq> None) (map (fst \<circ> snd) sh)"

definition task_keys :: "graph_shape \<Rightarrow> string list" where
  "task_keys sh = map (\<lambda>(_, _, key, _). key) sh"

definition shaped :: "collaboration_limits \<Rightarrow> string \<Rightarrow> graph_shape \<Rightarrow> bool" where
  \<comment> \<open>a tree under the root within the limits, whose dependencies are known and acyclic\<close>
  "shaped limits root_sid sh \<longleftrightarrow>
     distinct (dkeys sh) \<and> map_of sh root_sid = Some (None, ''root'', CR_ROOT, []) \<and>
     (\<forall>k p key role deps. map_of sh k = Some (p, key, role, deps) \<longrightarrow>
        set deps \<subseteq> set (dkeys sh) \<and> (role = CR_ROOT \<longrightarrow> k = root_sid) \<and> (\<exists>d. at_depth sh k d \<and> int d \<le> cl_max_depth limits)) \<and>
     acyclic (dep_edges sh) \<and> distinct (task_keys sh) \<and>
     int (length (parents sh)) \<le> cl_max_children limits \<and>
     (\<forall>p. int (count_list (parents sh) (Some p)) \<le> cl_max_children_per_parent limits)"

subsection \<open>Depth\<close>

lemma depth_loop_at_depth:
  "at_depth (shapes g) k d \<Longrightarrow> depth_loop (co_nodes g) (Some k) c = Some (Inr (c + 1 + int d))"
proof (induction arbitrary: c rule: at_depth.induct)
  case (top_node k key role deps)
  then show ?case
    by (subst depth_loop.simps) (auto simp: map_of_shapes shape_def depth_loop.simps [of _ None])
next
  case (below k p key role deps d)
  then show ?case by (subst depth_loop.simps) (auto simp: map_of_shapes shape_def)
qed

lemma co_depth_at_depth: "at_depth (shapes g) k d \<Longrightarrow> co_depth k g = Some (Inr (int d))"
proof (erule at_depth.cases)
  fix k' key role deps assume "k = k'" "d = 0" "map_of (shapes g) k' = Some (None, key, role, deps)"
  then show ?thesis by (auto simp: co_depth_def map_of_shapes shape_def depth_loop.simps [of _ None])
next
  fix k' p key role deps d' assume "k = k'" "d = Suc d'" "map_of (shapes g) k' = Some (Some p, key, role, deps)"
    "at_depth (shapes g) p d'"
  then show ?thesis using depth_loop_at_depth [of g p d' 0] by (auto simp: co_depth_def map_of_shapes shape_def)
qed

lemma at_depth_mono: "at_depth sh k d \<Longrightarrow> map_of sh \<subseteq>\<^sub>m map_of sh' \<Longrightarrow> at_depth sh' k d"
proof (induction rule: at_depth.induct)
  case (top_node k key role deps)
  then have "map_of sh' k = Some (None, key, role, deps)" by (auto simp: map_le_def dom_def)
  then show ?case by (rule at_depth.top_node)
next
  case (below k p key role deps d)
  then have "map_of sh' k = Some (Some p, key, role, deps)" by (auto simp: map_le_def dom_def)
  then show ?case using below by (blast intro: at_depth.below)
qed

subsection \<open>A new child\<close>

lemma dependency_graph_edges:
  assumes "\<And>x. map_of sh x = (if x = child then Some (p, key, role, deps) else map_of (shapes g) x)"
  shows "depends (dependency_graph (co_nodes g) child deps) = dep_edges sh"
proof -
  have dg: "dget (dependency_graph (co_nodes g) child deps) x [] =
      (if x = child then deps else case map_of (co_nodes g) x of None \<Rightarrow> [] | Some n \<Rightarrow> cn_dependency_ids n)" for x
    by (simp add: dget_def dependency_graph_def dict_simps map_of_map split: option.splits)
  have "(x, y) \<in> depends (dependency_graph (co_nodes g) child deps) \<longleftrightarrow> (x, y) \<in> dep_edges sh" for x y
    by (cases "map_of (co_nodes g) x") (auto simp: depends_def dep_edges_def dg assms map_of_shapes shape_def)
  then show ?thesis by auto
qed

lemma shaped_child:
  assumes sh: "shaped limits root_sid sh" and fresh: "map_of sh child = None"
    and d: "at_depth sh parent d" "int d + 1 \<le> cl_max_depth limits"
    and key: "key \<notin> set (task_keys sh)" and deps: "set deps \<subseteq> set (dkeys sh)" and role: "role \<noteq> CR_ROOT"
    and count: "int (length (parents sh)) < cl_max_children limits"
      "int (count_list (parents sh) (Some parent)) < cl_max_children_per_parent limits"
    and acyc: "acyclic (dep_edges (sh @ [(child, Some parent, key, role, deps)]))"
  shows "shaped limits root_sid (sh @ [(child, Some parent, key, role, deps)])" (is "shaped _ _ ?sh'")
proof -
  have le: "map_of sh \<subseteq>\<^sub>m map_of ?sh'" using fresh by (auto simp: map_le_def map_add_def split: option.splits)
  have new: "map_of ?sh' child = Some (Some parent, key, role, deps)" using fresh by (simp add: map_add_def)
  have old: "map_of ?sh' k = map_of sh k" if "k \<noteq> child" for k using that by (auto simp: map_add_def split: option.splits)
  have "set deps' \<subseteq> set (dkeys ?sh') \<and> (role' = CR_ROOT \<longrightarrow> k = root_sid) \<and> (\<exists>d. at_depth ?sh' k d \<and> int d \<le> cl_max_depth limits)"
    if k: "map_of ?sh' k = Some (p, key', role', deps')" for k p key' role' deps'
  proof (cases "k = child")
    case True
    have "at_depth ?sh' child (Suc d)" by (rule at_depth.below [OF new at_depth_mono [OF d(1) le]])
    then show ?thesis using k True new deps role d(2) by (auto intro!: exI [of _ "Suc d"])
  next
    case False
    then have "map_of sh k = Some (p, key', role', deps')" using k old by simp
    then have "set deps' \<subseteq> set (dkeys sh) \<and> (role' = CR_ROOT \<longrightarrow> k = root_sid) \<and> (\<exists>d. at_depth sh k d \<and> int d \<le> cl_max_depth limits)"
      using sh unfolding shaped_def by blast
    then show ?thesis using at_depth_mono [OF _ le] by auto
  qed
  moreover have "distinct (dkeys ?sh')" "map_of ?sh' root_sid = Some (None, ''root'', CR_ROOT, [])" "distinct (task_keys ?sh')"
    using sh fresh key by (auto simp: shaped_def task_keys_def map_of_eq_None_iff map_add_def split: option.splits)
  moreover have "int (length (parents ?sh')) \<le> cl_max_children limits"
    "\<forall>p. int (count_list (parents ?sh') (Some p)) \<le> cl_max_children_per_parent limits"
    using sh count by (auto simp: shaped_def parents_def)
  ultimately show ?thesis using acyc unfolding shaped_def by blast
qed

subsection \<open>Changed dependencies\<close>

lemma map_update_same: "map_of xs k = Some v0 \<Longrightarrow> f (k, v) = f (k, v0) \<Longrightarrow> map f (AList.update k v xs) = map f xs"
  by (induction xs) auto

lemma at_depth_parents:
  assumes "at_depth sh k d" "\<And>x. map_option fst (map_of sh' x) = map_option fst (map_of sh x)"
  shows "at_depth sh' k d"
  using assms(1)
proof (induction rule: at_depth.induct)
  case (top_node k key role deps)
  then have "map_option fst (map_of sh' k) = Some None" by (simp add: assms(2))
  then show ?case by (auto intro: at_depth.top_node)
next
  case (below k p key role deps d)
  then have "map_option fst (map_of sh' k) = Some (Some p)" by (simp add: assms(2))
  with below.IH show ?case by (auto intro: at_depth.below)
qed

lemma shaped_dependencies:
  assumes sh: "shaped limits root_sid sh" and k: "map_of sh k = Some (p, key, role, old)" "k \<noteq> root_sid"
    and deps: "set deps \<subseteq> set (dkeys sh)" "acyclic (dep_edges (AList.update k (p, key, role, deps) sh))"
  shows "shaped limits root_sid (AList.update k (p, key, role, deps) sh)" (is "shaped _ _ ?sh'")
proof -
  have "k \<in> set (dkeys sh)" using k(1) map_of_None_dkeys [of sh k] by force
  then have keys: "dkeys ?sh' = dkeys sh" by (simp add: dkeys_update)
  have same: "parents ?sh' = parents sh" "task_keys ?sh' = task_keys sh"
    unfolding parents_def task_keys_def using map_update_same [OF k(1), of "fst \<circ> snd"] map_update_same [OF k(1), of "\<lambda>(_, _, key, _). key"] by simp_all
  have par: "map_option fst (map_of ?sh' x) = map_option fst (map_of sh x)" for x using k(1) by (simp add: dict_simps)
  have "set deps' \<subseteq> set (dkeys ?sh') \<and> (role' = CR_ROOT \<longrightarrow> x = root_sid) \<and> (\<exists>d. at_depth ?sh' x d \<and> int d \<le> cl_max_depth limits)"
    if x: "map_of ?sh' x = Some (p', key', role', deps')" for x p' key' role' deps'
  proof -
    obtain ds where ds: "map_of sh x = Some (p', key', role', ds)"
      using x k(1) by (cases "x = k") (auto simp: dict_simps)
    then have "set ds \<subseteq> set (dkeys sh) \<and> (role' = CR_ROOT \<longrightarrow> x = root_sid) \<and> (\<exists>d. at_depth sh x d \<and> int d \<le> cl_max_depth limits)"
      using sh unfolding shaped_def by blast
    moreover have "deps' = (if x = k then deps else ds)" using x ds by (auto simp: dict_simps)
    ultimately show ?thesis using at_depth_parents [OF _ par] deps(1) keys by auto
  qed
  moreover have "map_of ?sh' root_sid = Some (None, ''root'', CR_ROOT, [])" using sh k(2) by (simp add: shaped_def dict_simps)
  moreover have "distinct (dkeys ?sh')" "distinct (task_keys ?sh')" "int (length (parents ?sh')) \<le> cl_max_children limits"
    "\<forall>p. int (count_list (parents ?sh') (Some p)) \<le> cl_max_children_per_parent limits"
    using sh unfolding keys same shaped_def by blast+
  ultimately show ?thesis using deps(2) unfolding shaped_def by blast
qed

subsection \<open>Runnable nodes\<close>

definition released :: "collaboration \<Rightarrow> bool" where
  "released g \<longleftrightarrow>
     (\<forall>k n. map_of (co_nodes g) k = Some n \<and> \<not> settled n \<longrightarrow>
        cn_status n = (if \<forall>d \<in> set (cn_dependency_ids n). completed (co_nodes g) d = Some True then ''runnable'' else ''blocked''))"

lemma completed_refresh:
  assumes "distinct (dkeys (co_nodes g))"
  shows "completed (co_nodes (refresh_runnable g)) = completed (co_nodes g)"
proof
  fix d
  show "completed (co_nodes (refresh_runnable g)) d = completed (co_nodes g) d"
    by (auto simp: completed_def refresh_runnable_nodes [OF assms] refreshed_def settled_def option.map_comp map_option_case split: option.splits)
qed

lemma released_cong: "co_nodes g = co_nodes h \<Longrightarrow> released g = released h"
  by (simp add: released_def)

lemma settled_refreshed: "settled n \<Longrightarrow> refreshed ns n = n" "\<not> settled n \<Longrightarrow> \<not> settled (refreshed ns n)"
  by (simp_all add: refreshed_def settled_def)

lemma released_refresh:
  assumes "distinct (dkeys (co_nodes g))"
  shows "released (refresh_runnable g)"
  unfolding released_def completed_refresh [OF assms] refresh_runnable_nodes(1) [OF assms]
proof (intro allI impI)
  fix k n' assume "map_option (refreshed (co_nodes g)) (map_of (co_nodes g) k) = Some n' \<and> \<not> settled n'"
  then obtain n where n': "n' = refreshed (co_nodes g) n" "\<not> settled n" using settled_refreshed(1) by fastforce
  show "cn_status n' = (if \<forall>d \<in> set (cn_dependency_ids n'). completed (co_nodes g) d = Some True then ''runnable'' else ''blocked'')"
    unfolding n'(1) refreshed_fields using n'(2) by (simp add: refreshed_def)
qed

lemma released_set_node:
  assumes "released g" "map_of (co_nodes g) k = Some n"
    and "cn_status n' = ''completed'' \<longleftrightarrow> cn_status n = ''completed''"
    and "\<not> settled n' \<Longrightarrow> cn_status n' = (if \<forall>d \<in> set (cn_dependency_ids n'). completed (co_nodes g) d = Some True then ''runnable'' else ''blocked'')"
  shows "released (set_node k n' g)"
proof -
  have "completed (AList.update k n' (co_nodes g)) = completed (co_nodes g)"
    using assms(2,3) by (auto simp: completed_def dict_simps)
  then show ?thesis using assms(1,4) by (auto simp: released_def dict_simps)
qed

definition grown :: "collaboration_limits \<Rightarrow> collaboration \<Rightarrow> bool" where
  "grown limits g \<longleftrightarrow> co_typed g \<and> shaped limits (co_root_session_id g) (shapes g) \<and> released g"

subsection \<open>Events\<close>

lemma node_update_step:
  assumes "grown limits g" "map_of (co_nodes g) k = Some n" "shape n' = shape n"
  shows "shapes (set_node k n' g) = shapes g" "distinct (dkeys (co_nodes (set_node k n' g)))"
  using assms by (simp_all add: shapes_set_node update_same map_of_shapes grown_def co_typed_def dict_simps)

lemma node_refresh_step:
  assumes "grown limits g" "map_of (co_nodes g) k = Some n" "shape n' = shape n"
  shows "shapes (refresh_runnable (set_node k n' g)) = shapes g \<and> released (refresh_runnable (set_node k n' g))"
  using node_update_step [OF assms] shapes_refresh [of "set_node k n' g"] released_refresh [of "set_node k n' g"] by simp

lemma co_node_Inr: "co_node k g = Inr n \<longleftrightarrow> map_of (co_nodes g) k = Some n"
  by (simp add: co_node_def split: option.splits)

lemma event_run_requested:
  assumes "grown limits g" "map_of (co_nodes g) k = Some n"
  shows "shapes (set_node k (n\<lparr>cn_run_id := i\<rparr>) g) = shapes g \<and> released (set_node k (n\<lparr>cn_run_id := i\<rparr>) g)"
proof -
  have "released g" using assms(1) by (simp add: grown_def)
  from released_set_node [OF this assms(2), of "n\<lparr>cn_run_id := i\<rparr>"] this assms(2)
  have "released (set_node k (n\<lparr>cn_run_id := i\<rparr>) g)" by (simp add: settled_def released_def)
  then show ?thesis using node_update_step(1) [OF assms, of "n\<lparr>cn_run_id := i\<rparr>"] by (simp add: shape_def)
qed

lemma event_owner_set:
  assumes "grown limits g" "owner_set e g = Inr g'"
  shows "shapes g' = shapes g \<and> released g'"
proof -
  let ?k = "ce_session_id e"
  obtain n v where n: "map_of (co_nodes g) ?k = Some n" and g': "g' =
      (let n' = n\<lparr>cn_owner := Some (py_str v)\<rparr>; h = set_node ?k n' g in
       if cn_status n' = ''blocked'' \<and> dependencies_satisfied (co_nodes h) n'
       then set_node ?k (n'\<lparr>cn_status := ''runnable''\<rparr>) h else h)"
    using assms(2) by (auto simp: owner_set_def Let_def co_node_Inr)
  define n' where "n' = n\<lparr>cn_owner := Some (py_str v)\<rparr>"
  define h where "h = set_node ?k n' g"
  have rel: "released g" using assms(1) by (simp add: grown_def)
  have hs: "shapes h = shapes g" unfolding h_def by (rule node_update_step(1) [OF assms(1) n]) (simp add: n'_def shape_def)
  have h: "released h" unfolding h_def
    by (rule released_set_node [OF rel n]) (use rel n in \<open>simp_all add: n'_def settled_def released_def\<close>)
  have hn: "map_of (co_nodes h) ?k = Some n'" by (simp add: h_def dict_simps)
  have "released (set_node ?k (n'\<lparr>cn_status := ''runnable''\<rparr>) h)" if "dependencies_satisfied (co_nodes h) n'" "cn_status n' = ''blocked''"
    by (rule released_set_node [OF h hn]) (use that in \<open>simp_all add: dependencies_satisfied_completed\<close>)
  moreover have "shapes (set_node ?k (n'\<lparr>cn_status := ''runnable''\<rparr>) h) = shapes h"
    using hn by (simp add: shapes_set_node update_same map_of_shapes shape_def)
  ultimately show ?thesis unfolding g' Let_def n'_def [symmetric] h_def [symmetric] using h hs by auto
qed

lemma event_started:
  assumes "grown limits g" "map_of (co_nodes g) (ce_session_id e) = Some n" "completed (co_nodes g) (ce_session_id e) \<noteq> Some True"
  shows "shapes (status_set ''running'' e g) = shapes g \<and> released (status_set ''running'' e g)"
proof -
  have "released g" using assms(1) by (simp add: grown_def)
  from released_set_node [OF this assms(2), of "n\<lparr>cn_status := ''running''\<rparr>"] assms(2,3)
  have "released (set_node (ce_session_id e) (n\<lparr>cn_status := ''running''\<rparr>) g)" by (simp add: settled_def completed_def)
  then show ?thesis
    using node_update_step(1) [OF assms(1,2), of "n\<lparr>cn_status := ''running''\<rparr>"] assms(2) by (simp add: status_set_def shape_def)
qed

lemma event_settled:
  assumes "grown limits g" "map_of (co_nodes g) (ce_session_id e) = Some n"
  shows "shapes (refresh_runnable (status_set s e g)) = shapes g \<and> released (refresh_runnable (status_set s e g))"
  using node_refresh_step [OF assms, of "n\<lparr>cn_status := s\<rparr>"] assms(2) by (simp add: status_set_def shape_def)

lemma event_result_published:
  assumes "grown limits g" "result_published e g = Inr g'"
  shows "shapes g' = shapes g \<and> released g'"
  using assms(2) node_refresh_step [OF assms(1)] by (auto simp: result_published_def co_node_Inr shape_def)

lemma event_review_completed:
  assumes "grown limits g" "review_completed e g = Inr g'"
  shows "shapes g' = shapes g \<and> released g'"
proof -
  define review where "review = AList.update ''review_session_id'' (PStr (ce_session_id e)) (ce_payload e)"
  define h where "h = g\<lparr>co_reviews := AList.update (ce_session_id e) review (co_reviews g)\<rparr>"
  obtain n where n: "map_of (co_nodes g) (ce_session_id e) = Some n"
    and g': "g' = refresh_runnable (set_node (ce_session_id e) (n\<lparr>cn_status := ''completed'', cn_result := Some review\<rparr>) h)"
    using assms(2) by (auto simp: review_completed_def Let_def h_def review_def co_node_Inr)
  have "shapes g' = shapes (refresh_runnable (set_node (ce_session_id e) (n\<lparr>cn_status := ''completed'', cn_result := Some review\<rparr>) g))"
    "co_nodes g' = co_nodes (refresh_runnable (set_node (ce_session_id e) (n\<lparr>cn_status := ''completed'', cn_result := Some review\<rparr>) g))"
    unfolding g' by (simp_all add: refresh_runnable_def shapes_def h_def)
  moreover have "shapes (refresh_runnable (set_node (ce_session_id e) (n\<lparr>cn_status := ''completed'', cn_result := Some review\<rparr>) g)) = shapes g \<and>
      released (refresh_runnable (set_node (ce_session_id e) (n\<lparr>cn_status := ''completed'', cn_result := Some review\<rparr>) g))"
    by (rule node_refresh_step [OF assms(1) n]) (simp add: shape_def)
  ultimately show ?thesis using released_cong [of g'] by metis
qed

lemma rall_ifI: "(c \<Longrightarrow> rall P x) \<Longrightarrow> (\<not> c \<Longrightarrow> rall P y) \<Longrightarrow> rall P (if c then x else y)"
  by simp

lemma node_event_keeps:
  assumes g: "grown limits g" and ok: "node_event_allowed e g"
  shows "rall (\<lambda>g'. shapes g' = shapes g \<and> released g') (co_apply e g)"
proof -
  let ?P = "\<lambda>g'. shapes g' = shapes g \<and> released g'" and ?k = "ce_session_id e"
  have rel: "released g" using g by (simp add: grown_def)
  have others: "rall ?P (owner_set e g)" "rall ?P (result_published e g)" "rall ?P (review_completed e g)"
    using event_owner_set [OF g] event_result_published [OF g] event_review_completed [OF g] by (auto intro: rallI)
  have run: "rall ?P (rbind (pitem (ce_payload e) ''run_id'') (\<lambda>v. rbind (co_node ?k g) (\<lambda>n.
      Inr (set_node ?k (n\<lparr>cn_run_id := Some (py_str v)\<rparr>) g))))"
    by (simp add: co_node_Inr event_run_requested [OF g])
  have join: "rall ?P (rbind (pitem (ce_payload e) ''child_session_ids'') (\<lambda>v. rbind (py_strs v) (\<lambda>cs.
      Inr (g\<lparr>co_joined_children := cs\<rparr>))))"
    using released_cong [of "g\<lparr>co_joined_children := cs\<rparr>" g for cs] rel by (simp add: shapes_def)
  have started: "?P (status_set ''running'' e g)" if "ce_type e = ''run.started'' \<and> map_of (co_nodes g) ?k \<noteq> None"
    using event_started [OF g] ok that by (auto simp: node_event_allowed_def)
  have settled: "?P (refresh_runnable (status_set st e g))" if "map_of (co_nodes g) ?k \<noteq> None" for st
    using event_settled [OF g] that by blast
  have "ce_type e \<in> set NODE_EVENTS" using ok by (simp add: node_event_allowed_def)
  then have ty: "\<not> (ce_type e = ''session.created'' \<and> ?k = co_root_session_id g)" "ce_type e \<noteq> ''child.created''"
    "ce_type e \<noteq> ''dependency.changed''"
    by (auto simp: NODE_EVENTS_def)
  show ?thesis
    unfolding co_apply_def Let_def if_not_P [OF ty(1)] if_not_P [OF ty(2)] if_not_P [OF ty(3)]
    by (intro rall_ifI; (rule others run join)?; unfold rall_simps(2);
        ((rule started, assumption) | (rule settled, erule conjunct2) | simp add: rel))
qed

lemma set_dependencies_keeps:
  assumes g: "grown limits g" and e: "ce_type e = ''dependency.changed''" "ce_session_id e \<noteq> co_root_session_id g"
    and v: "validate_dependencies (ce_session_id e) (changed_dependencies e) g = Inr ()" and ap: "co_apply e g = Inr g'"
  shows "shaped limits (co_root_session_id g) (shapes g') \<and> released g'"
proof -
  let ?k = "ce_session_id e" and ?deps = "changed_dependencies e"
  obtain n where n: "map_of (co_nodes g) ?k = Some n" and g': "g' = refresh_runnable (set_node ?k (n\<lparr>cn_dependency_ids := ?deps\<rparr>) g)"
    using ap e by (auto simp: co_apply_def Let_def dependency_changed_def co_node_Inr changed_dependencies_def)
  let ?h = "set_node ?k (n\<lparr>cn_dependency_ids := ?deps\<rparr>) g"
  have dist: "distinct (dkeys (co_nodes ?h))" using g by (simp add: grown_def co_typed_def dict_simps)
  have sh: "map_of (shapes g) ?k = Some (cn_parent_session_id n, cn_task_key n, cn_role n, cn_dependency_ids n)"
    using n by (simp add: map_of_shapes shape_def)
  let ?sh = "AList.update ?k (cn_parent_session_id n, cn_task_key n, cn_role n, ?deps) (shapes g)"
  have shapes: "shapes g' = ?sh" unfolding g' shapes_refresh [OF dist] shapes_set_node by (simp add: shape_def)
  have "depends (dependency_graph (co_nodes g) ?k ?deps) = dep_edges ?sh"
    by (rule dependency_graph_edges) (simp add: dict_simps)
  then have "acyclic (dep_edges ?sh)" "set ?deps \<subseteq> set (dkeys (shapes g))"
    using v by (auto simp: validate_dependencies_iff)
  then have "shaped limits (co_root_session_id g) ?sh"
    using g e(2) by (intro shaped_dependencies [OF _ sh]) (simp_all add: grown_def)
  then show ?thesis using shapes released_refresh [OF dist] by (simp add: g')
qed

lemma validate_new_child_ok:
  assumes "validate_new_child parent child spec limits g = Some (Inr ())"
  shows "map_of (co_nodes g) parent \<noteq> None" "map_of (co_nodes g) child = None"
    "cs_task_key spec \<notin> cn_task_key ` snd ` set (co_nodes g)"
    "int (length (co_children g)) < cl_max_children limits"
    "int (length (filter (\<lambda>n. cn_parent_session_id n = Some parent) (co_children g))) < cl_max_children_per_parent limits"
    "\<exists>d. co_depth parent g = Some (Inr d) \<and> d + 1 \<le> cl_max_depth limits"
    "validate_dependencies child (cs_dependency_ids spec) g = Inr ()"
  using assms unfolding validate_new_child_def Let_def raise_if_def
  by (auto simp: list_ex_iff not_le split: if_splits option.splits)

lemma parents_children:
  "length (parents (shapes g)) = length (co_children g)"
  "count_list (parents (shapes g)) (Some p) = length (filter (\<lambda>n. cn_parent_session_id n = Some p) (co_children g))"
proof -
  have *: "parents (shapes g) = map cn_parent_session_id (co_children g)"
    by (simp add: parents_def shapes_def co_children_def case_prod_unfold shape_def comp_def filter_map)
  show "length (parents (shapes g)) = length (co_children g)" by (simp add: *)
  show "count_list (parents (shapes g)) (Some p) = length (filter (\<lambda>n. cn_parent_session_id n = Some p) (co_children g))"
    unfolding * by (induction "co_children g") (simp_all add: count_list_eq_length_filter filter_map comp_def eq_commute)
qed

lemma add_child_keeps:
  assumes g: "grown limits g" and spec: "child_spec_check spec = Inr spec" "output_contract_check (cs_output_contract spec) = Inr (cs_output_contract spec)"
    and st: "stage_new_child parent child spec limits g = Some (Inr g')"
  shows "grown limits g'"
proof -
  define h where "h = set_node child (staged_node parent child spec g) g"
  have v: "validate_new_child parent child spec limits g = Some (Inr ())" and g': "g' = refresh_runnable h"
    using st by (auto simp: stage_new_child_def h_def)
  note ok = validate_new_child_ok [OF v]
  have role: "cs_role spec \<noteq> CR_ROOT" using spec(1) by (auto simp: child_spec_check_def raise_if_def split: if_splits)
  have fields: "set (oc_required_fields (cs_output_contract spec)) \<subseteq> set PUBLISHABLE_CHILD_RESULT_FIELDS"
    using spec(2) by (auto simp: output_contract_check_def Let_def sort_empty filter_empty_conv)
  have typed: "co_typed h" unfolding h_def
    using g role fields by (intro co_typed_set_node) (simp_all add: grown_def node_ok_def staged_node_def STATUSES_def)
  then have dist: "distinct (dkeys (co_nodes h))" by (simp add: co_typed_def)
  let ?sh = "shapes g @ [(child, Some parent, cs_task_key spec, cs_role spec, cs_dependency_ids spec)]"
  have new: "map_of (shapes g) child = None" using ok(2) by (simp add: map_of_shapes)
  have sh: "shapes g' = ?sh"
    unfolding g' shapes_refresh [OF dist] unfolding h_def shapes_set_node
    using new by (simp add: update_absent map_of_None_dkeys shape_def staged_node_def)
  obtain n where "map_of (shapes g) parent = Some (shape n)" using ok(1) by (auto simp: map_of_shapes)
  then have "\<exists>d. at_depth (shapes g) parent d"
    using g unfolding grown_def shaped_def shape_def by blast
  then obtain d where d: "at_depth (shapes g) parent d" ..
  have "int d + 1 \<le> cl_max_depth limits" using ok(6) co_depth_at_depth [OF d] by auto
  moreover have "cs_task_key spec \<notin> set (task_keys (shapes g))"
    using ok(3) by (force simp: task_keys_def shapes_def shape_def)
  moreover have "map_of ?sh x = (if x = child then Some (Some parent, cs_task_key spec, cs_role spec, cs_dependency_ids spec) else map_of (shapes g) x)" for x
    using new by (simp add: map_add_def split: option.splits)
  from dependency_graph_edges [OF this] have "acyclic (dep_edges ?sh)" "set (cs_dependency_ids spec) \<subseteq> set (dkeys (shapes g))"
    using ok(7) unfolding validate_dependencies_iff shapes_dkeys by simp_all
  ultimately have "shaped limits (co_root_session_id g) ?sh"
    using g ok(4,5) role new by (intro shaped_child [OF _ _ d]) (simp_all add: grown_def parents_children)
  then show ?thesis
    using typed sh released_refresh [OF dist] co_typed_refresh [OF typed] by (simp add: grown_def g' h_def)
qed

lemma graph_step_grown: "grown limits g \<Longrightarrow> grown limits (graph_step limits op g)"
proof (cases op)
  case (Set_dependencies e)
  assume g: "grown limits g"
  show ?thesis
  proof (cases "co_apply e g")
    case (Inr g')
    then show ?thesis
      using g Set_dependencies set_dependencies_keeps [OF g _ _ _ Inr] rallD [OF co_apply_typed Inr]
      by (auto simp: grown_def kept_def)
  qed (use Set_dependencies g in auto)
next
  case (Node_event e)
  assume g: "grown limits g"
  show ?thesis
  proof (cases "co_apply e g")
    case (Inr g')
    then show ?thesis
      using g Node_event rallD [OF node_event_keeps [OF g] Inr] rallD [OF co_apply_typed Inr]
      by (auto simp: grown_def kept_def node_event_allowed_def)
  qed (use Node_event g in auto)
qed (auto split: option.splits sum.splits intro: add_child_keeps)

lemma co_root_grown:
  assumes "collaboration_limits_check limits = Inr limits"
  shows "grown limits (co_root tenant root_sid goal)"
proof -
  let ?g = "co_root tenant root_sid goal"
  have lim: "1 \<le> cl_max_depth limits" "1 \<le> cl_max_children limits" "1 \<le> cl_max_children_per_parent limits"
    using assms by (auto simp: collaboration_limits_check_def raise_if_def split: if_splits)
  obtain n where g: "?g = (co_empty tenant root_sid)\<lparr>co_nodes := [(root_sid, n)]\<rparr>"
    and n: "shape n = (None, ''root'', CR_ROOT, [])" "node_ok tenant root_sid root_sid n"
    by (simp add: co_root_def root_created_def set_node_def co_empty_def sample_event_def pitem_Cons shape_def
        node_ok_def STATUSES_def default_output_contract_def PUBLISHABLE_CHILD_RESULT_FIELDS_def)
  have sh: "shapes ?g = [(root_sid, None, ''root'', CR_ROOT, [])]" by (simp add: g shapes_def n)
  have "at_depth (shapes ?g) root_sid 0" by (rule at_depth.top_node) (simp add: sh)
  moreover have "dep_edges (shapes ?g) = {}" by (auto simp: sh dep_edges_def split: if_splits)
  ultimately have "shaped limits root_sid (shapes ?g)"
    using lim by (auto simp: shaped_def sh acyclic_def parents_def task_keys_def)
  moreover have "settled n" using n(1) by (simp add: settled_def shape_def)
  ultimately show ?thesis
    using n(2) by (simp add: grown_def g co_typed_def co_empty_def released_def)
qed

locale valid_limits =
  fixes limits :: collaboration_limits
  assumes checked: "collaboration_limits_check limits = Inr limits"

sublocale valid_limits \<subseteq> graph: store_machine "co_root tenant root_sid goal" "graph_step limits" "grown limits" for tenant root_sid goal
  by unfold_locales (rule co_root_grown [OF checked], rule graph_step_grown)

interpretation default_graph: valid_limits default_limits
  by unfold_locales (simp add: collaboration_limits_check_def default_limits_def)

context valid_limits
begin

lemma reachable: "grown limits (fold (graph_step limits) ops (co_root tenant root_sid goal))"
  using graph.inv_reachable [of ops tenant root_sid goal] by (simp add: graph.run_def)

end

lemma reachable_graph:
  "collaboration_limits_check limits = Inr limits \<Longrightarrow>
   grown limits (fold (graph_step limits) ops (co_root tenant root_sid goal))"
  by (rule valid_limits.reachable) (rule valid_limits.intro)

lemma shaped_node:
  assumes "shaped limits root_sid (shapes g)" "map_of (co_nodes g) k = Some n"
  shows "set (cn_dependency_ids n) \<subseteq> set (dkeys (co_nodes g))" "cn_role n = CR_ROOT \<Longrightarrow> k = root_sid"
    "\<exists>d. at_depth (shapes g) k d \<and> int d \<le> cl_max_depth limits"
proof -
  have "map_of (shapes g) k = Some (cn_parent_session_id n, cn_task_key n, cn_role n, cn_dependency_ids n)"
    using assms(2) by (simp add: map_of_shapes shape_def)
  then have "set (cn_dependency_ids n) \<subseteq> set (dkeys (shapes g)) \<and> (cn_role n = CR_ROOT \<longrightarrow> k = root_sid) \<and>
      (\<exists>d. at_depth (shapes g) k d \<and> int d \<le> cl_max_depth limits)"
    using assms(1) unfolding shaped_def by blast
  then show "set (cn_dependency_ids n) \<subseteq> set (dkeys (co_nodes g))" "cn_role n = CR_ROOT \<Longrightarrow> k = root_sid"
    "\<exists>d. at_depth (shapes g) k d \<and> int d \<le> cl_max_depth limits" by simp_all
qed

lemma stuck_free:
  assumes gr: "grown limits g"
    and all: "\<forall>n \<in> set (co_children g). cn_status n \<notin> {''running'', ''failed'', ''cancelled''} \<and> co_root_session_id g \<notin> set (cn_dependency_ids n)"
    and ex: "\<exists>n \<in> set (co_children g). cn_status n \<noteq> ''completed''"
  shows "runnable g \<noteq> []"
proof -
  have sh: "shaped limits (co_root_session_id g) (shapes g)" and typed: "co_typed g" and rel: "released g" using gr by (auto simp: grown_def)
  let ?open = "{k. \<exists>n. map_of (co_nodes g) k = Some n \<and> k \<noteq> co_root_session_id g \<and> cn_status n \<noteq> ''completed''}"
  have child: "n \<in> set (co_children g)" if "map_of (co_nodes g) k = Some n" "k \<noteq> co_root_session_id g" for k n
  proof -
    have "cn_parent_session_id n \<noteq> None" using that typed unfolding co_typed_def node_ok_def by blast
    moreover have "n \<in> set (map snd (co_nodes g))" using map_of_SomeD [OF that(1)] by (auto intro: rev_image_eqI)
    ultimately show ?thesis by (simp add: co_children_def)
  qed
  obtain n where n: "n \<in> set (co_children g)" "cn_status n \<noteq> ''completed''" using ex by blast
  then obtain k where "(k, n) \<in> set (co_nodes g)" "cn_parent_session_id n \<noteq> None" by (auto simp: co_children_def)
  moreover from this have kn: "map_of (co_nodes g) k = Some n" using typed by (simp add: co_typed_def)
  ultimately have "k \<noteq> co_root_session_id g" using sh by (auto simp: shaped_def map_of_shapes shape_def)
  with kn have k: "k \<in> ?open" using n(2) by blast
  have "finite (dep_edges (shapes g))"
  proof (rule finite_subset)
    show "dep_edges (shapes g) \<subseteq> (\<Union>x \<in> set (shapes g). {fst x} \<times> set (snd (snd (snd (snd x)))))"
    proof
      fix e assume "e \<in> dep_edges (shapes g)"
      then obtain x y p key role deps where "e = (x, y)" "(x, p, key, role, deps) \<in> set (shapes g)" "y \<in> set deps"
        by (auto simp: dep_edges_def dest: map_of_SomeD)
      then show "e \<in> (\<Union>x \<in> set (shapes g). {fst x} \<times> set (snd (snd (snd (snd x)))))" by force
    qed
  qed auto
  then have wf: "wf ((dep_edges (shapes g))\<inverse>)"
    using sh by (intro finite_acyclic_wf_converse) (simp_all add: shaped_def)
  obtain z where z: "z \<in> ?open" and min: "\<And>y. (y, z) \<in> (dep_edges (shapes g))\<inverse> \<Longrightarrow> y \<notin> ?open"
    by (rule wfE_min [OF wf k]) blast
  then obtain m where m: "map_of (co_nodes g) z = Some m" "z \<noteq> co_root_session_id g" "cn_status m \<noteq> ''completed''" by blast
  have "completed (co_nodes g) d = Some True" if d: "d \<in> set (cn_dependency_ids m)" for d
  proof -
    have "d \<notin> ?open" by (rule min) (use m(1) d in \<open>auto simp: dep_edges_def map_of_shapes shape_def\<close>)
    moreover have "map_of (co_nodes g) d \<noteq> None" using shaped_node(1) [OF sh m(1)] d by (auto simp: map_of_eq_None_iff)
    moreover have "d \<noteq> co_root_session_id g" using all child [OF m(1,2)] d by blast
    ultimately show ?thesis by (auto simp: completed_def)
  qed
  then have deps: "\<forall>d \<in> set (cn_dependency_ids m). completed (co_nodes g) d = Some True" by blast
  have "cn_status m \<notin> {''running'', ''failed'', ''cancelled''}" using all child [OF m(1,2)] by blast
  moreover have "cn_role m \<noteq> CR_ROOT" using m(2) shaped_node(2) [OF sh m(1)] by blast
  ultimately have "\<not> settled m" using m(3) by (simp add: settled_def)
  then have "cn_status m = ''runnable''" using rel m(1) deps unfolding released_def by simp
  moreover have "m \<in> set (map snd (co_nodes g))" using map_of_SomeD [OF m(1)] by (auto intro: rev_image_eqI)
  ultimately show ?thesis by (auto simp: runnable_def filter_empty_conv simp del: set_map)
qed

text \<open>
  C39: the depth loop always ends. In every graph that grew from a root by accepted children, accepted
  changes of dependencies and events of its nodes, \<open>depth\<close> of every node and \<open>validate_new_child\<close> for
  every candidate return.
\<close>

theorem new_child_check_returns:
  fixes limits ops tenant root_sid goal
  defines "g \<equiv> fold (graph_step limits) ops (co_root tenant root_sid goal)"
  assumes "collaboration_limits_check limits = Inr limits"
  shows "(\<exists>r. co_depth sid g = Some r) \<and> (\<exists>r. validate_new_child parent child spec limits' g = Some r)"
proof -
  have "grown limits g" unfolding g_def by (rule reachable_graph [OF assms(2)])
  then have "\<exists>r. co_depth k g = Some r" for k
    using shaped_node(3) [of limits "co_root_session_id g" g k] co_depth_at_depth [of g k]
    by (cases "map_of (co_nodes g) k") (auto simp: grown_def co_depth_def)
  then obtain r r' where "co_depth sid g = Some r" "co_depth parent g = Some r'" by blast
  then show ?thesis by (auto simp: validate_new_child_def Let_def split: sum.splits)
qed



section \<open>Examples\<close>

definition demo_spec :: "string \<Rightarrow> string list \<Rightarrow> child_spec" where
  "demo_spec key deps = \<lparr>cs_task_key = key, cs_role = CR_WORKER, cs_goal = ''part'', cs_output_contract = default_output_contract,
     cs_dependency_ids = deps, cs_input_refs = [], cs_tool_permissions = [], cs_budget = Fin 1, cs_runtime_budget = [], cs_metadata = []\<rparr>"

definition demo_ops :: "graph_op list" where
  "demo_ops = [Add_child ''r'' ''c1'' (demo_spec ''one'' [])]"

definition demo_graph :: collaboration where
  "demo_graph = fold (graph_step default_limits) demo_ops (co_root ''t'' ''r'' ''goal'')"

lemma f_add_zero_one: "f_add (Fin 0) (Fin 1) = Fin 1"
  by code_simp

lemma demo_root:
  "\<exists>n. co_root tenant root_sid goal = (co_empty tenant root_sid)\<lparr>co_nodes := [(root_sid, n)]\<rparr> \<and>
     shape n = (None, ''root'', CR_ROOT, [])"
  by (simp add: co_root_def root_created_def co_empty_def set_node_def sample_event_def pitem_Cons shape_def)

lemma demo_child_accepted:
  "validate_new_child ''r'' ''c1'' (demo_spec ''one'' []) default_limits (co_root ''t'' ''r'' ''goal'') = Some (Inr ())"
proof -
  obtain n where "co_root ''t'' ''r'' ''goal'' = (co_empty ''t'' ''r'')\<lparr>co_nodes := [(''r'', n)]\<rparr>"
    "shape n = (None, ''root'', CR_ROOT, [])"
    using demo_root by blast
  then show ?thesis
    by (simp add: validate_new_child_def co_empty_def shape_def default_limits_def demo_spec_def co_children_def
        co_depth_def depth_loop.simps [of _ None] f_sum_def f_lt_def f_add_zero_one del: f_add.simps)
       (simp add: validate_dependencies_def dependency_graph_def dget_def)
qed

lemma demo_graph_children:
  "(co_root_session_id demo_graph, map (\<lambda>n. (cn_status n, cn_dependency_ids n)) (co_children demo_graph)) =
     (''r'', [(''runnable'', [])])"
proof -
  obtain n where n: "co_root ''t'' ''r'' ''goal'' = (co_empty ''t'' ''r'')\<lparr>co_nodes := [(''r'', n)]\<rparr>"
    "shape n = (None, ''root'', CR_ROOT, [])"
    using demo_root by blast
  have spec: "child_spec_check (demo_spec ''one'' []) = Inr (demo_spec ''one'' [])"
    "output_contract_check default_output_contract = Inr default_output_contract"
    by code_simp+
  have g: "demo_graph = refresh_runnable (set_node ''c1'' (staged_node ''r'' ''c1'' (demo_spec ''one'' []) (co_root ''t'' ''r'' ''goal''))
      (co_root ''t'' ''r'' ''goal''))"
    using demo_child_accepted spec
    by (simp add: demo_graph_def demo_ops_def stage_new_child_def demo_spec_def [THEN arg_cong [of _ _ cs_output_contract]])
  show ?thesis
    unfolding g n(1) using n(2) by (simp add: co_empty_def set_node_def refresh_runnable_def refresh_node_def settled_def shape_def staged_node_def
        demo_spec_def dependencies_satisfied_def co_children_def)
qed

lemma default_limits_checked: "collaboration_limits_check default_limits = Inr default_limits"
  by (rule default_graph.checked)

theorem new_child_check_returns_witness:
  "\<exists>r. validate_new_child ''c1'' ''c2'' (demo_spec ''two'' [''c1'']) default_limits demo_graph = Some r"
  using new_child_check_returns [OF default_limits_checked, where ops = demo_ops and tenant = "''t''" and root_sid = "''r''" and goal = "''goal''"] unfolding demo_graph_def by blast



theorem rebuilt_graph_typed_witness:
  "\<exists>g. co_from_events ''t1'' ''s1'' [sample_event ''s1'' None 1 ''session.created'' [(''goal'', PStr ''g'')]] = Inr g \<and> co_typed g \<and>
     dkeys (co_nodes g) = [''s1'']"
proof -
  let ?e = "sample_event ''s1'' None 1 ''session.created'' [(''goal'', PStr ''g'')]"
  have e: "ce_tenant_id ?e = ''t1''" "ce_root_session_id ?e = ''s1''" "ce_session_id ?e = ''s1''" "ce_type ?e = ''session.created''"
    "ce_payload ?e = [(''goal'', PStr ''g'')]"
    by (simp_all add: sample_event_def)
  then have "co_from_events ''t1'' ''s1'' [?e] = root_created ?e (co_empty ''t1'' ''s1'')"
    by (simp add: co_from_events_def co_apply_def co_empty_def rbind_def split: sum.splits)
  then obtain g where g: "co_from_events ''t1'' ''s1'' [?e] = Inr g" "dkeys (co_nodes g) = [''s1'']"
    using e by (simp add: root_created_def set_node_def pitem_Cons co_empty_def)
  moreover have "co_typed g" using rebuilt_graph_typed [OF g(1)] by simp
  ultimately show ?thesis by (intro exI [of _ g]) simp
qed

end
