(* ===== verification/Collaboration_Service_Laws.thy ===== *)
theory Collaboration_Service_Laws
  imports Collaboration_Service Collaboration_Laws Task_Service_Laws
begin

text \<open>
  Correctness of the collaboration service: the event of a new child means what staging the child means,
  a plan is put in topological order exactly when it has one, every command writes only Sessions in the
  scope of the role that calls it, and a plan is submitted as one transaction.
\<close>

section \<open>The event of a child is its staging\<close>

lemma output_contract_roundtrip:
  assumes "output_contract_check c = Inr c"
  shows "output_contract_from_dict (output_contract_dict c) = Inr c"
  using assms by (cases c) (simp add: output_contract_from_dict_def output_contract_dict_def dget_def py_bool_def comp_def)

lemma py_float_PFloat: "py_float (PFloat f) = Inr f"
  by (simp add: py_float_def)

lemma child_created_stages:
  assumes e: "of_graph g e" "ce_session_id e = child" "ce_payload e = child_payload (co_root_session_id g) parent spec inherited @ extra"
    and oc: "output_contract_check (cs_output_contract spec) = Inr (cs_output_contract spec)"
  shows "child_created e g = Inr (refresh_runnable (set_node child (staged_node parent child spec g) g))"
proof -
  let ?p = "ce_payload e"
  have items: "pitem ?p ''parent_session_id'' = Inr (PStr parent)" "pitem ?p ''role'' = Inr (PStr (collaboration_role_value (cs_role spec)))"
    "pitem ?p ''goal'' = Inr (PStr (cs_goal spec))" "pitem ?p ''task_key'' = Inr (PStr (cs_task_key spec))"
    "pitem ?p ''output_contract'' = Inr (PDict (output_contract_dict (cs_output_contract spec)))"
    unfolding e(3) child_payload_def by (simp_all add: pitem_def)
  have gets: "dget ?p ''dependency_ids'' (PList []) = PList (map PStr (cs_dependency_ids spec))"
    "dget ?p ''input_refs'' (PList []) = PList (map PStr (cs_input_refs spec))"
    "dget ?p ''tool_permissions'' (PList []) = PList (map PStr (cs_tool_permissions spec))"
    "dget ?p ''metadata'' (PDict []) = PDict (cs_metadata spec)" "dget ?p ''budget'' (PFloat (Fin 1)) = PFloat (cs_budget spec)"
    "dget ?p ''runtime_budget'' (PDict []) = PDict (cs_runtime_budget spec)"
    "pget ?p ''target_session_id'' = pget (cs_metadata spec) ''target_session_id''"
    unfolding e(3) child_payload_def by (simp_all add: dget_def pget_def)
  have "ce_tenant_id e = co_tenant_id g" "ce_root_session_id e = co_root_session_id g" using e(1) by (simp_all add: of_graph_def)
  then show ?thesis
    unfolding child_created_def Let_def items gets
    by (simp add: output_contract_roundtrip [OF oc] py_float_PFloat e(2) staged_node_def comp_def)
qed


section \<open>Topological order\<close>

definition table_ok :: "step_table \<Rightarrow> bool" where
  "table_ok tb \<longleftrightarrow> (\<forall>k st. map_of tb k = Some st \<longrightarrow> rs_task_key st = k)"

definition steps_sorted :: "routing_plan_step list \<Rightarrow> bool" where
  \<comment> \<open>no step is listed twice and every dependency is listed before the step\<close>
  "steps_sorted sts \<longleftrightarrow> distinct (map rs_task_key sts) \<and>
     (\<forall>xs st ys. sts = xs @ st # ys \<longrightarrow> set (rs_dependencies st) \<subseteq> rs_task_key ` set xs)"

lemma steps_sorted_snoc:
  assumes "steps_sorted sts" "rs_task_key st \<notin> rs_task_key ` set sts" "set (rs_dependencies st) \<subseteq> rs_task_key ` set sts"
  shows "steps_sorted (sts @ [st])"
  unfolding steps_sorted_def
proof (intro conjI allI impI)
  show "distinct (map rs_task_key (sts @ [st]))" using assms(1,2) by (auto simp: steps_sorted_def)
  fix xs x ys assume eq: "sts @ [st] = xs @ x # ys"
  show "set (rs_dependencies x) \<subseteq> rs_task_key ` set xs"
  proof (cases ys rule: rev_cases)
    case Nil
    then show ?thesis using eq assms(3) by simp
  next
    case (snoc zs z)
    then have "sts = xs @ x # zs" using eq by simp
    then show ?thesis using assms(1) unfolding steps_sorted_def by blast
  qed
qed

lemma visit_step_order:
  "visit_step tb P key sts = Inr sts' \<Longrightarrow> table_ok tb \<Longrightarrow> steps_sorted sts \<Longrightarrow> rs_task_key ` set sts \<inter> P = {} \<Longrightarrow>
     steps_sorted sts' \<and> key \<in> rs_task_key ` set sts' \<and> set sts \<subseteq> set sts' \<and> set sts' \<subseteq> set sts \<union> ran (map_of tb) \<and>
     rs_task_key ` set sts' \<inter> P = {}"
  "visit_steps tb P keys sts = Inr sts' \<Longrightarrow> table_ok tb \<Longrightarrow> steps_sorted sts \<Longrightarrow> rs_task_key ` set sts \<inter> P = {} \<Longrightarrow>
     steps_sorted sts' \<and> set keys \<subseteq> rs_task_key ` set sts' \<and> set sts \<subseteq> set sts' \<and> set sts' \<subseteq> set sts \<union> ran (map_of tb) \<and>
     rs_task_key ` set sts' \<inter> P = {}"
proof (induction tb P key sts and tb P keys sts arbitrary: sts' and sts' rule: visit_step_visit_steps.induct)
  case (1 tb P key sts)
  have fresh: "key \<notin> P" using 1(2) unfolding visit_step.simps [of tb P key sts] by (auto split: if_splits)
  show ?case
  proof (cases "key \<in> rs_task_key ` set sts")
    case True
    then have "sts' = sts" using 1(2) fresh unfolding visit_step.simps [of tb P key sts] by simp
    then show ?thesis using True 1(4,5) by simp
  next
    case False
    then obtain st ord where st: "map_of tb key = Some st"
      and ord: "visit_steps tb (insert key P) (rs_dependencies st) sts = Inr ord" "sts' = ord @ [st]"
      using 1(2) fresh unfolding visit_step.simps [of tb P key sts] by (auto split: option.splits)
    have k: "rs_task_key st = key" using 1(3) st by (simp add: table_ok_def)
    have disj: "rs_task_key ` set sts \<inter> insert key P = {}" using False 1(5) by blast
    have IH: "steps_sorted ord \<and> set (rs_dependencies st) \<subseteq> rs_task_key ` set ord \<and> set sts \<subseteq> set ord \<and>
        set ord \<subseteq> set sts \<union> ran (map_of tb) \<and> rs_task_key ` set ord \<inter> insert key P = {}"
      by (rule 1(1) [OF fresh False st ord(1) 1(3,4) disj])
    moreover have "steps_sorted (ord @ [st])" using IH k by (intro steps_sorted_snoc) auto
    moreover have "st \<in> ran (map_of tb)" using st by (rule ranI)
    ultimately show ?thesis using ord(2) k fresh by auto
  qed
next
  case (3 tb P key keys sts)
  from 3(3) obtain ord where known: "\<not> map_of tb key = None"
    and ord: "visit_step tb P key sts = Inr ord" "visit_steps tb P keys ord = Inr sts'"
    by (auto simp del: visit_step.simps split: if_splits)
  note one = 3(1) [OF known ord(1) 3(4-6)]
  note rest = 3(2) [OF known ord(1) ord(2) 3(4)]
  have "steps_sorted sts' \<and> set keys \<subseteq> rs_task_key ` set sts' \<and> set ord \<subseteq> set sts' \<and> set sts' \<subseteq> set ord \<union> ran (map_of tb) \<and>
     rs_task_key ` set sts' \<inter> P = {}"
    using rest one by blast
  then show ?case using one by (auto simp: image_iff) 
qed simp

lemma topological_fold:
  "rfold (visit_step tb {}) keys sts = Inr sts' \<Longrightarrow> table_ok tb \<Longrightarrow> steps_sorted sts \<Longrightarrow> set sts \<subseteq> ran (map_of tb) \<Longrightarrow>
   steps_sorted sts' \<and> set keys \<subseteq> rs_task_key ` set sts' \<and> rs_task_key ` set sts \<subseteq> rs_task_key ` set sts' \<and> set sts' \<subseteq> ran (map_of tb)"
proof (induction keys arbitrary: sts)
  case (Cons key keys)
  from Cons.prems(1) obtain ord where ord: "visit_step tb {} key sts = Inr ord" "rfold (visit_step tb {}) keys ord = Inr sts'"
    by (auto simp del: visit_step.simps)
  have one: "steps_sorted ord" "key \<in> rs_task_key ` set ord" "set sts \<subseteq> set ord" "set ord \<subseteq> ran (map_of tb)"
    using visit_step_order(1) [OF ord(1) Cons.prems(2,3)] Cons.prems(4) by auto
  have rest: "steps_sorted sts'" "set keys \<subseteq> rs_task_key ` set sts'" "rs_task_key ` set ord \<subseteq> rs_task_key ` set sts'"
    "set sts' \<subseteq> ran (map_of tb)"
    using Cons.IH [OF ord(2) Cons.prems(2) one(1,4)] by blast+
  have "rs_task_key ` set sts \<subseteq> rs_task_key ` set sts'" by (rule subset_trans [OF image_mono [OF one(3)] rest(3)])
  moreover have "key \<in> rs_task_key ` set sts'" by (rule subsetD [OF rest(3) one(2)])
  ultimately show ?case using rest by simp
qed simp


definition plan_table :: "routing_plan_step list \<Rightarrow> step_table" where
  "plan_table steps = map (\<lambda>st. (rs_task_key st, st)) steps"

lemma plan_table_facts:
  "table_ok (plan_table steps)" "ran (map_of (plan_table steps)) \<subseteq> set steps" "dkeys (plan_table steps) = map rs_task_key steps"
  by (auto simp: table_ok_def plan_table_def ran_def comp_def dest!: map_of_SomeD)

lemma plan_table_lookup:
  "distinct (map rs_task_key steps) \<Longrightarrow> st \<in> set steps \<Longrightarrow> map_of (plan_table steps) (rs_task_key st) = Some st"
  by (rule map_of_is_SomeI) (auto simp: plan_table_def comp_def)

lemma visit_ranked:
  fixes rank :: "string \<Rightarrow> nat"
  assumes "\<forall>k st. map_of tb k = Some st \<longrightarrow> (\<forall>d \<in> set (rs_dependencies st). map_of tb d \<noteq> None \<and> rank d < rank k)"
  shows "map_of tb key \<noteq> None \<Longrightarrow> \<forall>p \<in> P. rank key < rank p \<Longrightarrow> \<exists>sts'. visit_step tb P key sts = Inr sts'"
    and "\<forall>k \<in> set keys. map_of tb k \<noteq> None \<and> (\<forall>p \<in> P. rank k < rank p) \<Longrightarrow> \<exists>sts'. visit_steps tb P keys sts = Inr sts'"
  using assms
proof (induction tb P key sts and tb P keys sts rule: visit_step_visit_steps.induct)
  case (1 tb P key sts)
  have fresh: "key \<notin> P" using 1(3) by blast
  show ?case
  proof (cases "key \<in> rs_task_key ` set sts")
    case True
    then show ?thesis using fresh by (simp add: visit_step.simps [of tb P key sts])
  next
    case False
    obtain st where st: "map_of tb key = Some st" using 1(2) by blast
    have "\<forall>k \<in> set (rs_dependencies st). map_of tb k \<noteq> None \<and> (\<forall>p \<in> insert key P. rank k < rank p)"
      using 1(3,4) st by fastforce
    from 1(1) [OF fresh False st this 1(4)] obtain ord where "visit_steps tb (insert key P) (rs_dependencies st) sts = Inr ord"
      by blast
    then show ?thesis using fresh False st by (simp add: visit_step.simps [of tb P key sts])
  qed
next
  case (3 tb P key keys sts)
  have known: "\<not> map_of tb key = None" "\<forall>p \<in> P. rank key < rank p" using 3(3) by auto
  obtain ord where ord: "visit_step tb P key sts = Inr ord" using 3(1) [OF known(1) _ known(2) 3(4)] known(1) by blast
  have "\<exists>sts'. visit_steps tb P keys ord = Inr sts'" using 3(2) [OF known(1) ord _ 3(4)] 3(3) by auto
  then show ?case using known(1) ord by (simp del: visit_step.simps)
qed simp

definition list_rank :: "routing_plan_step list \<Rightarrow> string \<Rightarrow> nat" where
  "list_rank sts k = length (takeWhile (\<lambda>st. rs_task_key st \<noteq> k) sts)"

lemma list_rank_before:
  assumes "steps_sorted sts" "st \<in> set sts" "d \<in> set (rs_dependencies st)"
  shows "d \<in> rs_task_key ` set sts \<and> list_rank sts d < list_rank sts (rs_task_key st)"
proof -
  obtain xs ys where sts: "sts = xs @ st # ys" using split_list [OF assms(2)] by blast
  have "set (rs_dependencies st) \<subseteq> rs_task_key ` set xs" using assms(1) sts unfolding steps_sorted_def by blast
  then obtain x where x: "x \<in> set xs" "d = rs_task_key x" using assms(3) by blast
  have "rs_task_key st \<notin> rs_task_key ` set xs" using assms(1) sts by (auto simp: steps_sorted_def)
  then have "list_rank sts (rs_task_key st) = length xs"
    unfolding list_rank_def sts by (subst takeWhile_append2) (simp, metis image_eqI, simp)
  moreover have "list_rank sts d < length xs"
  proof -
    have "takeWhile (\<lambda>s. rs_task_key s \<noteq> d) sts = takeWhile (\<lambda>s. rs_task_key s \<noteq> d) xs"
      unfolding sts by (rule takeWhile_append1 [OF x(1)]) (simp add: x(2))
    moreover have "length (takeWhile (\<lambda>s. rs_task_key s \<noteq> d) xs) \<noteq> length xs"
      using x by (metis (mono_tags, lifting) takeWhile_eq_all_conv takeWhile_eq_take take_all_iff order_refl)
    ultimately show ?thesis using length_takeWhile_le [of "\<lambda>s. rs_task_key s \<noteq> d" xs] by (simp add: list_rank_def)
  qed
  ultimately show ?thesis using x sts by auto
qed

lemma visit_all_ranked:
  assumes "\<And>k sts. k \<in> set keys \<Longrightarrow> \<exists>sts'. f k sts = Inr sts'"
  shows "\<exists>sts'. rfold f keys sts = Inr sts'"
  using assms by (induction keys arbitrary: sts) fastforce+

lemma topological_returns:
  assumes "distinct (map rs_task_key steps)" "set sts = set steps" "steps_sorted sts"
  shows "\<exists>sts'. topological_steps (plan_table steps) = Inr sts'"
  unfolding topological_steps_def
proof (rule visit_all_ranked)
  fix key acc assume "key \<in> set (dkeys (plan_table steps))"
  then have known: "map_of (plan_table steps) key \<noteq> None" using map_of_None_dkeys [of "plan_table steps" key] by blast
  show "\<exists>sts'. visit_step (plan_table steps) {} key acc = Inr sts'"
  proof (rule visit_ranked(1) [OF _ known, where rank = "list_rank sts"], intro allI impI ballI)
    fix k st d assume st: "map_of (plan_table steps) k = Some st" and d: "d \<in> set (rs_dependencies st)"
    have "rs_task_key st = k" using plan_table_facts(1) st by (simp add: table_ok_def)
    moreover have "st \<in> set sts" using ranI [of "map_of (plan_table steps)", OF st] plan_table_facts(2) assms(2) by blast
    ultimately have b: "d \<in> rs_task_key ` set sts \<and> list_rank sts d < list_rank sts k" using list_rank_before [OF assms(3) _ d] by blast
    then obtain x where "x \<in> set steps" "d = rs_task_key x" using assms(2) by blast
    then show "map_of (plan_table steps) d \<noteq> None \<and> list_rank sts d < list_rank sts k"
      using b plan_table_lookup [OF assms(1)] by simp
  qed simp
qed

lemma topological_sorted:
  assumes "distinct (map rs_task_key steps)" "topological_steps (plan_table steps) = Inr sts"
  shows "steps_sorted sts" "set sts = set steps"
proof -
  have *: "steps_sorted sts \<and> rs_task_key ` set steps \<subseteq> rs_task_key ` set sts \<and> set sts \<subseteq> ran (map_of (plan_table steps))"
    using topological_fold [OF assms(2) [unfolded topological_steps_def] plan_table_facts(1)]
    by (simp add: plan_table_facts(3) steps_sorted_def)
  then show "steps_sorted sts" by blast
  have sub: "set sts \<subseteq> set steps" using * plan_table_facts(2) by blast
  have "st \<in> set sts" if "st \<in> set steps" for st
  proof -
    obtain x where x: "x \<in> set sts" "rs_task_key st = rs_task_key x" using * \<open>st \<in> set steps\<close> by blast
    then have "x = st" using assms(1) sub that by (auto simp: distinct_map dest: inj_onD)
    then show ?thesis using x by simp
  qed
  then show "set sts = set steps" using sub by blast
qed

text \<open>
  C32: a plan is ordered when it can be. For steps with distinct keys, \<open>_topological_steps\<close> returns every
  step exactly once, each after all the steps it depends on, if such an order exists, and raises if none
  does: there is a cycle, or a dependency that is no step of the plan.
\<close>

theorem plan_ordered_iff_orderable:
  assumes "distinct (map rs_task_key steps)"
  shows "case topological_steps (map (\<lambda>st. (rs_task_key st, st)) steps) of
     Inr sts \<Rightarrow> set sts = set steps \<and> length sts = length steps \<and> steps_sorted sts
   | Inl _ \<Rightarrow> \<nexists>sts. set sts = set steps \<and> steps_sorted sts"
proof (cases "topological_steps (plan_table steps)")
  case (Inl e)
  then show ?thesis using topological_returns [OF assms] by (fastforce simp: plan_table_def)
next
  case (Inr sts)
  note ok = topological_sorted [OF assms Inr]
  have "distinct sts" "distinct steps" using ok(1) assms by (simp_all add: steps_sorted_def distinct_map)
  then have "length sts = length steps" using ok(2) distinct_card by metis
  then show ?thesis using Inr ok by (simp add: plan_table_def)
qed

section \<open>What a command writes\<close>

text \<open>The ports of the service as the commands rely on them: a relay pass writes no stream.\<close>

locale collaboration_ports =
  fixes P :: "'p co_ports"
  assumes relay: "relay_ok (cp_relay_once P)"
begin

lemma relay_stream: "stream_of (w_store (cp_relay_once P w)) t i = stream_of (w_store w) t i"
  using relay by (intro same_log_stream) (simp add: relay_ok_def)

lemma co_store_stream:
  assumes "co_store P root_sid sid run ctx events resp stamp w = (w', r)"
    and "stream_of (w_store w') t i \<noteq> stream_of (w_store w) t i"
  shows "t = cc_tenant_id ctx \<and> i = sid"
proof -
  obtain s' q where app: "es_append root_sid sid run ctx events resp stamp (w_store w) = (s', q)" by (cases rule: prod.exhaust)
  have "stream_of (w_store w') t i = stream_of s' t i"
    using assms(1) app relay_stream by (cases q) (auto simp: co_store_def)
  then have "stream_of s' t i \<noteq> stream_of (w_store w) t i" using assms(2) by simp
  then show ?thesis using es_append_effect [OF app] by (cases q) (auto split: if_splits)
qed

lemma co_append_stream:
  assumes "co_append P g sid ctx events resp stamp w = (w', r)"
    and "stream_of (w_store w') t i \<noteq> stream_of (w_store w) t i"
  shows "t = cc_tenant_id ctx \<and> i = sid"
  using assms co_store_stream [of _ sid _ ctx events resp stamp w w' r t i] by (auto simp: co_append_def split: option.splits)

end

definition co_wired :: "(canonical_event list \<Rightarrow> 'p \<Rightarrow> 'p result) \<Rightarrow> 'p co_ports \<Rightarrow> 'p co_ports" where
  \<comment> \<open>the ports with the relay of \<open>projection/relay.py\<close> over a projector\<close>
  "co_wired project P = P\<lparr>cp_relay_once := (\<lambda>w. case relay_once project 100 (w_store w) (w_view w) of
     (s, view, _) \<Rightarrow> w\<lparr>w_store := s, w_view := view\<rparr>)\<rparr>"

lemma co_wired_relay: "relay_ok (cp_relay_once (co_wired project P))"
  unfolding relay_ok_def
proof
  fix w :: "'a world"
  show "same_log (w_store w) (w_store (cp_relay_once (co_wired project P) w))"
    using relay_once_same_log [of "w_store w" project 100 "w_view w"] by (simp add: co_wired_def case_prod_unfold)
qed

interpretation relayed: collaboration_ports "co_wired project P" for project P
  by unfold_locales (rule co_wired_relay)

datatype co_op =
    Co_create string string child_spec command_context stamps
  | Co_plan string routing_plan command_context stamps
  | Co_dependencies string string "string list" command_context stamps
  | Co_delegate string string string command_context stamps
  | Co_handoff string string string string command_context stamps
  | Co_publish string string child_result command_context stamps
  | Co_review string string review_result command_context stamps
  | Co_request_review string string string string string pyfloat payload command_context stamps
  | Co_cancel string string string command_context stamps
  | Co_join string "string list" string string command_context stamps

fun co_call :: "'p co_ports \<Rightarrow> co_op \<Rightarrow> 'p world \<Rightarrow> ('p world \<times> payload result) option" where
  "co_call P (Co_create root_sid parent spec ctx stamp) w = create_child P root_sid parent spec ctx stamp w"
| "co_call P (Co_plan root_sid plan ctx stamp) w = submit_plan P root_sid plan ctx stamp w"
| "co_call P (Co_dependencies root_sid child deps ctx stamp) w = Some (set_dependencies P root_sid child deps ctx stamp w)"
| "co_call P (Co_delegate root_sid child owner ctx stamp) w = Some (delegate P root_sid child owner ctx stamp w)"
| "co_call P (Co_handoff root_sid child owner reason ctx stamp) w = Some (handoff P root_sid child owner reason ctx stamp w)"
| "co_call P (Co_publish root_sid child result ctx stamp) w = Some (publish_child_result P root_sid child result ctx stamp w)"
| "co_call P (Co_review root_sid sid review ctx stamp) w = Some (publish_review P root_sid sid review ctx stamp w)"
| "co_call P (Co_request_review root_sid parent key target goal budget runtime ctx stamp) w =
     request_review P root_sid parent key target goal budget runtime ctx stamp w"
| "co_call P (Co_cancel root_sid child reason ctx stamp) w = Some (cancel_child P root_sid child reason ctx stamp w)"
| "co_call P (Co_join root_sid sids summary ref ctx stamp) w = Some (co_join P root_sid sids summary ref ctx stamp w)"

fun co_context :: "co_op \<Rightarrow> command_context" where
  "co_context (Co_create root_sid parent spec ctx stamp) = ctx"
| "co_context (Co_plan root_sid plan ctx stamp) = ctx"
| "co_context (Co_dependencies root_sid child deps ctx stamp) = ctx"
| "co_context (Co_delegate root_sid child owner ctx stamp) = ctx"
| "co_context (Co_handoff root_sid child owner reason ctx stamp) = ctx"
| "co_context (Co_publish root_sid child result ctx stamp) = ctx"
| "co_context (Co_review root_sid sid review ctx stamp) = ctx"
| "co_context (Co_request_review root_sid parent key target goal budget runtime ctx stamp) = ctx"
| "co_context (Co_cancel root_sid child reason ctx stamp) = ctx"
| "co_context (Co_join root_sid sids summary ref ctx stamp) = ctx"

fun op_root :: "co_op \<Rightarrow> string" where
  "op_root (Co_create root_sid parent spec ctx stamp) = root_sid"
| "op_root (Co_plan root_sid plan ctx stamp) = root_sid"
| "op_root (Co_dependencies root_sid child deps ctx stamp) = root_sid"
| "op_root (Co_delegate root_sid child owner ctx stamp) = root_sid"
| "op_root (Co_handoff root_sid child owner reason ctx stamp) = root_sid"
| "op_root (Co_publish root_sid child result ctx stamp) = root_sid"
| "op_root (Co_review root_sid sid review ctx stamp) = root_sid"
| "op_root (Co_request_review root_sid parent key target goal budget runtime ctx stamp) = root_sid"
| "op_root (Co_cancel root_sid child reason ctx stamp) = root_sid"
| "op_root (Co_join root_sid sids summary ref ctx stamp) = root_sid"

text \<open>The scope of a role: which Session of the graph an actor may write, and when.\<close>

definition acts_as :: "string \<Rightarrow> command_context \<Rightarrow> bool" where
  "acts_as role ctx \<longleftrightarrow> actor_type (cc_actor ctx) = role"

definition owns :: "command_context \<Rightarrow> collaboration_node \<Rightarrow> bool" where
  "owns ctx n \<longleftrightarrow> cn_owner n = None \<or> cn_owner n = Some (actor_id (cc_actor ctx))"

definition is_child :: "collaboration \<Rightarrow> string \<Rightarrow> (collaboration_node \<Rightarrow> bool) \<Rightarrow> bool" where
  "is_child g sid p \<longleftrightarrow> (\<exists>n. map_of (co_nodes g) sid = Some n \<and> cn_role n \<noteq> CR_ROOT \<and> p n)"

definition new_child :: "collaboration \<Rightarrow> command_context \<Rightarrow> string \<Rightarrow> string \<Rightarrow> string \<Rightarrow> bool" where
  "new_child g ctx root_sid key sid \<longleftrightarrow>
     sid = child_id (cc_tenant_id ctx) root_sid key \<and> map_of (co_nodes g) sid = None"

definition finished :: "collaboration_node \<Rightarrow> bool" where
  "finished n \<longleftrightarrow> cn_status n = ''completed'' \<and> (\<exists>res. cn_result n = Some res \<and>
     (cn_role n = CR_REVIEWER \<longrightarrow> pget res ''decision'' = PStr ''accepted''))"

fun in_scope :: "collaboration \<Rightarrow> co_op \<Rightarrow> string \<Rightarrow> bool" where
  "in_scope g (Co_create root_sid parent spec ctx stamp) sid \<longleftrightarrow>
     acts_as ''coordinator'' ctx \<and> new_child g ctx root_sid (cs_task_key spec) sid"
| "in_scope g (Co_plan root_sid plan ctx stamp) sid \<longleftrightarrow>
     acts_as ''coordinator'' ctx \<and> (\<exists>st \<in> set (rp_steps plan). new_child g ctx root_sid (rs_task_key st) sid)"
| "in_scope g (Co_dependencies root_sid child deps ctx stamp) sid \<longleftrightarrow>
     acts_as ''coordinator'' ctx \<and> sid = child \<and> is_child g child (\<lambda>_. True)"
| "in_scope g (Co_delegate root_sid child owner ctx stamp) sid \<longleftrightarrow>
     acts_as ''coordinator'' ctx \<and> sid = child \<and> is_child g child (\<lambda>_. True)"
| "in_scope g (Co_handoff root_sid child owner reason ctx stamp) sid \<longleftrightarrow>
     acts_as ''coordinator'' ctx \<and> sid = child \<and> is_child g child (\<lambda>_. True)"
| "in_scope g (Co_publish root_sid child result ctx stamp) sid \<longleftrightarrow>
     acts_as ''worker'' ctx \<and> sid = child \<and> child \<noteq> root_sid \<and> is_child g child (\<lambda>n. cn_role n \<noteq> CR_REVIEWER \<and> owns ctx n)"
| "in_scope g (Co_review root_sid review_sid review ctx stamp) sid \<longleftrightarrow>
     acts_as ''reviewer'' ctx \<and> sid = review_sid \<and> is_child g review_sid (\<lambda>n. cn_role n = CR_REVIEWER \<and> owns ctx n \<and>
       (\<exists>target. cn_target_session_id n = PStr target \<and> is_child g target (\<lambda>t. cn_result t \<noteq> None)))"
| "in_scope g (Co_request_review root_sid parent key target goal budget runtime ctx stamp) sid \<longleftrightarrow>
     acts_as ''coordinator'' ctx \<and> new_child g ctx root_sid key sid \<and> is_child g target (\<lambda>_. True)"
| "in_scope g (Co_cancel root_sid child reason ctx stamp) sid \<longleftrightarrow>
     acts_as ''coordinator'' ctx \<and> sid = child \<and> is_child g child (\<lambda>n. cn_status n \<notin> {''completed'', ''cancelled''})"
| "in_scope g (Co_join root_sid sids summary ref ctx stamp) sid \<longleftrightarrow>
     acts_as ''coordinator'' ctx \<and> sid = root_sid \<and> sids \<noteq> [] \<and>
     (\<forall>i \<in> set sids. \<exists>n. map_of (co_nodes g) i = Some n \<and> finished n)"

definition writes_ok :: "co_op \<Rightarrow> 'p world \<Rightarrow> 'p world \<Rightarrow> bool" where
  \<comment> \<open>every stream that changes is one of the tenant of the call, in the scope of its actor\<close>
  "writes_ok op w w' \<longleftrightarrow> (\<forall>t sid. stream_of (w_store w') t sid \<noteq> stream_of (w_store w) t sid \<longrightarrow>
     t = cc_tenant_id (co_context op) \<and> (\<exists>g. service_graph (w_store w) t (op_root op) = Inr g \<and> in_scope g op sid))"

lemma writes_ok_same [simp]: "writes_ok op w w"
  by (simp add: writes_ok_def)

lemma require_coordinator_Inr: "require_coordinator ctx = Inr u \<longleftrightarrow> acts_as ''coordinator'' ctx"
  by (simp add: require_coordinator_def acts_as_def)

lemma require_child_Inr: "require_child g sid = Inr n \<longleftrightarrow> map_of (co_nodes g) sid = Some n \<and> cn_role n \<noteq> CR_ROOT"
  by (auto simp: require_child_def Let_def split: option.splits if_splits)

lemma review_target_Inr:
  "review_target g n = Inr (x, t) \<longleftrightarrow>
     (\<exists>target. cn_target_session_id n = PStr target \<and> x = PStr target \<and> map_of (co_nodes g) target = Some t \<and> cn_role t \<noteq> CR_ROOT)"
  by (cases "cn_target_session_id n") (auto simp: review_target_def require_child_Inr)

lemma validate_new_child_Inr: "validate_new_child parent child spec limits g = Some (Inr u) \<Longrightarrow> map_of (co_nodes g) child = None"
  by (auto simp: validate_new_child_def Let_def split: sum.splits option.splits if_splits)

context collaboration_ports
begin

lemma writes_ok_store:
  assumes "co_store P root_sid sid run (co_context op) events resp stamp w = (w', r)"
    and "service_graph (w_store w) (cc_tenant_id (co_context op)) (op_root op) = Inr g" "in_scope g op sid"
  shows "writes_ok op w w'"
  unfolding writes_ok_def using co_store_stream [OF assms(1)] assms(2,3) by blast

lemma writes_ok_append:
  assumes "co_append P g' sid (co_context op) events resp stamp w = (w', r)"
    and "service_graph (w_store w) (cc_tenant_id (co_context op)) (op_root op) = Inr g" "in_scope g op sid"
  shows "writes_ok op w w'"
  unfolding writes_ok_def using co_append_stream [OF assms(1)] assms(2,3) by blast

end

lemma writes_ok_case:
  assumes "\<And>x. m = Inr x \<Longrightarrow> writes_ok op w (fst (k x))"
  shows "writes_ok op w (fst (case m of Inl e \<Rightarrow> (w, Inl e) | Inr x \<Rightarrow> k x))"
  using assms by (cases m) simp_all

context collaboration_ports
begin

lemma writes_append:
  assumes "service_graph (w_store w) (cc_tenant_id (co_context op)) (op_root op) = Inr g" "in_scope g op sid" "co_context op = ctx"
  shows "writes_ok op w (fst (co_append P g' sid ctx events resp stamp w))"
proof -
  obtain w' r where "co_append P g' sid (co_context op) events resp stamp w = (w', r)" by (cases rule: prod.exhaust)
  from writes_ok_append [OF this assms(1,2)] this show ?thesis using assms(3) by simp
qed

lemma writes_store:
  assumes "service_graph (w_store w) (cc_tenant_id (co_context op)) (op_root op) = Inr g" "in_scope g op sid" "co_context op = ctx"
  shows "writes_ok op w (fst (co_store P root_sid sid run ctx events resp stamp w))"
proof -
  obtain w' r where "co_store P root_sid sid run (co_context op) events resp stamp w = (w', r)" by (cases rule: prod.exhaust)
  from writes_ok_store [OF this assms(1,2)] this show ?thesis using assms(3) by simp
qed

lemma writes_dependencies:
  "writes_ok (Co_dependencies root_sid child deps ctx stamp) w (fst (set_dependencies P root_sid child deps ctx stamp w))"
  unfolding set_dependencies_def
  by (rule writes_ok_case) (auto simp: require_coordinator_Inr require_child_Inr is_child_def intro!: writes_append)

lemma writes_delegate:
  "writes_ok (Co_delegate root_sid child owner ctx stamp) w (fst (delegate P root_sid child owner ctx stamp w))"
  unfolding delegate_def
  by (rule writes_ok_case) (auto simp: require_coordinator_Inr require_child_Inr is_child_def intro!: writes_append)

lemma writes_handoff:
  "writes_ok (Co_handoff root_sid child owner reason ctx stamp) w (fst (handoff P root_sid child owner reason ctx stamp w))"
  unfolding handoff_def
  by (rule writes_ok_case) (auto simp: require_coordinator_Inr require_child_Inr is_child_def intro!: writes_append)

lemma writes_cancel:
  "writes_ok (Co_cancel root_sid child reason ctx stamp) w (fst (cancel_child P root_sid child reason ctx stamp w))"
  unfolding cancel_child_def
  by (rule writes_ok_case) (auto simp: require_coordinator_Inr require_child_Inr is_child_def intro!: writes_append)

lemma may_publish_scope:
  assumes "may_publish root_sid child r ctx g = Inr n"
  shows "in_scope g (Co_publish root_sid child r ctx stamp) child"
  using assms by (auto simp: may_publish_def require_child_Inr acts_as_def owns_def is_child_def)

lemma writes_publish:
  "writes_ok (Co_publish root_sid child r ctx stamp) w (fst (publish_child_result P root_sid child r ctx stamp w))"
  unfolding publish_child_result_def
  by (rule writes_ok_case) (auto simp del: in_scope.simps intro!: writes_append intro: may_publish_scope)

lemma may_review_scope:
  assumes "may_review sid ctx g = Inr (n, target, ref)"
  shows "in_scope g (Co_review root_sid sid r ctx stamp) sid"
  using assms
  by (auto simp: may_review_def require_child_Inr review_target_Inr acts_as_def owns_def is_child_def split: option.splits)

lemma writes_review:
  "writes_ok (Co_review root_sid sid r ctx stamp) w (fst (publish_review P root_sid sid r ctx stamp w))"
  unfolding publish_review_def
  by (rule writes_ok_case) (auto simp del: in_scope.simps intro!: writes_append intro: may_review_scope)

lemma joinable_finished:
  assumes "require_joinable sids g = Inr u"
  shows "sids \<noteq> [] \<and> (\<forall>i \<in> set sids. \<exists>n. map_of (co_nodes g) i = Some n \<and> finished n)"
proof -
  have *: "\<exists>n. map_of (co_nodes g) i = Some n \<and> finished n" if "joinable_child g i = Inr v" for i v
    using that by (auto simp: joinable_child_def finished_def split: option.splits)
  have "rmap (joinable_child g) is = Inr vs \<Longrightarrow> \<forall>i \<in> set is. \<exists>n. map_of (co_nodes g) i = Some n \<and> finished n" for "is" vs
    by (induction "is" arbitrary: vs) (auto dest: *)
  then show ?thesis using assms by (auto simp: require_joinable_def)
qed

lemma writes_join:
  "writes_ok (Co_join root_sid sids summary ref ctx stamp) w (fst (co_join P root_sid sids summary ref ctx stamp w))"
  unfolding co_join_def
proof (rule writes_ok_case)
  fix x
  assume "rbind (require_coordinator ctx) (\<lambda>_. rbind (service_graph (w_store w) (cc_tenant_id ctx) root_sid) (\<lambda>g.
           rbind (require_joinable sids g) (\<lambda>_. rbind (join_lineage sids g) (\<lambda>(lineage, artifacts).
           case map_of (co_nodes g) root_sid of None \<Rightarrow> Inl (KeyError root_sid)
           | Some n \<Rightarrow> Inr (lineage, artifacts, cn_run_id n))))) = Inr x"
  then obtain g u where "acts_as ''coordinator'' ctx" "service_graph (w_store w) (cc_tenant_id ctx) root_sid = Inr g"
    "require_joinable sids g = Inr u"
    by (auto simp: require_coordinator_Inr)
  then show "writes_ok (Co_join root_sid sids summary ref ctx stamp) w (fst (case x of (lineage, artifacts, run) \<Rightarrow>
          co_store P root_sid root_sid run ctx
            [event_of V_INTERNAL ''join.completed'' (dict_of ((''child_session_ids'', PList (map PStr sids)) # lineage)),
             event_of V_USER ''run.completed'' [(''result_summary'', PStr summary), (''result_ref'', PStr ref),
               (''artifact_refs'', PList (map (\<lambda>a. pget a ''artifact_ref'') artifacts)), (''lineage'', PDict lineage)]]
            [(''session_id'', PStr root_sid), (''status'', PStr ''completed''), (''result_summary'', PStr summary),
             (''result_ref'', PStr ref), (''lineage'', PDict lineage)] stamp w))"
    using joinable_finished by (cases x) (auto intro!: writes_store)
qed

lemma create_child_scope:
  assumes "create_child P root_sid parent spec ctx stamp w = Some (w', r)"
    and "stream_of (w_store w') t sid \<noteq> stream_of (w_store w) t sid"
  shows "t = cc_tenant_id ctx \<and> (\<exists>g. service_graph (w_store w) t root_sid = Inr g \<and> acts_as ''coordinator'' ctx \<and>
      new_child g ctx root_sid (cs_task_key spec) sid)"
proof -
  let ?child = "child_id (cc_tenant_id ctx) root_sid (cs_task_key spec)"
  show ?thesis
  proof (cases "rbind (require_coordinator ctx) (\<lambda>_. service_graph (w_store w) (cc_tenant_id ctx) root_sid)")
    case (Inl e)
    then show ?thesis using assms by (simp add: create_child_def)
  next
    case (Inr g)
    then have g: "acts_as ''coordinator'' ctx" "service_graph (w_store w) (cc_tenant_id ctx) root_sid = Inr g"
      by (auto simp: require_coordinator_Inr)
    have start: "require_coordinator ctx = Inr ()" using g(1) by (simp add: require_coordinator_def acts_as_def)
    show ?thesis
    proof (cases "filter (\<lambda>n. cn_task_key n = cs_task_key spec) (case map_of (co_nodes g) ?child of None \<Rightarrow> [] | Some n \<Rightarrow> [n])")
      case (Cons n ns)
      then have "w' = w" using assms(1) Inr by (simp add: create_child_def Let_def)
      then show ?thesis using assms(2) by simp
    next
      case Nil
      then obtain v where v: "validate_new_child parent ?child spec (cp_limits P) g = Some v"
        using assms(1) Inr by (auto simp: create_child_def Let_def)
      show ?thesis
      proof (cases "rbind v (\<lambda>_. sa_from_events (cp_codec P) (es_load (w_store w) (cc_tenant_id ctx) parent 1 None None))")
        case (Inl e)
        then have "w' = w" using assms(1) Inr v Nil by (simp add: create_child_def Let_def)
        then show ?thesis using assms(2) by simp
      next
        fix a assume a: "rbind v (\<lambda>_. sa_from_events (cp_codec P) (es_load (w_store w) (cc_tenant_id ctx) parent 1 None None)) = Inr a"
        then obtain u where "v = Inr u" by auto
        then have new: "map_of (co_nodes g) ?child = None" using v validate_new_child_Inr by blast
        have "\<exists>run events resp. co_store P root_sid ?child run ctx events resp stamp w = (w', r)"
          using assms(1) Inr v Nil a by (auto simp: create_child_def Let_def)
        then have "t = cc_tenant_id ctx \<and> sid = ?child" using co_store_stream assms(2) by blast
        then show ?thesis using new g by (auto simp: new_child_def)
      qed
    qed
  qed
qed

lemma writes_create:
  "create_child P root_sid parent spec ctx stamp w = Some (w', r) \<Longrightarrow> writes_ok (Co_create root_sid parent spec ctx stamp) w w'"
  using create_child_scope [of root_sid parent spec ctx stamp w w' r] unfolding writes_ok_def co_context.simps op_root.simps in_scope.simps
  by blast

lemma child_spec_check_Inr: "child_spec_check s = Inr s' \<Longrightarrow> s' = s"
  by (auto simp: child_spec_check_def split: pyval.splits)

lemma review_spec_key: "review_spec key target goal budget runtime = Inr spec \<Longrightarrow> cs_task_key spec = key"
  by (auto simp: review_spec_def dest: child_spec_check_Inr)

lemma writes_request_review:
  assumes "request_review P root_sid parent key target goal budget runtime ctx stamp w = Some (w', r)"
  shows "writes_ok (Co_request_review root_sid parent key target goal budget runtime ctx stamp) w w'"
proof (cases "rbind (service_graph (w_store w) (cc_tenant_id ctx) root_sid) (\<lambda>g.
           rbind (require_child g target) (\<lambda>_. review_spec key target goal budget runtime))")
  case (Inl e)
  then show ?thesis using assms by (simp add: request_review_def)
next
  case (Inr spec)
  then obtain g n where g: "service_graph (w_store w) (cc_tenant_id ctx) root_sid = Inr g" "require_child g target = Inr n"
    and key: "cs_task_key spec = key"
    by (auto dest: review_spec_key)
  have "is_child g target (\<lambda>_. True)" using g(2) by (auto simp: require_child_Inr is_child_def)
  moreover have "create_child P root_sid parent spec ctx stamp w = Some (w', r)" using assms Inr by (simp add: request_review_def)
  ultimately show ?thesis
    unfolding writes_ok_def co_context.simps op_root.simps in_scope.simps
    using create_child_scope [of root_sid parent spec ctx stamp w w' r] g(1) key by fastforce
qed

end

section \<open>Submitting a plan\<close>

lemma govern_types:
  assumes "govern existing evs sid root_sid run = Inr governed"
  shows "map ne_type governed = map ne_type evs"
proof -
  have w: "map ne_type (map (with_budget c) evs) = map ne_type evs" for c by (simp add: with_budget_def)
  show ?thesis
    using assms by (auto simp: govern_def Let_def w [unfolded map_map comp_def] comp_def with_budget_def split: option.splits if_splits)
qed

lemma govern_item_types:
  assumes "govern_item root_sid c stamp item (roots, canonical, by_stream) = Inr (roots', canonical', by_stream')"
  shows "map ce_type (dget by_stream' (st_session_id item) []) = map ne_type (st_events item)"
    and "sid \<noteq> st_session_id item \<Longrightarrow> dget by_stream' sid [] = dget by_stream sid []"
  using assms by (auto simp: govern_item_def Let_def dget_update store_events_types dest!: govern_types)

lemma govern_items_frame:
  assumes "rfold (govern_item root_sid c stamp) items (roots, canonical, by_stream) = Inr (roots', canonical', by_stream')"
    and "sid \<notin> set (map st_session_id items)"
  shows "dget by_stream' sid [] = dget by_stream sid []"
  using assms
proof (induction items arbitrary: roots canonical by_stream)
  case (Cons item items)
  from Cons.prems(1) obtain b where b: "govern_item root_sid c stamp item (roots, canonical, by_stream) = Inr b"
    "rfold (govern_item root_sid c stamp) items b = Inr (roots', canonical', by_stream')" by auto
  obtain r k d where bs: "b = (r, k, d)" by (cases b)
  show ?case using Cons.IH [OF b(2) [unfolded bs]] govern_item_types(2) [OF b(1) [unfolded bs]] Cons.prems(2) by simp
qed simp

lemma govern_items_types:
  assumes "distinct (map st_session_id items)"
    and "rfold (govern_item root_sid c stamp) items (roots, canonical, by_stream) = Inr (roots', canonical', by_stream')"
    and "item \<in> set items"
  shows "map ce_type (dget by_stream' (st_session_id item) []) = map ne_type (st_events item)"
  using assms
proof (induction items arbitrary: roots canonical by_stream)
  case (Cons x items)
  from Cons.prems(2) obtain b where b: "govern_item root_sid c stamp x (roots, canonical, by_stream) = Inr b"
    "rfold (govern_item root_sid c stamp) items b = Inr (roots', canonical', by_stream')" by auto
  obtain r k d where bs: "b = (r, k, d)" by (cases b)
  show ?case
  proof (cases "item \<in> set items")
    case True
    then show ?thesis using Cons.IH [OF _ b(2) [unfolded bs]] Cons.prems(1) by simp
  next
    case False
    then have "item = x" using Cons.prems(3) by simp
    then show ?thesis
      using govern_items_frame [OF b(2) [unfolded bs], of "st_session_id x"] govern_item_types(1) [OF b(1) [unfolded bs]] Cons.prems(1)
      by simp
  qed
qed simp

lemma batch_effect:
  assumes "es_append_batch root_sid c items cr stamp s = (s', q)"
  shows "(\<forall>t i. stream_of s' t i = stream_of s t i) \<and> (isl q \<or> map_of (es_commands s) (command_key c) \<noteq> None) \<or>
     (\<forall>item \<in> set items. int (length (stream_of s (cc_tenant_id c) (st_session_id item))) = st_expected_version item \<and>
        map ce_type (stream_of s' (cc_tenant_id c) (st_session_id item)) =
          map ce_type (stream_of s (cc_tenant_id c) (st_session_id item)) @ map ne_type (st_events item)) \<and>
     (\<forall>t i. t \<noteq> cc_tenant_id c \<or> i \<notin> set (map st_session_id items) \<longrightarrow> stream_of s' t i = stream_of s t i)"
proof (cases rule: es_append_batch_cases [of root_sid c items cr stamp s])
  case (unchanged r)
  then have "isl q \<or> map_of (es_commands s) (command_key c) \<noteq> None"
    using assms by (cases q) (auto simp: es_append_batch_def Let_def split: if_splits option.splits sum.splits)
  then show ?thesis using unchanged assms by simp
next
  case (stored roots canonical by_stream u)
  have streams: "stream_of s' t i = stream_of s t i @ (if t = cc_tenant_id c then dget by_stream i [] else [])" for t i
    using assms stored(6) dget_fold_extend [of by_stream "cc_tenant_id c" "es_streams s" t i] batch_streams(1) [OF stored(3,5)]
    by (auto simp: stream_of_def commit_def batch_ok_def)
  have "dget by_stream i [] = []" if "i \<notin> set (map st_session_id items)" for i
    using govern_items_frame [OF stored(5) that] by (simp add: dget_def)
  then show ?thesis
    using check_versions [OF stored(4)] govern_items_types [OF stored(3,5)] streams by auto
qed

lemma stage_steps_appends:
  assumes "stage_steps P root_sid ids digest inherited sts (g, appends, responses) = Some (Inr (g', appends', responses'))"
  shows "\<exists>news. appends' = appends @ news \<and> map (Some o st_session_id) news = map (\<lambda>st. map_of ids (rs_task_key st)) sts \<and>
     (\<forall>a \<in> set news. st_expected_version a = 0 \<and> map ne_type (st_events a) = [''child.created'', ''run.requested''])"
  using assms
proof (induction sts arbitrary: g appends responses)
  case (Cons st sts)
  then obtain g1 a1 r1 where one: "stage_step P root_sid ids digest inherited st (g, appends, responses) = Some (Inr (g1, a1, r1))"
    and rest: "stage_steps P root_sid ids digest inherited sts (g1, a1, r1) = Some (Inr (g', appends', responses'))"
    by (auto split: option.splits sum.splits)
  obtain spec child where c: "map_of ids (rs_task_key st) = Some child"
    "a1 = appends @ [\<lparr>st_session_id = child, st_run_id = None, st_expected_version = 0,
       st_events = child_events child (plan_child_payload root_sid root_sid spec inherited) inherited\<rparr>]"
    using one by (auto simp: stage_step_def split: sum.splits option.splits)
  obtain a where a: "a1 = appends @ [a]" "map_of ids (rs_task_key st) = Some (st_session_id a)" "st_expected_version a = 0"
    "map ne_type (st_events a) = [''child.created'', ''run.requested'']"
    by (rule that [OF c(2)]) (simp_all add: c(1) child_events_def event_of_def)
  from Cons.IH [OF rest] obtain news where news: "appends' = a1 @ news"
    "map (Some o st_session_id) news = map (\<lambda>st. map_of ids (rs_task_key st)) sts"
    "\<forall>a \<in> set news. st_expected_version a = 0 \<and> map ne_type (st_events a) = [''child.created'', ''run.requested'']" by blast
  show ?case by (rule exI [of _ "a # news"]) (use a news in \<open>simp add: comp_def\<close>)
qed simp


definition plan_ids :: "command_context \<Rightarrow> string \<Rightarrow> routing_plan_step list \<Rightarrow> (string, string) dict" where
  "plan_ids ctx root_sid steps = map (\<lambda>st. (rs_task_key st, child_id (cc_tenant_id ctx) root_sid (rs_task_key st))) steps"

lemma plan_ids_lookup:
  "st \<in> set steps \<Longrightarrow> map_of (plan_ids ctx root_sid steps) (rs_task_key st) = Some (child_id (cc_tenant_id ctx) root_sid (rs_task_key st))"
  by (induction steps) (auto simp: plan_ids_def)

definition plan_children :: "command_context \<Rightarrow> string \<Rightarrow> routing_plan \<Rightarrow> string list" where
  "plan_children ctx root_sid plan = map (child_id (cc_tenant_id ctx) root_sid o rs_task_key) (rp_steps plan)"

text \<open>What a submission does to the streams: nothing, or every child of the plan gets its two events.\<close>

definition unchanged :: "event_store \<Rightarrow> event_store \<Rightarrow> bool" where
  "unchanged s s' \<longleftrightarrow> (\<forall>t i. stream_of s' t i = stream_of s t i)"

definition plan_stored :: "event_store \<Rightarrow> event_store \<Rightarrow> string \<Rightarrow> string list \<Rightarrow> bool" where
  "plan_stored s s' tenant children \<longleftrightarrow>
     (\<forall>t i. (if t = tenant \<and> i \<in> set children
       then stream_of s t i = [] \<and> map ce_type (stream_of s' t i) = [''child.created'', ''run.requested'']
       else stream_of s' t i = stream_of s t i))"

context collaboration_ports
begin

lemma submit_new_effect:
  assumes "submit_new P root_sid plan ctx (plan_ids ctx root_sid (rp_steps plan)) inherited g stamp w = Some (w', r)"
    and "distinct (map rs_task_key (rp_steps plan))"
  shows "unchanged (w_store w) (w_store w') \<and> (isl r \<or> map_of (es_commands (w_store w)) (command_key ctx) \<noteq> None) \<or>
    plan_stored (w_store w) (w_store w') (cc_tenant_id ctx) (map (child_id (cc_tenant_id ctx) root_sid o rs_task_key) (rp_steps plan))"
proof (cases "topological_steps (plan_table (rp_steps plan))")
  case (Inl e)
  then show ?thesis using assms(1) by (auto simp: submit_new_def Let_def plan_table_def unchanged_def)
next
  case (Inr sts)
  let ?ids = "plan_ids ctx root_sid (rp_steps plan)"
  obtain acc where acc: "stage_steps P root_sid ?ids (rp_plan_digest plan) inherited sts (g, [], []) = Some acc"
    using assms(1) Inr by (auto simp: submit_new_def Let_def plan_table_def)
  show ?thesis
  proof (cases "rbind acc (\<lambda>(_, appends, responses).
      rbind (rmap (\<lambda>st. pitem_of responses (rs_task_key st)) (rp_steps plan)) (\<lambda>children. Inr (appends, children)))")
    case (Inl e)
    then show ?thesis using assms(1) Inr acc by (auto simp: submit_new_def Let_def plan_table_def unchanged_def)
  next
    fix x assume x: "rbind acc (\<lambda>(_, appends, responses).
      rbind (rmap (\<lambda>st. pitem_of responses (rs_task_key st)) (rp_steps plan)) (\<lambda>children. Inr (appends, children))) = Inr x"
    obtain items children where items: "x = (items, children)" by (cases x)
    obtain g' responses where "acc = Inr (g', items, responses)" using x items by auto
    with stage_steps_appends [OF acc [unfolded this]]
    have ids: "map (Some o st_session_id) items = map (\<lambda>st. map_of ?ids (rs_task_key st)) sts"
      and ev: "\<forall>a \<in> set items. st_expected_version a = 0 \<and> map ne_type (st_events a) = [''child.created'', ''run.requested'']"
      by auto
    have sts: "set sts = set (rp_steps plan)" by (rule topological_sorted(2) [OF assms(2) Inr])
    have "Some ` st_session_id ` set items = Some ` (child_id (cc_tenant_id ctx) root_sid o rs_task_key) ` set sts"
      using arg_cong [OF ids, of set] plan_ids_lookup sts by (auto simp: image_image comp_def)
    then have sids: "set (map st_session_id items) = set (map (child_id (cc_tenant_id ctx) root_sid o rs_task_key) (rp_steps plan))"
      using sts by (simp add: inj_image_eq_iff)
    obtain s' q where app: "es_append_batch root_sid ctx items (plan_response root_sid (rp_plan_digest plan) children) stamp (w_store w) = (s', q)"
      by (cases rule: prod.exhaust)
    have out: "stream_of (w_store w') t i = stream_of s' t i" "isl r = isl q" for t i
      using assms(1) Inr acc x items app relay_stream by (cases q; auto simp: submit_new_def Let_def plan_table_def)+
    show ?thesis
      using batch_effect [OF app]
    proof
      assume "(\<forall>t i. stream_of s' t i = stream_of (w_store w) t i) \<and> (isl q \<or> map_of (es_commands (w_store w)) (command_key ctx) \<noteq> None)"
      then show ?thesis using out by (simp add: unchanged_def)
    next
      assume st: "(\<forall>item \<in> set items. int (length (stream_of (w_store w) (cc_tenant_id ctx) (st_session_id item))) = st_expected_version item \<and>
        map ce_type (stream_of s' (cc_tenant_id ctx) (st_session_id item)) =
          map ce_type (stream_of (w_store w) (cc_tenant_id ctx) (st_session_id item)) @ map ne_type (st_events item)) \<and>
        (\<forall>t i. t \<noteq> cc_tenant_id ctx \<or> i \<notin> set (map st_session_id items) \<longrightarrow> stream_of s' t i = stream_of (w_store w) t i)"
      have "plan_stored (w_store w) s' (cc_tenant_id ctx) (map st_session_id items)"
        unfolding plan_stored_def using st ev by auto
      then show ?thesis using sids out by (simp add: plan_stored_def)
    qed
  qed
qed

lemma known_children:
  "False \<notin> set (map (\<lambda>st. map_of ns (f st) \<noteq> None) sts) \<longleftrightarrow> set (map f sts) \<subseteq> set (dkeys ns)"
  "True \<notin> set (map (\<lambda>st. map_of ns (f st) \<noteq> None) sts) \<longleftrightarrow> set (map f sts) \<inter> set (dkeys ns) = {}"
proof -
  have known: "(map_of ns k \<noteq> None) = (k \<in> set (dkeys ns))" for k using map_of_None_dkeys [of ns k] by simp
  show "False \<notin> set (map (\<lambda>st. map_of ns (f st) \<noteq> None) sts) \<longleftrightarrow> set (map f sts) \<subseteq> set (dkeys ns)"
    "True \<notin> set (map (\<lambda>st. map_of ns (f st) \<noteq> None) sts) \<longleftrightarrow> set (map f sts) \<inter> set (dkeys ns) = {}"
    unfolding known by auto
qed

lemma isl_raise_if: "isl (raise_if b e x) \<longleftrightarrow> b \<or> isl x"
  by (simp add: raise_if_def)

lemma plan_admissible_Inr:
  assumes "plan_admissible P plan ctx = Inr u"
  shows "acts_as ''coordinator'' ctx" "distinct (map rs_task_key (rp_steps plan))"
proof -
  let ?child = "filter (\<lambda>st. pa_execution_scope (rs_assignment st) = ''child'') (rp_steps plan)"
  have "acts_as ''coordinator'' ctx \<and> length ?child = length (rp_steps plan) \<and> distinct (map rs_task_key ?child)"
    using assms unfolding plan_admissible_def Let_def by (auto simp: require_coordinator_Inr)
  moreover have "length ?child = length (rp_steps plan) \<Longrightarrow> ?child = rp_steps plan"
    by (metis filter_id_conv length_filter_less less_irrefl)
  ultimately show "acts_as ''coordinator'' ctx" "distinct (map rs_task_key (rp_steps plan))" by auto
qed

lemma submit_plan_effect:
  assumes "submit_plan P root_sid plan ctx stamp w = Some (w', r)"
  shows "unchanged (w_store w) (w_store w') \<and>
      (isl r \<or> map_of (es_commands (w_store w)) (command_key ctx) \<noteq> None \<or>
       (\<exists>g. service_graph (w_store w) (cc_tenant_id ctx) root_sid = Inr g \<and> set (plan_children ctx root_sid plan) \<subseteq> set (dkeys (co_nodes g)))) \<or>
    (\<exists>g. service_graph (w_store w) (cc_tenant_id ctx) root_sid = Inr g \<and> acts_as ''coordinator'' ctx \<and>
       set (plan_children ctx root_sid plan) \<inter> set (dkeys (co_nodes g)) = {} \<and>
       plan_stored (w_store w) (w_store w') (cc_tenant_id ctx) (plan_children ctx root_sid plan))"
proof (cases "rbind (plan_admissible P plan ctx) (\<lambda>_. rbind (service_graph (w_store w) (cc_tenant_id ctx) root_sid) (\<lambda>g.
              rbind (sa_from_events (cp_codec P) (es_load (w_store w) (cc_tenant_id ctx) root_sid 1 None None)) (\<lambda>a. Inr (g, a))))")
  case (Inl e)
  then show ?thesis using assms by (auto simp: submit_plan_def Let_def unchanged_def)
next
  case (Inr ga)
  then obtain g a u where ga: "ga = (g, a)" "plan_admissible P plan ctx = Inr u" "service_graph (w_store w) (cc_tenant_id ctx) root_sid = Inr g"
    by auto
  let ?existing = "map (\<lambda>st. map_of (co_nodes g) (child_id (cc_tenant_id ctx) root_sid (rs_task_key st)) \<noteq> None) (rp_steps plan)"
  show ?thesis
  proof (cases "True \<in> set ?existing")
    case True
    then have w: "w' = w" "r = raise_if (False \<in> set ?existing)
        (CollaborationValidationError ''plan overlaps an incomplete existing Child DAG'')
        (rbind (rmap (existing_plan_child P root_sid (plan_ids ctx root_sid (rp_steps plan)) (rp_plan_digest plan) g) (rp_steps plan))
          (\<lambda>children. Inr (plan_response root_sid (rp_plan_digest plan) children)))"
      using assms Inr ga(1) by (simp_all add: submit_plan_def Let_def plan_ids_def)
    have status: "isl r \<or> False \<notin> set ?existing" unfolding w(2) isl_raise_if by blast
    then have "isl r \<or> set (plan_children ctx root_sid plan) \<subseteq> set (dkeys (co_nodes g))"
      unfolding plan_children_def known_children(1) comp_def .
    moreover have "unchanged (w_store w) (w_store w')" using w(1) by (simp add: unchanged_def)
    ultimately show ?thesis using ga(3) by blast
  next
    case False
    then have "submit_new P root_sid plan ctx (plan_ids ctx root_sid (rp_steps plan)) (inherited_approval P a) g stamp w = Some (w', r)"
      using assms Inr ga(1) by (simp add: submit_plan_def Let_def plan_ids_def)
    from submit_new_effect [OF this plan_admissible_Inr(2) [OF ga(2)]]
    have eff: "unchanged (w_store w) (w_store w') \<and> (isl r \<or> map_of (es_commands (w_store w)) (command_key ctx) \<noteq> None) \<or>
      plan_stored (w_store w) (w_store w') (cc_tenant_id ctx) (plan_children ctx root_sid plan)"
      by (simp add: plan_children_def)
    have "set (plan_children ctx root_sid plan) \<inter> set (dkeys (co_nodes g)) = {}"
      using False unfolding plan_children_def known_children(2) comp_def .
    then show ?thesis using eff ga(3) plan_admissible_Inr(1) [OF ga(2)] by blast
  qed
qed

lemma writes_plan:
  assumes "submit_plan P root_sid plan ctx stamp w = Some (w', r)"
  shows "writes_ok (Co_plan root_sid plan ctx stamp) w w'"
  unfolding writes_ok_def co_context.simps op_root.simps in_scope.simps
proof (intro allI impI)
  fix t sid assume ch: "stream_of (w_store w') t sid \<noteq> stream_of (w_store w) t sid"
  then obtain g where g: "service_graph (w_store w) (cc_tenant_id ctx) root_sid = Inr g" "acts_as ''coordinator'' ctx"
    "set (plan_children ctx root_sid plan) \<inter> set (dkeys (co_nodes g)) = {}"
    "plan_stored (w_store w) (w_store w') (cc_tenant_id ctx) (plan_children ctx root_sid plan)"
    using submit_plan_effect [OF assms] unfolding unchanged_def by blast
  then have t: "t = cc_tenant_id ctx" "sid \<in> set (plan_children ctx root_sid plan)"
    using ch unfolding plan_stored_def by (meson)+
  then have "map_of (co_nodes g) sid = None" using g(3) map_of_None_dkeys [of "co_nodes g" sid] by blast
  then have "\<exists>st \<in> set (rp_steps plan). new_child g ctx root_sid (rs_task_key st) sid"
    using t(2) by (auto simp: plan_children_def new_child_def)
  then show "t = cc_tenant_id ctx \<and> (\<exists>g. service_graph (w_store w) t root_sid = Inr g \<and> acts_as ''coordinator'' ctx \<and>
      (\<exists>st \<in> set (rp_steps plan). new_child g ctx root_sid (rs_task_key st) sid))"
    using g(1,2) t(1) by blast
qed

lemma co_call_writes_ok: "co_call P op w = Some (w', r) \<Longrightarrow> writes_ok op w w'"
  using writes_create writes_plan writes_dependencies writes_delegate writes_handoff writes_publish writes_review
    writes_request_review writes_cancel writes_join
  by (cases op) (auto, (metis fst_conv)+)

end

text \<open>
  C30: writes are scoped by role. Whatever command of the collaboration service is called, a stream that
  it changes belongs to the tenant of the caller and to the graph of the named root, and is one the
  actor may write: a coordinator creates Sessions that are not in the graph yet, under the id derived from
  their task key, changes children, cancels only those that are not finished and completes the root only
  when every joined child is completed and every joined review accepted it; a worker writes only a child
  that is not the root and not a review, and that nobody else owns; a reviewer only its own review of
  a child with a published result.
\<close>

theorem collaboration_writes_scoped:
  assumes "co_call (co_wired project P) op w = Some (w', r)"
    and "stream_of (w_store w') t sid \<noteq> stream_of (w_store w) t sid"
  shows "t = cc_tenant_id (co_context op) \<and> (\<exists>g. service_graph (w_store w) t (op_root op) = Inr g \<and> in_scope g op sid)"
  using relayed.co_call_writes_ok [OF assms(1)] assms(2) unfolding writes_ok_def by blast

text \<open>
  C31: a plan is submitted as one transaction. Submitting a plan either changes no stream, and then it is
  refused, repeats a stored command or finds all its children there already, or it gives every child of
  the plan, whose stream was empty, exactly the events of its creation and of its first Run, and
  changes no other stream. There is no outcome with some of the children only.
\<close>

theorem plan_submission_atomic:
  assumes "submit_plan (co_wired project P) root_sid plan ctx stamp w = Some (w', r)"
  shows "unchanged (w_store w) (w_store w') \<and>
      (isl r \<or> map_of (es_commands (w_store w)) (command_key ctx) \<noteq> None \<or>
       (\<exists>g. service_graph (w_store w) (cc_tenant_id ctx) root_sid = Inr g \<and>
          set (plan_children ctx root_sid plan) \<subseteq> set (dkeys (co_nodes g)))) \<or>
    plan_stored (w_store w) (w_store w') (cc_tenant_id ctx) (plan_children ctx root_sid plan)"
  using relayed.submit_plan_effect [OF assms] by blast

section \<open>Examples\<close>

definition demo_created :: canonical_event where
  "demo_created = \<lparr>ce_event_id = ''e'', ce_tenant_id = ''t'', ce_root_session_id = ''r'', ce_session_id = ''c1'', ce_run_id = None,
     ce_version = 1, ce_type = ''child.created'', ce_occurred_at = 1, ce_actor = \<lparr>actor_type = ''coordinator'', actor_id = ''a''\<rparr>,
     ce_correlation_id = ''x'', ce_causation_id = ''y'', ce_visibility = V_INTERNAL, ce_schema_version = 1,
     ce_payload = child_payload ''r'' ''r'' (demo_spec ''one'' []) PNone\<rparr>"

lemma demo_root_ids: "co_tenant_id (co_root ''t'' ''r'' ''goal'') = ''t''" "co_root_session_id (co_root ''t'' ''r'' ''goal'') = ''r''"
  using demo_root [of "''t''" "''r''" "''goal''"] by (auto simp: co_empty_def)


definition demo_step :: "string \<Rightarrow> string list \<Rightarrow> routing_plan_step" where
  "demo_step key deps = \<lparr>rs_task_key = key, rs_goal = ''part'', rs_dependencies = deps, rs_input_refs = [],
     rs_output_contract = \<lparr>po_result_kind = ''child_result'', po_required_fields = [''summary''], po_require_artifacts = False, po_require_evidence = False\<rparr>,
     rs_assignment = \<lparr>pa_execution_scope = ''child'', pa_role = ''worker'', pa_profile_id = None, pa_model = None, pa_harness = None\<rparr>,
     rs_budget = \<lparr>pb_fraction = Fin 1, pb_max_steps = None, pb_max_output_tokens = None, pb_max_cost = None\<rparr>,
     rs_capability = None, rs_parallel_group = None, rs_risk_class = PR_LOW, rs_requires_review = False\<rparr>"

theorem plan_ordered_iff_orderable_witness:
  "distinct (map rs_task_key [demo_step ''b'' [''a''], demo_step ''a'' []]) \<and>
   topological_steps (map (\<lambda>st. (rs_task_key st, st)) [demo_step ''b'' [''a''], demo_step ''a'' []]) =
     Inr [demo_step ''a'' [], demo_step ''b'' [''a'']] \<and>
   steps_sorted [demo_step ''a'' [], demo_step ''b'' [''a'']]"
proof -
  have d: "distinct (map rs_task_key [demo_step ''b'' [''a''], demo_step ''a'' []])" by (simp add: demo_step_def)
  have t: "topological_steps (map (\<lambda>st. (rs_task_key st, st)) [demo_step ''b'' [''a''], demo_step ''a'' []]) =
     Inr [demo_step ''a'' [], demo_step ''b'' [''a'']]"
    by code_simp
  show ?thesis using plan_ordered_iff_orderable [OF d] d t by simp
qed

definition demo_agents :: "unit co_ports" where
  "demo_agents = \<lparr>cp_codec = json_codec, cp_limits = default_limits, cp_relay_once = id, cp_step_dump = (\<lambda>st. PStr (rs_task_key st))\<rparr>"

definition demo_chief :: command_context where
  "demo_chief = \<lparr>cc_command_id = ''cmd'', cc_tenant_id = ''t'', cc_actor = \<lparr>actor_type = ''coordinator'', actor_id = ''a''\<rparr>,
     cc_correlation_id = ''c'', cc_expected_version = 1, cc_operation = ''delegate'', cc_causation_id = None, cc_dept_id = None\<rparr>"

definition demo_root_event :: canonical_event where
  "demo_root_event = demo_created\<lparr>ce_session_id := ''r'', ce_type := ''session.created'', ce_occurred_at := 0,
     ce_payload := [(''goal'', PStr ''goal''), (''root_session_id'', PStr ''r'')]\<rparr>"

definition demo_team :: "unit world" where
  "demo_team = \<lparr>w_store = es_init\<lparr>es_streams := [((''t'', ''r''), [demo_root_event]), ((''t'', ''c1''), [demo_created])]\<rparr>, w_view = ()\<rparr>"

abbreviation demo_delegation :: co_op where
  "demo_delegation \<equiv> Co_delegate ''r'' ''c1'' ''bob'' demo_chief (\<lambda>n. (show_nat n, 0))"

lemma demo_delegated:
  "length (stream_of (w_store (fst (delegate (co_wired (\<lambda>_ v. Inr v) demo_agents) ''r'' ''c1'' ''bob'' demo_chief (\<lambda>n. (show_nat n, 0)) demo_team))) ''t'' ''c1'') = 2"
  by code_simp

theorem collaboration_writes_scoped_witness:
  "\<exists>g. service_graph (w_store demo_team) ''t'' ''r'' = Inr g \<and> in_scope g demo_delegation ''c1''"
proof -
  let ?P = "co_wired (\<lambda>_ v. Inr v) demo_agents"
  obtain w' r where out: "co_call ?P demo_delegation demo_team = Some (w', r)" by (cases "co_call ?P demo_delegation demo_team") auto
  then have "length (stream_of (w_store w') ''t'' ''c1'') = 2" using demo_delegated by simp
  moreover have "length (stream_of (w_store demo_team) ''t'' ''c1'') = 1" by (simp add: demo_team_def stream_of_def dget_def)
  ultimately have "stream_of (w_store w') ''t'' ''c1'' \<noteq> stream_of (w_store demo_team) ''t'' ''c1''" by auto
  from collaboration_writes_scoped [OF out this] show ?thesis by auto
qed


definition demo_office :: "unit world" where
  "demo_office = \<lparr>w_store = es_init\<lparr>es_streams := [((''t'', ''r''), [demo_root_event])]\<rparr>, w_view = ()\<rparr>"

definition demo_team_ports :: "unit co_ports" where
  "demo_team_ports = co_wired (\<lambda>_ v. Inr v) (demo_agents\<lparr>cp_limits := default_limits\<lparr>cl_max_budget := Fin 1\<rparr>\<rparr>)"

definition demo_plan :: routing_plan where
  "demo_plan = routing_plan_create (cp_step_dump demo_team_ports) \<lparr>rp_route_kind = RK_COORDINATOR_DAG, rp_success_criteria = [''done''],
     rp_constraints = [], rp_risk_class = PR_LOW, rp_steps = [demo_step ''a'' []], rp_plan_digest = []\<rparr>"

lemma demo_plan_admissible: "plan_admissible demo_team_ports demo_plan demo_chief = Inr ()"
  by (simp add: plan_admissible_def require_coordinator_def demo_chief_def demo_plan_def routing_plan_create_def plan_content_def
      demo_step_def)

lemma demo_office_graph: "service_graph (w_store demo_office) ''t'' ''r'' = Inr (co_root ''t'' ''r'' ''goal'')"
  by code_simp

lemma demo_office_root: "\<exists>a. sa_from_events json_codec (es_load (w_store demo_office) ''t'' ''r'' 1 None None) = Inr a"
proof -
  have "\<not> isl (sa_from_events json_codec (es_load (w_store demo_office) ''t'' ''r'' 1 None None))" by code_simp
  then show ?thesis by (cases "sa_from_events json_codec (es_load (w_store demo_office) ''t'' ''r'' 1 None None)") simp_all
qed

lemma f_mul_one: "f_mul (Fin 1) (Fin 1) = Fin 1"
  by code_simp

definition demo_plan_child :: "string \<Rightarrow> child_spec" where
  "demo_plan_child digest = (demo_spec ''a'' [])
     \<lparr>cs_output_contract := \<lparr>oc_version = ''1'', oc_required_fields = [''summary''], oc_require_artifacts = False, oc_require_evidence = False\<rparr>,
      cs_metadata := plan_metadata (demo_step ''a'' []) digest None\<rparr>"

lemma demo_plan_spec: "plan_child_spec demo_team_ports (demo_step ''a'' []) ids digest = Inr (demo_plan_child digest)"
  by code_simp

lemma demo_plan_accepted:
  assumes "c \<noteq> ''r''"
  shows "validate_new_child ''r'' c (demo_plan_child digest) (cp_limits demo_team_ports) (co_root ''t'' ''r'' ''goal'') = Some (Inr ())"
proof -
  obtain n where "co_root ''t'' ''r'' ''goal'' = (co_empty ''t'' ''r'')\<lparr>co_nodes := [(''r'', n)]\<rparr>"
    "shape n = (None, ''root'', CR_ROOT, [])"
    using demo_root by blast
  then show ?thesis
    using assms
    by (simp add: validate_new_child_def co_empty_def shape_def default_limits_def demo_plan_child_def demo_spec_def co_children_def
        demo_team_ports_def co_wired_def co_depth_def depth_loop.simps [of _ None] f_sum_def f_lt_def f_add_zero_one del: f_add.simps)
       (simp add: validate_dependencies_def dependency_graph_def dget_def)
qed

lemma demo_plan_steps: "rp_steps demo_plan = [demo_step ''a'' []]" "rs_task_key (demo_step k ds) = k"
  by (simp_all add: demo_plan_def routing_plan_create_def demo_step_def)

lemma demo_plan_ordered: "topological_steps [(''a'', demo_step ''a'' [])] = Inr [demo_step ''a'' []]"
  by code_simp

lemma govern_no_runs:
  assumes "\<forall>e \<in> set existing. ce_type e \<noteq> ''run.requested''"
  shows "govern existing proposed sid root_sid run = Inr proposed"
proof -
  have "rfold (\<lambda>e d. if ce_type e = ''run.requested'' \<and> is_dict (pget (ce_payload e) ''budget'')
      then rbind (pitem (ce_payload e) ''run_id'') (\<lambda>rid. rbind (pitem (ce_payload e) ''budget'') (\<lambda>b. rbind (py_dict b) (\<lambda>b'.
        Inr (AList.update (py_str rid) b' d)))) else Inr d) existing d = Inr d" for d :: budgets
    using assms by (induction existing arbitrary: d) simp_all
  then have none: "run_budgets existing = Inr []" by (simp add: run_budgets_def)
  have "parent_run_of existing parent = Inr PNone" for parent
  proof -
    have "find (\<lambda>e. ce_session_id e = parent \<and> ce_type e = ''run.requested'') (rev existing) = None"
      using assms by (auto simp: find_None_iff)
    then show ?thesis by (simp add: parent_run_of_def)
  qed
  then have "child_budget [] existing child root_sid = Inr None" for child
    by (simp add: child_budget_def dget_def pget_def Let_def)
  then show ?thesis using none by (simp add: govern_def dget_def pget_def split: option.splits)
qed

lemma demo_office_stream: "stream_of (w_store demo_office) ''t'' (''ses_'' @ x) = []" "es_commands (w_store demo_office) = []"
  "root_events (w_store demo_office) ''t'' ''r'' = [demo_root_event]"
  by (simp_all add: demo_office_def stream_of_def dget_def root_events_def es_init_def demo_root_event_def demo_created_def)

lemma demo_batch_stored:
  assumes "map st_session_id items = [''ses_'' @ x]" "map st_expected_version items = [0]"
  shows "\<not> isl (snd (es_append_batch ''r'' demo_chief items resp stamp (w_store demo_office)))"
proof -
  obtain item where item: "items = [item]" "st_session_id item = ''ses_'' @ x" "st_expected_version item = 0" using assms by auto
  have chief: "cc_tenant_id demo_chief = ''t''" by (simp add: demo_chief_def)
  have "govern [demo_root_event] (st_events item) (''ses_'' @ x) ''r'' (st_run_id item) = Inr (st_events item)"
    by (rule govern_no_runs) (simp add: demo_root_event_def demo_created_def)
  then show ?thesis
    using demo_office_stream(1) [of x]
    by (simp add: es_append_batch_def item chief demo_office_stream(2,3) check_version_def govern_item_def Let_def)
qed

lemma demo_submitted:
  assumes x: "c = ''ses_'' @ x"
  shows "\<exists>w' r. submit_new demo_team_ports ''r'' demo_plan demo_chief [(''a'', c)] inh (co_root ''t'' ''r'' ''goal'') (\<lambda>n. (show_nat n, 0)) demo_office
      = Some (w', Inr r)"
proof -
  define spec where "spec = demo_plan_child (rp_plan_digest demo_plan)"
  define item where "item = \<lparr>st_session_id = c, st_run_id = None, st_expected_version = 0,
     st_events = child_events c (plan_child_payload ''r'' ''r'' spec inh) inh\<rparr>"
  have "c \<noteq> ''r''" by (simp add: x)
  then have "\<exists>g'. stage_steps demo_team_ports ''r'' [(''a'', c)] (rp_plan_digest demo_plan) inh [demo_step ''a'' []] (co_root ''t'' ''r'' ''goal'', [], []) =
      Some (Inr (g', [item], [(''a'', planned_child (demo_step ''a'' []) c (cs_role spec) (cs_dependency_ids spec))]))"
    by (simp add: stage_step_def demo_plan_spec demo_plan_steps stage_new_child_def demo_plan_accepted item_def spec_def)
  then obtain g' p where st: "stage_steps demo_team_ports ''r'' [(''a'', c)] (rp_plan_digest demo_plan) inh [demo_step ''a'' []]
      (co_root ''t'' ''r'' ''goal'', [], []) = Some (Inr (g', [item], [(''a'', p)]))" by blast
  have ok: "\<not> isl (snd (es_append_batch ''r'' demo_chief [item] resp stamp (w_store demo_office)))" for resp stamp
    by (rule demo_batch_stored) (simp_all add: item_def x)
  show ?thesis
    using ok [of "plan_response ''r'' (rp_plan_digest demo_plan) [p]" "\<lambda>n. (show_nat n, 0)"] st
    by (cases "es_append_batch ''r'' demo_chief [item] (plan_response ''r'' (rp_plan_digest demo_plan) [p]) (\<lambda>n. (show_nat n, 0)) (w_store demo_office)";
        cases "snd (es_append_batch ''r'' demo_chief [item] (plan_response ''r'' (rp_plan_digest demo_plan) [p]) (\<lambda>n. (show_nat n, 0)) (w_store demo_office))")
       (simp_all add: submit_new_def demo_plan_steps demo_plan_ordered pitem_of_def Let_def)
qed

theorem plan_submission_atomic_witness:
  "\<exists>w' r. submit_plan demo_team_ports ''r'' demo_plan demo_chief (\<lambda>n. (show_nat n, 0)) demo_office = Some (w', Inr r) \<and>
     plan_stored (w_store demo_office) (w_store w') ''t'' [child_id ''t'' ''r'' ''a'']"
proof -
  let ?out = "submit_plan demo_team_ports ''r'' demo_plan demo_chief (\<lambda>n. (show_nat n, 0)) demo_office"
  define c where "c = child_id ''t'' ''r'' ''a''"
  obtain x where x: "c = ''ses_'' @ x" by (simp add: c_def child_id_def)
  have chief: "cc_tenant_id demo_chief = ''t''" "cp_codec demo_team_ports = json_codec"
    by (simp_all add: demo_chief_def demo_team_ports_def co_wired_def demo_agents_def)
  obtain a where a: "sa_from_events json_codec (es_load (w_store demo_office) ''t'' ''r'' 1 None None) = Inr a" using demo_office_root by blast
  obtain n where g: "co_root ''t'' ''r'' ''goal'' = (co_empty ''t'' ''r'')\<lparr>co_nodes := [(''r'', n)]\<rparr>" using demo_root by blast
  have new: "map_of (co_nodes (co_root ''t'' ''r'' ''goal'')) c = None" by (simp add: g x)
  let ?inh = "inherited_approval demo_team_ports a"
  have "?out = submit_new demo_team_ports ''r'' demo_plan demo_chief [(''a'', c)] ?inh (co_root ''t'' ''r'' ''goal'') (\<lambda>n. (show_nat n, 0)) demo_office"
    using demo_plan_admissible demo_office_graph a new by (simp add: submit_plan_def chief demo_plan_steps c_def Let_def)
  then obtain w' r where out: "?out = Some (w', Inr r)" using demo_submitted [OF x, of ?inh] by auto
  have "\<not> set (plan_children demo_chief ''r'' demo_plan) \<subseteq> set (dkeys (co_nodes (co_root ''t'' ''r'' ''goal'')))"
    by (simp add: plan_children_def demo_plan_steps chief g child_id_def)
  then show ?thesis
    using plan_submission_atomic [OF out [unfolded demo_team_ports_def]] out demo_office_graph
    by (simp add: chief demo_office_stream(2) plan_children_def demo_plan_steps)
qed

end
