(* ===== verification/Spec2Isabelle.thy ===== *)
theory Spec2Isabelle
  imports Session_Laws Budget_Laws Skill_Execution Event_Store_Laws Control_Store_Laws
    Task_Service_Laws Collaboration_Service_Laws
begin

text \<open>
  A verification development of the AuraClaw agent platform (\<open>src/src/auraclaw\<close>).

  \<^bold>\<open>The program.\<close> AuraClaw runs agents as event-sourced Sessions. A user calls the task service, a
  coordinating agent calls the collaboration service; both rebuild an aggregate from stored events, let
  it check the command, and append the new events to the event store. The store numbers the events of a
  Session, remembers the answer of every command, and writes each event to an outbox, from which a relay
  feeds the read models and workers claim records for delivery and control. The control plane queues
  the Runs of Sessions, leases a Session to one runtime at a time and fences off runtimes that lost their
  lease. Approvals are voted on by humans; budgets limit what a Run and a tree of Runs may reserve.

  \<^bold>\<open>Foundations.\<close>
  \<^item> \<open>Aura_Prelude\<close>: exceptions and results (\<open>aura_error + 'a\<close>, \<open>rbind\<close>, \<open>raise_if\<close>, \<open>rfold\<close>, \<open>rmap\<close>),
    dictionaries as association lists in insertion order, and the locale \<open>store_machine\<close> of a state with
    an initial value, a step function and an invariant that every step keeps.
  \<^item> \<open>Py_Value\<close>: JSON-like Python values, \<open>==\<close>, \<open>str\<close>, \<open>int\<close>, \<open>float\<close>, and IEEE double arithmetic with
    rounding written out (\<open>round64\<close>). \<open>Py_Time\<close>, \<open>Py_Iso\<close>: instants as integer microseconds,
    \<open>isoformat\<close> and \<open>fromisoformat\<close>. \<open>Py_Json\<close>: \<open>json.dumps\<close>, UTF-8 and SHA-256. \<open>Py_Uuid\<close>: SHA-1
    and \<open>uuid5\<close>. The 32-bit arithmetic of the hashes is on \<open>32 word\<close>; Python integers are \<open>int\<close>.
  \<^item> \<open>Contracts\<close>: \<open>contracts/state.py\<close>, \<open>events.py\<close>, \<open>commands.py\<close> and \<open>approval_mode.py\<close>.

  \<^bold>\<open>Components and what is shown.\<close>
  \<^item> \<open>Session_Aggregate\<close> models \<open>domain/session.py\<close>: \<open>session_aggregate\<close> is the class, \<open>sa_create\<close>,
    \<open>sa_cancel\<close>, \<open>sa_request_run\<close> and so on are its commands, \<open>sa_apply\<close> applies an event,
    \<open>sa_from_events\<close>, \<open>sa_snapshot_state\<close> and \<open>sa_from_snapshot\<close> store and restore. \<open>Session_Laws\<close>: replaying
    the events of a command gives the state the command left; commands are accepted exactly in the
    states their guards name; Session and Run status agree in every history; a snapshot and the later
    events restore what all events give; non-streaming Sessions run with full access.
  \<^item> \<open>Runtime_Budget\<close> models \<open>domain/runtime_budget.py\<close> (\<open>usage\<close>, \<open>run_budgets\<close>, \<open>govern\<close>). \<open>Budget_Laws\<close>:
    reservations stay within the budget of their Run, allocations within the limits of the root.
  \<^item> \<open>Skill_Execution\<close> models \<open>domain/skill_execution.py\<close>: an invocation is pending until it is settled.
  \<^item> \<open>Event_Store\<close> models \<open>infrastructure/persistence/memory_event_store.py\<close> and the records of
    \<open>session/ports.py\<close>. \<open>Event_Store_Laws\<close>: gap-free append-only streams, a complete outbox, appends that
    store everything or nothing, commands answered once, and claims that are exclusive and publish the
    records of a Session in order.
  \<^item> \<open>Control_Store\<close> models \<open>infrastructure/persistence/memory_control_store.py\<close> and \<open>control/ports.py\<close>.
    \<open>Control_Store_Laws\<close>: leases are exclusive and their fencing tokens grow, a stale token stays refused,
    queue claims and assignments are exclusive, wake-ups are not lost, recovery requeues what is orphaned,
    checkpoints and capacity are monotone and bounded.
  \<^item> \<open>Approval\<close> models \<open>domain/approval.py\<close> with the records of \<open>contracts/tools.py\<close> and the risk levels of
    \<open>contracts/capabilities.py\<close>. \<open>Approval_Laws\<close>: a quorum of distinct approvers decides, votes and requests
    survive their events, the text hashed into a request digest determines the request.
  \<^item> \<open>Outbox_Relay\<close> models \<open>projection/relay.py\<close>: one pass over an accepting projector publishes every pending
    record in order, and a pass changes nothing but the state of outbox records.
  \<^item> \<open>Task_Service\<close> models \<open>session/task_service.py\<close> over the modelled aggregate, store, budget, approval
    and relay. \<open>Task_Service_Laws\<close>: a call carries out one command of the aggregate durably or changes
    no stream, and snapshots never change what is loaded.
  \<^item> \<open>Collaboration\<close> models \<open>domain/collaboration.py\<close> and \<open>contracts/collaboration.py\<close>. \<open>Collaboration_Laws\<close>:
    the search of \<open>validate_dependencies\<close> decides acyclicity, graphs rebuilt from any events are well typed,
    and a graph that grows by accepted steps is a tree within its limits whose waiting children run
    exactly when their dependencies are completed.
  \<^item> \<open>Collaboration_Service\<close> models \<open>session/collaboration_service.py\<close> and the plans of
    \<open>contracts/routing.py\<close>. \<open>Collaboration_Service_Laws\<close>: each command writes only Sessions in the scope of the
    role that calls it, a plan is stored as one transaction, \<open>_topological_steps\<close> finds an order exactly
    if there is one, and the event of a new child means what staging the child means.

  \<^bold>\<open>Interfaces.\<close> \<open>store_machine\<close> is interpreted by the Session lifecycle, the event store, the control
  store (twice, for two invariants), the task service and the growth of a graph. \<open>task_ports\<close> states what
  the task service needs of its ports (a codec that reads what it wrote, a relay that writes no stream)
  and is interpreted over the modelled relay; \<open>collaboration_ports\<close> does so for the collaboration
  service; \<open>valid_limits\<close> is interpreted by the default limits.

  \<^bold>\<open>Parameters.\<close> Clock readings, fresh identifiers and event stamps are arguments. The pydantic codec of
  \<open>ApprovalConfiguration\<close> is a parameter with the hypothesis \<open>codec_ok\<close>, which the concrete \<open>json_codec\<close>
  satisfies. Admission, read models, the notifier and the projector are fields of \<open>ports\<close>, the JSON form
  of a plan step one of \<open>co_ports\<close>; nothing is assumed of them, except that the projector of the relay
  property accepts.

  \<^bold>\<open>Locks, loops and fuel.\<close> A method that holds the lock of its store is one step; interleavings are
  sequences of steps. The loops of the code are structural recursions or functions with a measure (the
  searches of \<open>validate_dependencies\<close> and \<open>_topological_steps\<close> by the nodes not yet on the path). The walk from
  a node to its root (\<open>depth\<close>) ends only if the parents form no cycle; it is a \<open>partial_function\<close> whose
  \<open>None\<close> stands for running for ever, and it is proved to return in every graph that grew by accepted
  steps. The polling loop of \<open>claim_outbox\<close> runs over the list of its polls. The decimal digits of a
  float are searched up to 17, which always suffices for a double.

  \<^bold>\<open>Not modelled.\<close> The Postgres, Kafka, HTTP and identity adapters, object storage and the model gateway
  are calls to software outside the repository; their in-memory counterparts are the implementations
  modelled here. The agent runtime, tool and Skill execution, semantic routing and delivery are concurrent
  programs driven by timers, models and remote servers. HTTP routes, composition, configuration and
  observability read or wire the modelled parts. Projections, orchestrator, runnable feed and policy rules
  are ordinary code over the modelled stores; this development does not reach them yet. Validators of pydantic fields are left out where a model is only read.
\<close>

end
